theory Spec2Isabelle
  imports Complex_Main "HOL-Library.Log_Nat" "HOL-Library.Word"
begin

unbundle bit_operations_syntax

chapter \<open>HCS-LAB: the profile-to-code pipeline\<close>

text \<open>
  A shallow embedding of the Go package \<^verbatim>\<open>internal/hcs\<close>: the normalizer, the U3, U4 and U7
  codecs, the BaZi calendar engine, the element signature of the fusion engine, the
  signature engine and the generator. Go strings and byte slices are \<^typ>\<open>string\<close> (a list
  of 8-bit characters), Go's \<^verbatim>\<open>int\<close> is \<^typ>\<open>int\<close> (with the 64-bit wrap-around written out
  where an input is unbounded), \<^verbatim>\<open>float64\<close> is the type \<open>float64\<close> below, and an
  \<^verbatim>\<open>error\<close> result is the left summand of a sum type.
\<close>

section \<open>IEEE-754 binary64\<close>

text \<open>
  A \<^verbatim>\<open>float64\<close> is a finite double (the real number it denotes), an infinity or NaN. Every
  arithmetic operation computes the exact real result and rounds it to the nearest double,
  ties to even (\<open>rnd\<close>): 53 bits of precision, gradual underflow below \<open>2 powi (-1022)\<close>,
  overflow to an infinity from \<open>2 ^ 1024\<close>. The two zeros are identified: no function
  modelled here divides by a negative zero or prints one. Operations are rounded one by one,
  as the Go compiler does on amd64 (no fused multiply-add).
\<close>

datatype float64 = Fin real | PInf | NInf | NaN

definition round_half_even :: "real \<Rightarrow> int" where
  "round_half_even q =
     (let f = \<lfloor>q\<rfloor>; d = q - of_int f
      in if d < 1 / 2 then f else if 1 / 2 < d then f + 1 else if even f then f else f + 1)"

text \<open>\<open>ilog2 r\<close> is the binary exponent of a positive real: \<open>2 powi ilog2 r \<le> r < 2 powi (ilog2 r + 1)\<close>.\<close>

definition ilog2 :: "real \<Rightarrow> int" where
  "ilog2 r = (if 1 \<le> r then bitlen \<lfloor>r\<rfloor> - 1 else - bitlen (\<lceil>1 / r\<rceil> - 1))"

definition rnd :: "real \<Rightarrow> float64" where
  "rnd r =
     (if r = 0 then Fin 0
      else
        let e = max (ilog2 \<bar>r\<bar>) (- 1022) - 52;
            m = round_half_even (r / 2 powi e)
        in if 1024 < bitlen \<bar>m\<bar> + e then (if 0 < r then PInf else NInf)
           else Fin (of_int m * 2 powi e))"

fun f64_add :: "float64 \<Rightarrow> float64 \<Rightarrow> float64" where
  "f64_add (Fin a) (Fin b) = rnd (a + b)"
| "f64_add NaN y = NaN"
| "f64_add x NaN = NaN"
| "f64_add PInf NInf = NaN"
| "f64_add NInf PInf = NaN"
| "f64_add PInf y = PInf"
| "f64_add x PInf = PInf"
| "f64_add NInf y = NInf"
| "f64_add x NInf = NInf"

fun f64_mul :: "float64 \<Rightarrow> float64 \<Rightarrow> float64" where
  "f64_mul (Fin a) (Fin b) = rnd (a * b)"
| "f64_mul NaN y = NaN"
| "f64_mul x NaN = NaN"
| "f64_mul (Fin a) PInf = (if a = 0 then NaN else if 0 < a then PInf else NInf)"
| "f64_mul (Fin a) NInf = (if a = 0 then NaN else if 0 < a then NInf else PInf)"
| "f64_mul PInf (Fin b) = (if b = 0 then NaN else if 0 < b then PInf else NInf)"
| "f64_mul NInf (Fin b) = (if b = 0 then NaN else if 0 < b then NInf else PInf)"
| "f64_mul PInf PInf = PInf"
| "f64_mul NInf NInf = PInf"
| "f64_mul PInf NInf = NInf"
| "f64_mul NInf PInf = NInf"

fun f64_div :: "float64 \<Rightarrow> float64 \<Rightarrow> float64" where
  "f64_div (Fin a) (Fin b) =
     (if b = 0 then (if a = 0 then NaN else if 0 < a then PInf else NInf) else rnd (a / b))"
| "f64_div NaN y = NaN"
| "f64_div x NaN = NaN"
| "f64_div (Fin a) y = Fin 0"
| "f64_div PInf (Fin b) = (if 0 \<le> b then PInf else NInf)"
| "f64_div NInf (Fin b) = (if 0 \<le> b then NInf else PInf)"
| "f64_div x y = NaN"

text \<open>Go's \<^verbatim>\<open><\<close> on \<^verbatim>\<open>float64\<close>: every comparison with NaN is false. \<^verbatim>\<open>x > y\<close> is \<open>f64_lt y x\<close>.\<close>

fun f64_lt :: "float64 \<Rightarrow> float64 \<Rightarrow> bool" where
  "f64_lt (Fin a) (Fin b) = (a < b)"
| "f64_lt NaN y = False"
| "f64_lt x NaN = False"
| "f64_lt x NInf = False"
| "f64_lt PInf y = False"
| "f64_lt x y = True"

text \<open>
  \<^verbatim>\<open>math.Round\<close>: the nearest integer, halves away from zero; infinities and NaN are returned
  as they are. \<^verbatim>\<open>math.Min\<close> and \<^verbatim>\<open>math.Max\<close> return NaN when an argument is NaN.
\<close>

fun math_Round :: "float64 \<Rightarrow> float64" where
  "math_Round (Fin a) = Fin (of_int (if 0 \<le> a then \<lfloor>a + 1 / 2\<rfloor> else - \<lfloor>- a + 1 / 2\<rfloor>))"
| "math_Round x = x"

fun math_Max :: "float64 \<Rightarrow> float64 \<Rightarrow> float64" where
  "math_Max NaN y = NaN"
| "math_Max x NaN = NaN"
| "math_Max x y = (if f64_lt x y then y else x)"

fun math_Min :: "float64 \<Rightarrow> float64 \<Rightarrow> float64" where
  "math_Min NaN y = NaN"
| "math_Min x NaN = NaN"
| "math_Min x y = (if f64_lt y x then y else x)"

text \<open>
  The conversion \<^verbatim>\<open>int(x)\<close> truncates towards zero. Go leaves the result
  implementation-dependent when the value does not fit (an infinity, NaN, a magnitude from
  \<open>2 ^ 63\<close>); amd64, the target of the repository's Dockerfile, yields the least
  \<^verbatim>\<open>int64\<close>.
\<close>

definition int_indefinite :: int where
  "int_indefinite = - (2 ^ 63)"

fun f64_to_int :: "float64 \<Rightarrow> int" where
  "f64_to_int (Fin a) =
     (let t = (if 0 \<le> a then \<lfloor>a\<rfloor> else \<lceil>a\<rceil>)
      in if - (2 ^ 63) \<le> t \<and> t < 2 ^ 63 then t else int_indefinite)"
| "f64_to_int x = int_indefinite"

section \<open>Formatting\<close>

text \<open>The verbs of \<^verbatim>\<open>fmt.Sprintf\<close> the codecs use: \<^verbatim>\<open>%s\<close> copies the string, \<^verbatim>\<open>%02d\<close> prints
  a decimal integer padded with zeros to two characters, the sign counted.\<close>

definition digit_char :: "nat \<Rightarrow> char" where
  "digit_char d = ''0123456789'' ! d"

function dec_digits :: "nat \<Rightarrow> string" where
  "dec_digits n = (if n < 10 then [digit_char n] else dec_digits (n div 10) @ [digit_char (n mod 10)])"
  by pat_completeness auto
termination
  by (relation "measure id") auto

definition fmt_d :: "int \<Rightarrow> string" where
  "fmt_d n = (if 0 \<le> n then dec_digits (nat n) else CHR ''-'' # dec_digits (nat (- n)))"

definition fmt_02d :: "int \<Rightarrow> string" where
  "fmt_02d n =
     (if 0 \<le> n then (let s = dec_digits (nat n) in if length s < 2 then CHR ''0'' # s else s)
      else CHR ''-'' # dec_digits (nat (- n)))"

section \<open>Profiles\<close>

record ModalBalance =
  Cardinal :: float64
  Fixed :: float64
  Mutable :: float64

record CognitionProfile =
  Fluid :: float64
  Crystallized :: float64
  Verbal :: float64
  Strategic :: float64
  Creative :: float64

record InteractionPreferences =
  Pace :: string
  Structure :: string
  Tone :: string

record BirthInfo =
  Year :: int
  Month :: int
  Day :: int
  Hour :: int
  Minute :: int
  Timezone :: string

text \<open>The field \<^verbatim>\<open>BirthInfo *BirthInfo\<close> is a pointer: \<open>None\<close> is \<^verbatim>\<open>nil\<close>.\<close>

record InputProfile =
  DominantElement :: string
  Modal :: ModalBalance
  Cognition :: CognitionProfile
  Interaction :: InteractionPreferences
  BirthInfoPtr :: "BirthInfo option"

record NormalizedModal =
  nm_C :: int
  nm_F :: int
  nm_M :: int

record NormalizedCognition =
  nc_F :: int
  nc_C :: int
  nc_V :: int
  nc_S :: int
  nc_Cr :: int

record NormalizedInteraction =
  PB :: string
  SM :: string
  TN :: string

record NormalizedProfile =
  Element :: string
  NModal :: NormalizedModal
  Cog :: NormalizedCognition
  NInt :: NormalizedInteraction

section \<open>Normalizer\<close>

definition clampAndRound :: "float64 \<Rightarrow> int" where
  "clampAndRound value0 =
     (let value1 = (if f64_lt value0 (Fin 0) then Fin 0 else value0);
          value2 = (if f64_lt (Fin 1) value1 then Fin 1 else value1)
      in f64_to_int (math_Round (f64_mul value2 (Fin 100))))"

definition mapElementToLetter :: "string \<Rightarrow> string" where
  "mapElementToLetter element =
     (if element = ''Earth'' then ''E''
      else if element = ''Air'' then ''A''
      else if element = ''Water'' then ''W''
      else if element = ''Fire'' then ''F''
      else ''E'')"

definition mapPaceToLetter :: "string \<Rightarrow> string" where
  "mapPaceToLetter pace =
     (if pace = ''balanced'' then ''B''
      else if pace = ''fast'' then ''F''
      else if pace = ''slow'' then ''S''
      else ''B'')"

definition mapStructureToLetter :: "string \<Rightarrow> string" where
  "mapStructureToLetter structure =
     (if structure = ''low'' then ''L''
      else if structure = ''medium'' then ''M''
      else if structure = ''high'' then ''H''
      else ''M'')"

definition mapToneToLetter :: "string \<Rightarrow> string" where
  "mapToneToLetter tone =
     (if tone = ''warm'' then ''W''
      else if tone = ''neutral'' then ''N''
      else if tone = ''sharp'' then ''S''
      else if tone = ''precise'' then ''P''
      else ''N'')"

definition NormalizeProfile :: "InputProfile \<Rightarrow> NormalizedProfile" where
  "NormalizeProfile inp =
     \<lparr> Element = mapElementToLetter (DominantElement inp),
       NModal = \<lparr> nm_C = clampAndRound (Cardinal (Modal inp)),
                  nm_F = clampAndRound (Fixed (Modal inp)),
                  nm_M = clampAndRound (Mutable (Modal inp)) \<rparr>,
       Cog = \<lparr> nc_F = clampAndRound (Fluid (Cognition inp)),
               nc_C = clampAndRound (Crystallized (Cognition inp)),
               nc_V = clampAndRound (Verbal (Cognition inp)),
               nc_S = clampAndRound (Strategic (Cognition inp)),
               nc_Cr = clampAndRound (Creative (Cognition inp)) \<rparr>,
       NInt = \<lparr> PB = mapPaceToLetter (Pace (Interaction inp)),
               SM = mapStructureToLetter (Structure (Interaction inp)),
               TN = mapToneToLetter (Tone (Interaction inp)) \<rparr> \<rparr>"

section \<open>The plain-text codec (U3)\<close>

definition EncodeU3 :: "InputProfile \<Rightarrow> string \<Rightarrow> string" where
  "EncodeU3 inp chip =
     (let elemSegment = ''E:'' @ mapElementToLetter (DominantElement inp);
          modalSegment =
            ''MOD:c'' @ fmt_02d (clampAndRound (Cardinal (Modal inp)))
            @ ''f'' @ fmt_02d (clampAndRound (Fixed (Modal inp)))
            @ ''m'' @ fmt_02d (clampAndRound (Mutable (Modal inp)));
          cogSegment =
            ''COG:F'' @ fmt_02d (clampAndRound (Fluid (Cognition inp)))
            @ ''C'' @ fmt_02d (clampAndRound (Crystallized (Cognition inp)))
            @ ''V'' @ fmt_02d (clampAndRound (Verbal (Cognition inp)))
            @ ''S'' @ fmt_02d (clampAndRound (Strategic (Cognition inp)))
            @ ''Cr'' @ fmt_02d (clampAndRound (Creative (Cognition inp)));
          intSegment =
            ''INT:PB='' @ mapPaceToLetter (Pace (Interaction inp))
            @ '',SM='' @ mapStructureToLetter (Structure (Interaction inp))
            @ '',TN='' @ mapToneToLetter (Tone (Interaction inp));
          chipSegment = ''CHIP:'' @ chip
      in ''HCS-U3|'' @ elemSegment @ ''|'' @ modalSegment @ ''|'' @ cogSegment
           @ ''|'' @ intSegment @ ''|'' @ chipSegment)"

section \<open>Go integers, slices and maps\<close>

text \<open>
  A call returns its value (\<open>Inr\<close>), an \<^verbatim>\<open>error\<close> with its message (\<open>Inl (Error msg)\<close>) or
  panics (\<open>Inl (Panic msg)\<close>), as an index out of range does.
\<close>

datatype error = Error string | Panic string

text \<open>\<open>and_then r f\<close> continues with the value of \<open>r\<close>; an error or a panic of \<open>r\<close> ends the call.\<close>

definition and_then :: "error + 'a \<Rightarrow> ('a \<Rightarrow> error + 'b) \<Rightarrow> error + 'b" where
  "and_then r f = (case r of Inl e \<Rightarrow> Inl e | Inr x \<Rightarrow> f x)"

definition wrap64 :: "int \<Rightarrow> int" where
  "wrap64 x = (x + 2 ^ 63) mod 2 ^ 64 - 2 ^ 63"

text \<open>Go's \<^verbatim>\<open>/\<close> and \<^verbatim>\<open>%\<close> on integers truncate towards zero.\<close>

definition go_quot :: "int \<Rightarrow> int \<Rightarrow> int" where
  "go_quot a b = sgn a * sgn b * (\<bar>a\<bar> div \<bar>b\<bar>)"

definition go_rem :: "int \<Rightarrow> int \<Rightarrow> int" where
  "go_rem a b = sgn a * (\<bar>a\<bar> mod \<bar>b\<bar>)"

definition index_at :: "'a list \<Rightarrow> int \<Rightarrow> error + 'a" where
  "index_at xs i =
     (if 0 \<le> i \<and> i < int (length xs) then Inr (xs ! nat i)
      else Inl (Panic ''index out of range''))"

text \<open>
  A \<^verbatim>\<open>map[string]float64\<close> is a partial function; reading a missing key gives zero. The
  order in which \<^verbatim>\<open>range\<close> visits the keys is not specified by Go, so a loop whose result
  may depend on it takes the order as an argument, a list of the keys.
\<close>

type_synonym float_map = "string \<rightharpoonup> float64"

definition map_get :: "float_map \<Rightarrow> string \<Rightarrow> float64" where
  "map_get m k = (case m k of None \<Rightarrow> Fin 0 | Some v \<Rightarrow> v)"

definition map_add :: "float_map \<Rightarrow> string \<Rightarrow> float64 \<Rightarrow> float_map" where
  "map_add m k x = m(k \<mapsto> f64_add (map_get m k) x)"

section \<open>Calendar engine (BaZi)\<close>

datatype HeavenlyStem =
  HeavenlyStem (stem_Name: string) (stem_Element: string) (stem_YinYang: string)

datatype EarthlyBranch =
  EarthlyBranch (branch_Name: string) (branch_Element: string) (branch_YinYang: string)
    (branch_Animal: string)

definition HeavenlyStems :: "HeavenlyStem list" where
  "HeavenlyStems =
     [HeavenlyStem ''Jia'' ''Wood'' ''Yang'',
      HeavenlyStem ''Yi'' ''Wood'' ''Yin'',
      HeavenlyStem ''Bing'' ''Fire'' ''Yang'',
      HeavenlyStem ''Ding'' ''Fire'' ''Yin'',
      HeavenlyStem ''Wu'' ''Earth'' ''Yang'',
      HeavenlyStem ''Ji'' ''Earth'' ''Yin'',
      HeavenlyStem ''Geng'' ''Metal'' ''Yang'',
      HeavenlyStem ''Xin'' ''Metal'' ''Yin'',
      HeavenlyStem ''Ren'' ''Water'' ''Yang'',
      HeavenlyStem ''Gui'' ''Water'' ''Yin'']"

definition EarthlyBranches :: "EarthlyBranch list" where
  "EarthlyBranches =
     [EarthlyBranch ''Zi'' ''Water'' ''Yang'' ''Rat'',
      EarthlyBranch ''Chou'' ''Earth'' ''Yin'' ''Ox'',
      EarthlyBranch ''Yin'' ''Wood'' ''Yang'' ''Tiger'',
      EarthlyBranch ''Mao'' ''Wood'' ''Yin'' ''Rabbit'',
      EarthlyBranch ''Chen'' ''Earth'' ''Yang'' ''Dragon'',
      EarthlyBranch ''Si'' ''Fire'' ''Yin'' ''Snake'',
      EarthlyBranch ''Wu'' ''Fire'' ''Yang'' ''Horse'',
      EarthlyBranch ''Wei'' ''Earth'' ''Yin'' ''Goat'',
      EarthlyBranch ''Shen'' ''Metal'' ''Yang'' ''Monkey'',
      EarthlyBranch ''You'' ''Metal'' ''Yin'' ''Rooster'',
      EarthlyBranch ''Xu'' ''Earth'' ''Yang'' ''Dog'',
      EarthlyBranch ''Hai'' ''Water'' ''Yin'' ''Pig'']"

definition MonthBranchMapping :: "int list" where
  "MonthBranchMapping = [2, 3, 4, 5, 6, 7, 8, 9, 10, 11, 0, 1]"

record Pillar =
  Stem :: string
  Branch :: string
  StemIndex :: int
  BranchIndex :: int

definition PillarToString :: "Pillar \<Rightarrow> string" where
  "PillarToString p = Stem p @ ''-'' @ Branch p"

text \<open>
  \<open>mkPillar\<close> is the composite literal every \<^verbatim>\<open>Compute...Pillar\<close> function returns: the two
  table reads, each of which panics when its index is out of range.
\<close>

definition mkPillar :: "int \<Rightarrow> int \<Rightarrow> error + Pillar" where
  "mkPillar stemIndex branchIndex =
     (case index_at HeavenlyStems stemIndex of
        Inl e \<Rightarrow> Inl e
      | Inr stem \<Rightarrow>
          (case index_at EarthlyBranches branchIndex of
             Inl e \<Rightarrow> Inl e
           | Inr branch \<Rightarrow>
               Inr \<lparr> Stem = stem_Name stem, Branch = branch_Name branch,
                     StemIndex = stemIndex, BranchIndex = branchIndex \<rparr>))"

definition ComputeYearPillar :: "int \<Rightarrow> error + Pillar" where
  "ComputeYearPillar year =
     (let cycleYear = wrap64 (year - 1924);
          stemIndex0 = go_rem cycleYear 10;
          stemIndex = (if stemIndex0 < 0 then stemIndex0 + 10 else stemIndex0);
          branchIndex0 = go_rem cycleYear 12;
          branchIndex = (if branchIndex0 < 0 then branchIndex0 + 12 else branchIndex0)
      in mkPillar stemIndex branchIndex)"

definition ComputeMonthPillar :: "int \<Rightarrow> int \<Rightarrow> int \<Rightarrow> error + Pillar" where
  "ComputeMonthPillar year month day =
     (case ComputeYearPillar year of
        Inl e \<Rightarrow> Inl e
      | Inr yearPillar \<Rightarrow>
          (case index_at MonthBranchMapping (wrap64 (month - 1)) of
             Inl e \<Rightarrow> Inl e
           | Inr monthBranchIndex \<Rightarrow>
               let monthStemIndex = go_rem (wrap64 (StemIndex yearPillar * 2 + month)) 10
               in mkPillar monthStemIndex monthBranchIndex))"

definition ComputeHourPillar :: "Pillar \<Rightarrow> int \<Rightarrow> error + Pillar" where
  "ComputeHourPillar dayPillar hour =
     (let hourBranchIndex = go_rem (go_quot (wrap64 (hour + 1)) 2) 12;
          hourStemBase = wrap64 (go_rem (StemIndex dayPillar) 5 * 2);
          hourStemIndex = go_rem (wrap64 (hourStemBase + hourBranchIndex)) 10
      in mkPillar hourStemIndex hourBranchIndex)"

text \<open>The keys of the element map, in the order of the map literal.\<close>

definition five_elements :: "string list" where
  "five_elements = [''Wood'', ''Fire'', ''Earth'', ''Metal'', ''Water'']"

definition elements_init :: float_map where
  "elements_init =
     [''Wood'' \<mapsto> Fin 0, ''Fire'' \<mapsto> Fin 0, ''Earth'' \<mapsto> Fin 0, ''Metal'' \<mapsto> Fin 0,
      ''Water'' \<mapsto> Fin 0]"

fun count_elements :: "Pillar list \<Rightarrow> float_map \<Rightarrow> error + float_map" where
  "count_elements [] elements = Inr elements"
| "count_elements (pillar # rest) elements =
     (case index_at HeavenlyStems (StemIndex pillar) of
        Inl e \<Rightarrow> Inl e
      | Inr stem \<Rightarrow>
          (let elements1 = map_add elements (stem_Element stem) (Fin 1)
           in case index_at EarthlyBranches (BranchIndex pillar) of
                Inl e \<Rightarrow> Inl e
              | Inr branch \<Rightarrow>
                  count_elements rest (map_add elements1 (branch_Element branch) (Fin (1 / 2)))))"

text \<open>
  \<open>CalculateElementBalance pillars order\<close>: \<open>order\<close> is the order in which the loop that
  computes \<^verbatim>\<open>total\<close> visits the keys. The last loop divides each entry by \<^verbatim>\<open>total\<close> on its
  own, whatever the order.
\<close>

definition CalculateElementBalance :: "Pillar list \<Rightarrow> string list \<Rightarrow> error + float_map" where
  "CalculateElementBalance pillars order =
     (case count_elements pillars elements_init of
        Inl e \<Rightarrow> Inl e
      | Inr elements \<Rightarrow>
          let total = fold (\<lambda>k t. f64_add t (map_get elements k)) order (Fin 0)
          in Inr (\<lambda>k. map_option (\<lambda>v. f64_div v total) (elements k)))"

fun yinyang_loop :: "Pillar list \<Rightarrow> float64 \<Rightarrow> float64 \<Rightarrow> error + float64 \<times> float64" where
  "yinyang_loop [] yangCount totalCount = Inr (yangCount, totalCount)"
| "yinyang_loop (pillar # rest) yangCount totalCount =
     (case index_at HeavenlyStems (StemIndex pillar) of
        Inl e \<Rightarrow> Inl e
      | Inr stem \<Rightarrow>
          (let yang1 = (if stem_YinYang stem = ''Yang'' then f64_add yangCount (Fin 1) else yangCount);
               total1 = f64_add totalCount (Fin 1)
           in case index_at EarthlyBranches (BranchIndex pillar) of
                Inl e \<Rightarrow> Inl e
              | Inr branch \<Rightarrow>
                  (let yang2 = (if branch_YinYang branch = ''Yang'' then f64_add yang1 (Fin (1 / 2))
                                else yang1);
                       total2 = f64_add total1 (Fin (1 / 2))
                   in yinyang_loop rest yang2 total2)))"

definition CalculateYinYangBalance :: "Pillar list \<Rightarrow> error + float64" where
  "CalculateYinYangBalance pillars =
     (case yinyang_loop pillars (Fin 0) (Fin 0) of
        Inl e \<Rightarrow> Inl e
      | Inr (yangCount, totalCount) \<Rightarrow> Inr (f64_div yangCount totalCount))"

definition GetDayMaster :: "Pillar \<Rightarrow> error + string" where
  "GetDayMaster dayPillar =
     (case index_at HeavenlyStems (StemIndex dayPillar) of
        Inl e \<Rightarrow> Inl e
      | Inr stem \<Rightarrow> Inr (stem_Name stem))"

text \<open>The generation cycle; a key that is not in the map reads as the empty string.\<close>

definition cycle :: "string \<Rightarrow> string" where
  "cycle element =
     (if element = ''Wood'' then ''Fire''
      else if element = ''Fire'' then ''Earth''
      else if element = ''Earth'' then ''Metal''
      else if element = ''Metal'' then ''Water''
      else if element = ''Water'' then ''Wood''
      else [])"

definition isGeneratingElement :: "string \<Rightarrow> string \<Rightarrow> bool" where
  "isGeneratingElement element1 element2 = (cycle element1 = element2)"

text \<open>The loop of \<^verbatim>\<open>GetDayMasterStrength\<close>; \<open>i\<close> is the index of the pillar at the head.\<close>

fun strength_loop :: "string \<Rightarrow> nat \<Rightarrow> Pillar list \<Rightarrow> float64 \<Rightarrow> error + float64" where
  "strength_loop dayElement i [] strength = Inr strength"
| "strength_loop dayElement i (pillar # rest) strength =
     (case index_at HeavenlyStems (StemIndex pillar) of
        Inl e \<Rightarrow> Inl e
      | Inr stem \<Rightarrow>
          (case index_at EarthlyBranches (BranchIndex pillar) of
             Inl e \<Rightarrow> Inl e
           | Inr branch \<Rightarrow>
               if i = 2 then strength_loop dayElement (i + 1) rest strength
               else
                 let s1 = (if stem_Element stem = dayElement
                           then f64_add strength (rnd (15 / 100)) else strength);
                     s2 = (if branch_Element branch = dayElement
                           then f64_add s1 (rnd (1 / 10)) else s1);
                     s3 = (if isGeneratingElement (stem_Element stem) dayElement
                           then f64_add s2 (rnd (1 / 10)) else s2);
                     s4 = (if isGeneratingElement (branch_Element branch) dayElement
                           then f64_add s3 (rnd (5 / 100)) else s3)
                 in strength_loop dayElement (i + 1) rest s4))"

definition GetDayMasterStrength :: "Pillar list \<Rightarrow> Pillar \<Rightarrow> error + float64" where
  "GetDayMasterStrength pillars dayPillar =
     (case index_at HeavenlyStems (StemIndex dayPillar) of
        Inl e \<Rightarrow> Inl e
      | Inr dayStem \<Rightarrow>
          (case strength_loop (stem_Element dayStem) 0 pillars (rnd (3 / 10)) of
             Inl e \<Rightarrow> Inl e
           | Inr strength \<Rightarrow> Inr (math_Min (math_Max strength (Fin 0)) (Fin 1))))"

record ChineseProfile =
  YearPillar :: string
  MonthPillar :: string
  DayPillar :: string
  HourPillar :: string
  YinYangBalance :: float64
  ElementBalance :: float_map
  DayMaster :: string
  DayMasterStrength :: float64

definition GetDayMasterType :: "ChineseProfile \<Rightarrow> string" where
  "GetDayMasterType cp =
     (if f64_lt (rnd (7 / 10)) (DayMasterStrength cp) then ''Strong''
      else if f64_lt (DayMasterStrength cp) (rnd (3 / 10)) then ''Weak''
      else ''Moderate'')"

text \<open>A pillar whose stem index is in 0-9 and branch index in 0-11.\<close>

definition valid_pillar :: "Pillar \<Rightarrow> bool" where
  "valid_pillar p \<longleftrightarrow>
     0 \<le> StemIndex p \<and> StemIndex p < 10 \<and> 0 \<le> BranchIndex p \<and> BranchIndex p < 12"

section \<open>Go's time package\<close>

text \<open>
  What \<^verbatim>\<open>ComputeChineseProfile\<close> and \<^verbatim>\<open>ComputeDayPillar\<close> use of package \<^verbatim>\<open>time\<close>, modelled
  from its documentation: \<^verbatim>\<open>time.Date\<close> accepts fields outside their usual ranges and
  normalizes them (October 32 is November 1), the proleptic Gregorian calendar, a location
  as its zone lookup, and \<^verbatim>\<open>Sub\<close>, \<^verbatim>\<open>Hours\<close> on durations.
\<close>

definition isLeap :: "int \<Rightarrow> bool" where
  "isLeap year \<longleftrightarrow> year mod 4 = 0 \<and> (year mod 100 \<noteq> 0 \<or> year mod 400 = 0)"

definition days_in_month :: "int \<Rightarrow> int \<Rightarrow> int" where
  "days_in_month year month =
     (if month = 2 then (if isLeap year then 29 else 28)
      else if month = 4 \<or> month = 6 \<or> month = 9 \<or> month = 11 then 30
      else 31)"

definition daysBefore :: "int list" where
  "daysBefore = [0, 31, 59, 90, 120, 151, 181, 212, 243, 273, 304, 334, 365]"

text \<open>Days from January 1 of year 1 to January 1 of \<open>year\<close>.\<close>

definition days_before_year :: "int \<Rightarrow> int" where
  "days_before_year year =
     365 * (year - 1) + (year - 1) div 4 - (year - 1) div 100 + (year - 1) div 400"

text \<open>\<^verbatim>\<open>norm(hi, lo, base)\<close>: carry the overflow of \<open>lo\<close> into \<open>hi\<close>, leaving \<open>0 \<le> lo < base\<close>.\<close>

definition norm_field :: "int \<Rightarrow> int \<Rightarrow> int \<Rightarrow> int \<times> int" where
  "norm_field hi lo base = (hi + lo div base, lo mod base)"

text \<open>
  Seconds since January 1, 1970 UTC of the given fields read as UTC. Only the month is
  normalized: the count is linear in the other fields.
\<close>

definition civil_seconds :: "int \<Rightarrow> int \<Rightarrow> int \<Rightarrow> int \<Rightarrow> int \<Rightarrow> int \<Rightarrow> int" where
  "civil_seconds year month day hour minute sec =
     (let (year1, m) = norm_field year (month - 1) 12;
          d = days_before_year year1 + daysBefore ! nat m
              + (if isLeap year1 \<and> 2 \<le> m then 1 else 0) + (day - 1) - 719162
      in d * 86400 + hour * 3600 + minute * 60 + sec)"

text \<open>
  \<open>roll year month day\<close>, for a month in 1-12: the date of the calendar that many days
  after day 0 of the month, found by moving month by month.
\<close>

function roll :: "int \<Rightarrow> int \<Rightarrow> int \<Rightarrow> int \<times> int \<times> int" where
  "roll year month day =
     (if day < 1 then
        (if month \<le> 1 then roll (year - 1) 12 (day + days_in_month (year - 1) 12)
         else roll year (month - 1) (day + days_in_month year (month - 1)))
      else if days_in_month year month < day then
        (if 12 \<le> month then roll (year + 1) 1 (day - days_in_month year month)
         else roll year (month + 1) (day - days_in_month year month))
      else (year, month, day))"
  by pat_completeness auto
termination
proof (relation "measure (\<lambda>(year, month, day). if day < 1 then nat (32 - day) else nat day)")
qed (auto simp: days_in_month_def)

declare roll.simps [simp del]

record civil =
  c_year :: int
  c_month :: int
  c_day :: int
  c_hour :: int
  c_minute :: int
  c_second :: int

definition normalize_date :: "int \<Rightarrow> int \<Rightarrow> int \<Rightarrow> int \<Rightarrow> int \<Rightarrow> int \<Rightarrow> civil" where
  "normalize_date year month day hour minute sec =
     (let (year1, m) = norm_field year (month - 1) 12;
          (minute1, sec1) = norm_field minute sec 60;
          (hour1, minute2) = norm_field hour minute1 60;
          (day1, hour2) = norm_field day hour1 24;
          (year2, month2, day2) = roll year1 (m + 1) day1
      in \<lparr> c_year = year2, c_month = month2, c_day = day2, c_hour = hour2,
           c_minute = minute2, c_second = sec1 \<rparr>)"

text \<open>
  A location answers, for an instant in seconds since 1970 UTC, the offset of its zone in
  force then and the bounds of the interval in which that zone is in force.
\<close>

type_synonym Location = "int \<Rightarrow> int \<times> int \<times> int"

definition UTC :: Location where
  "UTC = (\<lambda>sec. (0, - (2 ^ 63), 2 ^ 63 - 1))"

record Time =
  unix :: int
  location :: Location

text \<open>
  \<^verbatim>\<open>time.Date\<close> with zero nanoseconds: the fields are read as UTC, then the zone offset found
  for that instant is subtracted, looked up again when the result leaves the zone's
  interval.
\<close>

definition Date :: "int \<Rightarrow> int \<Rightarrow> int \<Rightarrow> int \<Rightarrow> int \<Rightarrow> int \<Rightarrow> Location \<Rightarrow> Time" where
  "Date year month day hour minute sec loc =
     (let u = civil_seconds year month day hour minute sec;
          (offset, start, end') = loc u;
          offset1 =
            (if offset \<noteq> 0 then
               (let utc = u - offset
                in if utc < start \<or> end' \<le> utc then fst (loc utc) else offset)
             else offset)
      in \<lparr> unix = u - offset1, location = loc \<rparr>)"

text \<open>The wall clock of a time in its location: \<^verbatim>\<open>Year\<close>, \<^verbatim>\<open>Month\<close>, \<^verbatim>\<open>Day\<close>, \<^verbatim>\<open>Hour\<close>.\<close>

definition wall_clock :: "Time \<Rightarrow> civil" where
  "wall_clock t = normalize_date 1970 1 1 0 0 (unix t + fst (location t (unix t)))"

text \<open>
  \<^verbatim>\<open>t.Sub(u)\<close> in nanoseconds, saturating at the bounds of \<^verbatim>\<open>int64\<close>, and \<^verbatim>\<open>d.Hours()\<close>.
\<close>

definition time_Sub :: "Time \<Rightarrow> Time \<Rightarrow> int" where
  "time_Sub t u = max (- (2 ^ 63)) (min (2 ^ 63 - 1) ((unix t - unix u) * 1000000000))"

definition f64_of_int :: "int \<Rightarrow> float64" where
  "f64_of_int n = rnd (of_int n)"

definition duration_Hours :: "int \<Rightarrow> float64" where
  "duration_Hours d =
     (let hour = go_quot d 3600000000000;
          nsec = go_rem d 3600000000000
      in f64_add (f64_of_int hour) (f64_div (f64_of_int nsec) (rnd (60 * 60 * 1000000000))))"

section \<open>Calendar engine: the day pillar and the profile\<close>

definition ComputeDayPillar :: "int \<Rightarrow> int \<Rightarrow> int \<Rightarrow> error + Pillar" where
  "ComputeDayPillar year month day =
     (let refDate = Date 1900 1 1 0 0 0 UTC;
          targetDate = Date year month day 0 0 0 UTC;
          daysSinceRef = f64_to_int (f64_div (duration_Hours (time_Sub targetDate refDate)) (Fin 24));
          stemIndex0 = go_rem daysSinceRef 10;
          stemIndex = (if stemIndex0 < 0 then stemIndex0 + 10 else stemIndex0);
          branchIndex0 = go_rem daysSinceRef 12;
          branchIndex = (if branchIndex0 < 0 then branchIndex0 + 12 else branchIndex0)
      in mkPillar stemIndex branchIndex)"

text \<open>\<open>None\<close> is the \<^verbatim>\<open>nil\<close> error.\<close>

definition validateBirthInfo :: "BirthInfo \<Rightarrow> error option" where
  "validateBirthInfo info =
     (if Year info < 1900 \<or> 2100 < Year info then
        Some (Error (''year must be between 1900 and 2100, got '' @ fmt_d (Year info)))
      else if Month info < 1 \<or> 12 < Month info then
        Some (Error (''month must be between 1 and 12, got '' @ fmt_d (Month info)))
      else if Day info < 1 \<or> 31 < Day info then
        Some (Error (''day must be between 1 and 31, got '' @ fmt_d (Day info)))
      else if Hour info < 0 \<or> 23 < Hour info then
        Some (Error (''hour must be between 0 and 23, got '' @ fmt_d (Hour info)))
      else if Minute info < 0 \<or> 59 < Minute info then
        Some (Error (''minute must be between 0 and 59, got '' @ fmt_d (Minute info)))
      else None)"

text \<open>
  \<open>ComputeChineseProfile LoadLocation order birthInfo\<close>: \<open>LoadLocation\<close> is
  \<^verbatim>\<open>time.LoadLocation\<close> over the time zone database of the host (\<open>None\<close> when it returns an
  error), \<open>order\<close> the order in which \<^verbatim>\<open>CalculateElementBalance\<close> ranges over its map.
\<close>

definition ComputeChineseProfile ::
    "(string \<Rightarrow> Location option) \<Rightarrow> string list \<Rightarrow> BirthInfo \<Rightarrow> error + ChineseProfile" where
  "ComputeChineseProfile LoadLocation order birthInfo =
     (case validateBirthInfo birthInfo of
        Some err \<Rightarrow> Inl err
      | None \<Rightarrow>
          let loc =
                (if Timezone birthInfo \<noteq> [] \<and> Timezone birthInfo \<noteq> ''UTC'' then
                   (case LoadLocation (Timezone birthInfo) of
                      Some parsedLoc \<Rightarrow> parsedLoc
                    | None \<Rightarrow> UTC)
                 else UTC);
              birthTime =
                Date (Year birthInfo) (Month birthInfo) (Day birthInfo) (Hour birthInfo)
                  (Minute birthInfo) 0 loc;
              year = c_year (wall_clock birthTime);
              month = c_month (wall_clock birthTime);
              day = c_day (wall_clock birthTime);
              hour = c_hour (wall_clock birthTime)
          in
            and_then (ComputeYearPillar year) (\<lambda>yearPillar.
            and_then (ComputeMonthPillar year month day) (\<lambda>monthPillar.
            and_then (ComputeDayPillar year month day) (\<lambda>dayPillar.
            and_then (ComputeHourPillar dayPillar hour) (\<lambda>hourPillar.
              let pillars = [yearPillar, monthPillar, dayPillar, hourPillar] in
              and_then (CalculateElementBalance pillars order) (\<lambda>elementBalance.
              and_then (CalculateYinYangBalance pillars) (\<lambda>yinYangBalance.
              and_then (GetDayMaster dayPillar) (\<lambda>dayMaster.
              and_then (GetDayMasterStrength pillars dayPillar) (\<lambda>dayMasterStrength.
                Inr \<lparr> YearPillar = PillarToString yearPillar,
                      MonthPillar = PillarToString monthPillar,
                      DayPillar = PillarToString dayPillar,
                      HourPillar = PillarToString hourPillar,
                      YinYangBalance = yinYangBalance,
                      ElementBalance = elementBalance,
                      DayMaster = dayMaster,
                      DayMasterStrength = dayMasterStrength \<rparr>)))))))))"

text \<open>The five components of a birth date are in the ranges the validation accepts.\<close>

definition birth_in_range :: "BirthInfo \<Rightarrow> bool" where
  "birth_in_range info \<longleftrightarrow>
     1900 \<le> Year info \<and> Year info \<le> 2100 \<and> 1 \<le> Month info \<and> Month info \<le> 12 \<and>
     1 \<le> Day info \<and> Day info \<le> 31 \<and> 0 \<le> Hour info \<and> Hour info \<le> 23 \<and>
     0 \<le> Minute info \<and> Minute info \<le> 59"

section \<open>Fusion engine: the element signature\<close>

record WesternProfile =
  WDominantElement :: string
  WModal :: ModalBalance
  WCognition :: CognitionProfile
  WInteraction :: InteractionPreferences

text \<open>
  \<open>buildElementSignature western chinese orderC orderS\<close>: \<open>orderC\<close> is the order in which
  the loop over \<^verbatim>\<open>chinese.ElementBalance\<close> visits its keys, \<open>orderS\<close> the order in which the
  loop that computes \<^verbatim>\<open>total\<close> visits the keys of the signature. The last loop divides each
  entry by \<^verbatim>\<open>total\<close> on its own.
\<close>

definition buildElementSignature ::
    "WesternProfile \<Rightarrow> ChineseProfile \<Rightarrow> string list \<Rightarrow> string list \<Rightarrow> float_map" where
  "buildElementSignature western chinese orderC orderS =
     (let westernWeight = rnd (4 / 10);
          signature0 = Map.empty;
          signature1 =
            (if WDominantElement western = ''Earth'' then map_add signature0 ''Earth'' westernWeight
             else if WDominantElement western = ''Air'' then
               map_add (map_add signature0 ''Wood'' (f64_mul westernWeight (Fin (1 / 2))))
                 ''Metal'' (f64_mul westernWeight (Fin (1 / 2)))
             else if WDominantElement western = ''Water'' then map_add signature0 ''Water'' westernWeight
             else if WDominantElement western = ''Fire'' then map_add signature0 ''Fire'' westernWeight
             else signature0);
          chineseWeight = rnd (6 / 10);
          signature2 =
            fold (\<lambda>element sig.
                    map_add sig element (f64_mul (map_get (ElementBalance chinese) element) chineseWeight))
              orderC signature1;
          total = fold (\<lambda>k t. f64_add t (map_get signature2 k)) orderS (Fin 0)
      in if f64_lt (Fin 0) total then (\<lambda>k. map_option (\<lambda>v. f64_div v total) (signature2 k))
         else signature2)"

text \<open>
  The sum of a list of doubles as a real number, when all are finite; and the property of an
  element map that its keys are the five elements and its values sum to 1 within 0.01.
\<close>

fun real_sum :: "float64 list \<Rightarrow> real option" where
  "real_sum [] = Some 0"
| "real_sum (Fin a # xs) = map_option (\<lambda>s. a + s) (real_sum xs)"
| "real_sum (x # xs) = None"

definition sums_to_one :: "float_map \<Rightarrow> bool" where
  "sums_to_one m \<longleftrightarrow>
     dom m = set five_elements \<and>
     (case real_sum (map (map_get m) five_elements) of
        None \<Rightarrow> False
      | Some s \<Rightarrow> \<bar>s - 1\<bar> \<le> 1 / 100)"

section \<open>Bytes, hexadecimal and JSON text\<close>

definition hex_digit :: "nat \<Rightarrow> char" where
  "hex_digit d = ''0123456789abcdef'' ! d"

text \<open>\<^verbatim>\<open>hex.EncodeToString\<close>: two lower-case digits for each byte.\<close>

definition hex_encode :: "string \<Rightarrow> string" where
  "hex_encode bs = concat (map (\<lambda>b. [hex_digit (of_char b div 16), hex_digit (of_char b mod 16)]) bs)"

text \<open>
  \<open>utf8_len bs\<close> is the number of bytes (1 to 4) of the UTF-8 encoding at the head of
  \<open>bs\<close>, and 0 when the head is not a valid encoding: then \<^verbatim>\<open>utf8.DecodeRuneInString\<close>
  returns \<^verbatim>\<open>RuneError\<close> with size 1. Overlong forms, surrogates and values above U+10FFFF
  are not valid.
\<close>

definition is_cont :: "char \<Rightarrow> bool" where
  "is_cont c \<longleftrightarrow> 128 \<le> (of_char c :: nat) \<and> (of_char c :: nat) \<le> 191"

definition in_range :: "char \<Rightarrow> nat \<Rightarrow> nat \<Rightarrow> bool" where
  "in_range c lo hi \<longleftrightarrow> lo \<le> of_char c \<and> (of_char c :: nat) \<le> hi"

fun utf8_len :: "string \<Rightarrow> nat" where
  "utf8_len [] = 0"
| "utf8_len (a # rest) =
     (if (of_char a :: nat) < 128 then 1
      else if in_range a 194 223 then
        (case rest of b # _ \<Rightarrow> if is_cont b then 2 else 0 | _ \<Rightarrow> 0)
      else if in_range a 224 239 then
        (case rest of
           b # c # _ \<Rightarrow>
             if in_range b (if (of_char a :: nat) = 224 then 160 else 128)
                  (if (of_char a :: nat) = 237 then 159 else 191) \<and> is_cont c
             then 3 else 0
         | _ \<Rightarrow> 0)
      else if in_range a 240 244 then
        (case rest of
           b # c # d # _ \<Rightarrow>
             if in_range b (if (of_char a :: nat) = 240 then 144 else 128)
                  (if (of_char a :: nat) = 244 then 143 else 191) \<and> is_cont c \<and> is_cont d
             then 4 else 0
         | _ \<Rightarrow> 0)
      else 0)"

text \<open>
  A string of \<^verbatim>\<open>encoding/json\<close> (Go 1.22, HTML escaping on, as \<^verbatim>\<open>json.Marshal\<close> has it):
  the quote and the backslash are escaped with a backslash, the control characters by
  their short form or a backslash, u and four hexadecimal digits, the characters less-than,
  greater-than and ampersand by that long form, U+2028 and U+2029 by the long form too, and
  a byte that does not start a valid UTF-8 encoding by the long form of U+FFFD.
\<close>

definition json_escape_ascii :: "char \<Rightarrow> string" where
  "json_escape_ascii c =
     (if c = CHR 0x5C then [CHR 0x5C, CHR 0x5C]
      else if c = CHR 0x22 then [CHR 0x5C, CHR 0x22]
      else if c = CHR 0x08 then [CHR 0x5C, CHR ''b'']
      else if c = CHR 0x0C then [CHR 0x5C, CHR ''f'']
      else if c = CHR 0x0A then [CHR 0x5C, CHR ''n'']
      else if c = CHR 0x0D then [CHR 0x5C, CHR ''r'']
      else if c = CHR 0x09 then [CHR 0x5C, CHR ''t'']
      else if (of_char c :: nat) < 32 \<or> c = CHR ''<'' \<or> c = CHR ''>'' \<or> c = CHR ''&'' then
        [CHR 0x5C, CHR ''u'', CHR ''0'', CHR ''0'', hex_digit (of_char c div 16),
         hex_digit (of_char c mod 16)]
      else [c])"

function json_string_body :: "string \<Rightarrow> string" where
  "json_string_body [] = []"
| "json_string_body (c # cs) =
     (if (of_char c :: nat) < 128 then json_escape_ascii c @ json_string_body cs
      else if utf8_len (c # cs) = 0 then
        [CHR 0x5C, CHR ''u'', CHR ''f'', CHR ''f'', CHR ''f'', CHR ''d''] @ json_string_body cs
      else if take 3 (c # cs) = [CHR 0xE2, CHR 0x80, CHR 0xA8] then
        [CHR 0x5C, CHR ''u'', CHR ''2'', CHR ''0'', CHR ''2'', CHR ''8''] @ json_string_body (drop 2 cs)
      else if take 3 (c # cs) = [CHR 0xE2, CHR 0x80, CHR 0xA9] then
        [CHR 0x5C, CHR ''u'', CHR ''2'', CHR ''0'', CHR ''2'', CHR ''9''] @ json_string_body (drop 2 cs)
      else take (utf8_len (c # cs)) (c # cs) @ json_string_body (drop (utf8_len (c # cs) - 1) cs))"
  by pat_completeness auto
termination
  by (relation "measure length") auto

declare json_string_body.simps [simp del]

definition json_string :: "string \<Rightarrow> string" where
  "json_string s = [CHR 0x22] @ json_string_body s @ [CHR 0x22]"

text \<open>A member of a JSON object: the key, quoted as it is written in the struct tag, a colon, the value.\<close>

definition json_member :: "string \<Rightarrow> string \<Rightarrow> string" where
  "json_member key val = [CHR 0x22] @ key @ [CHR 0x22] @ '':'' @ val"

text \<open>\<^verbatim>\<open>json.Marshal\<close> of a \<^verbatim>\<open>NormalizedProfile\<close>: the fields in the order of the declaration.\<close>

definition json_NormalizedProfile :: "NormalizedProfile \<Rightarrow> string" where
  "json_NormalizedProfile n =
     ''{'' @ json_member ''element'' (json_string (Element n))
     @ '','' @ json_member ''modal''
         (''{'' @ json_member ''c'' (fmt_d (nm_C (NModal n)))
          @ '','' @ json_member ''f'' (fmt_d (nm_F (NModal n)))
          @ '','' @ json_member ''m'' (fmt_d (nm_M (NModal n))) @ ''}'')
     @ '','' @ json_member ''cog''
         (''{'' @ json_member ''F'' (fmt_d (nc_F (Cog n)))
          @ '','' @ json_member ''C'' (fmt_d (nc_C (Cog n)))
          @ '','' @ json_member ''V'' (fmt_d (nc_V (Cog n)))
          @ '','' @ json_member ''S'' (fmt_d (nc_S (Cog n)))
          @ '','' @ json_member ''Cr'' (fmt_d (nc_Cr (Cog n))) @ ''}'')
     @ '','' @ json_member ''int''
         (''{'' @ json_member ''PB'' (json_string (PB (NInt n)))
          @ '','' @ json_member ''SM'' (json_string (SM (NInt n)))
          @ '','' @ json_member ''TN'' (json_string (TN (NInt n))) @ ''}'')
     @ ''}''"

text \<open>A pointer to a profile: \<open>None\<close> is \<^verbatim>\<open>nil\<close>, marshalled as \<^verbatim>\<open>null\<close>.\<close>

definition json_NormalizedProfile_ptr :: "NormalizedProfile option \<Rightarrow> string" where
  "json_NormalizedProfile_ptr p = (case p of None \<Rightarrow> ''null'' | Some n \<Rightarrow> json_NormalizedProfile n)"

section \<open>Base64, URL alphabet, no padding\<close>

definition b64_char :: "nat \<Rightarrow> char" where
  "b64_char i = ''ABCDEFGHIJKLMNOPQRSTUVWXYZabcdefghijklmnopqrstuvwxyz0123456789-_'' ! i"

fun b64_encode :: "string \<Rightarrow> string" where
  "b64_encode [] = []"
| "b64_encode [a] =
     [b64_char (of_char a div 4), b64_char (of_char a mod 4 * 16)]"
| "b64_encode [a, b] =
     [b64_char (of_char a div 4), b64_char (of_char a mod 4 * 16 + of_char b div 16),
      b64_char (of_char b mod 16 * 4)]"
| "b64_encode (a # b # c # rest) =
     [b64_char (of_char a div 4), b64_char (of_char a mod 4 * 16 + of_char b div 16),
      b64_char (of_char b mod 16 * 4 + of_char c div 64), b64_char (of_char c mod 64)]
     @ b64_encode rest"

section \<open>Hash and signature engine\<close>

text \<open>
  SHA-256, SHA3-256 and BLAKE3 come from libraries outside the repository. They are taken
  as parameters: three functions from byte strings to 256-bit digests, of which nothing is
  assumed. \<open>digest_bytes\<close> is the digest as its 32 bytes.
\<close>

type_synonym digest = "256 word"

record hashes =
  sha256 :: "string \<Rightarrow> digest"
  sha3_256 :: "string \<Rightarrow> digest"
  blake3 :: "string \<Rightarrow> digest"

definition digest_bytes :: "digest \<Rightarrow> string" where
  "digest_bytes w = map (\<lambda>i. char_of (unat (drop_bit (8 * (31 - i)) w))) [0..<32]"

definition xor_byte :: "nat \<Rightarrow> char \<Rightarrow> char" where
  "xor_byte k c = char_of ((of_char c :: nat) XOR k)"

text \<open>
  \<^verbatim>\<open>hmac.New(sha3.New256, key)\<close> followed by \<^verbatim>\<open>Write(msg)\<close> and \<^verbatim>\<open>Sum(nil)\<close>, as package
  \<^verbatim>\<open>crypto/hmac\<close> computes it: a key longer than the block of the hash (136 bytes for SHA3-256)
  is hashed first, the key is padded with zero bytes to the block size, and the digest is
  H(opad, H(ipad, msg)).
\<close>

definition hmac_key_block :: "hashes \<Rightarrow> string \<Rightarrow> string" where
  "hmac_key_block H key =
     (let blocksize = 136;
          key1 = (if blocksize < length key then digest_bytes (sha3_256 H key) else key)
      in key1 @ replicate (blocksize - length key1) (CHR 0x00))"

definition hmac_sha3_256 :: "hashes \<Rightarrow> string \<Rightarrow> string \<Rightarrow> string" where
  "hmac_sha3_256 H key msg =
     (let ipad = map (xor_byte 0x36) (hmac_key_block H key);
          opad = map (xor_byte 0x5c) (hmac_key_block H key)
      in digest_bytes (sha3_256 H (opad @ digest_bytes (sha3_256 H (ipad @ msg)))))"

definition ComputeQuantumSignatures ::
    "hashes \<Rightarrow> string \<Rightarrow> string \<Rightarrow> string \<Rightarrow> error + string \<times> string" where
  "ComputeQuantumSignatures H canonical secret salt =
     (if length secret = 0 then Inl (Error ''secret key must not be empty'')
      else
        let derivedKey = hmac_sha3_256 H secret salt;
            qsig = hmac_sha3_256 H derivedKey canonical;
            qsigHex = hex_encode qsig;
            b3sum = digest_bytes (blake3 H (derivedKey @ canonical));
            b3Hex = hex_encode b3sum
        in Inr (qsigHex, b3Hex))"

definition GenerateCHIP :: "hashes \<Rightarrow> string \<Rightarrow> NormalizedProfile option \<Rightarrow> error + string" where
  "GenerateCHIP H salt normalized =
     (let canonicalJSON = json_NormalizedProfile_ptr normalized;
          data = salt @ canonicalJSON;
          hexHash = hex_encode (digest_bytes (sha256 H data))
      in Inr (take 12 hexHash))"

section \<open>The signed codec (U7) and the stub codec (U4)\<close>

definition FormatHCSU7 :: "NormalizedProfile option \<Rightarrow> string \<Rightarrow> string \<Rightarrow> error + string" where
  "FormatHCSU7 profile qsigHex b3Hex =
     (case profile of
        None \<Rightarrow> Inl (Error ''normalized profile cannot be nil'')
      | Some p \<Rightarrow>
          if length qsigHex = 0 \<or> length b3Hex = 0 then Inl (Error ''signatures must not be empty'')
          else
            let elemSegment = ''E:'' @ Element p;
                modalSegment =
                  ''MOD:c'' @ fmt_02d (nm_C (NModal p)) @ ''f'' @ fmt_02d (nm_F (NModal p))
                  @ ''m'' @ fmt_02d (nm_M (NModal p));
                cogSegment =
                  ''COG:F'' @ fmt_02d (nc_F (Cog p)) @ ''C'' @ fmt_02d (nc_C (Cog p))
                  @ ''V'' @ fmt_02d (nc_V (Cog p)) @ ''S'' @ fmt_02d (nc_S (Cog p))
                  @ ''Cr'' @ fmt_02d (nc_Cr (Cog p));
                intSegment =
                  ''INT:PB='' @ PB (NInt p) @ '',SM='' @ SM (NInt p) @ '',TN='' @ TN (NInt p);
                qsigInline = (if 24 < length qsigHex then take 24 qsigHex else qsigHex);
                b3Inline = (if 32 < length b3Hex then take 32 b3Hex else b3Hex)
            in Inr (''HCS-U7|V:7.0|ALG:QS|'' @ elemSegment @ ''|'' @ modalSegment @ ''|''
                    @ cogSegment @ ''|'' @ intSegment @ ''|QSIG:'' @ qsigInline
                    @ ''|B3:'' @ b3Inline))"

text \<open>
  \<^verbatim>\<open>json.Marshal\<close> writes the keys of a map in sorted order: \<^verbatim>\<open>chip\<close> before \<^verbatim>\<open>profile\<close>.
\<close>

definition u4_json :: "NormalizedProfile option \<Rightarrow> string \<Rightarrow> string" where
  "u4_json normalized chip =
     ''{'' @ json_member ''chip'' (json_string chip)
     @ '','' @ json_member ''profile'' (json_NormalizedProfile_ptr normalized) @ ''}''"

definition EncodeU4 :: "NormalizedProfile option \<Rightarrow> string \<Rightarrow> error + string" where
  "EncodeU4 normalized chip =
     (let jsonData = u4_json normalized chip;
          encoded = b64_encode jsonData
      in Inr (''HCS-U4|'' @ encoded))"

section \<open>The secret key\<close>

definition hex_value :: "char \<Rightarrow> nat option" where
  "hex_value c =
     (if in_range c 48 57 then Some (of_char c - 48)
      else if in_range c 97 102 then Some (of_char c - 87)
      else if in_range c 65 70 then Some (of_char c - 55)
      else None)"

text \<open>\<^verbatim>\<open>hex.DecodeString\<close>; \<open>None\<close> when it returns an error.\<close>

fun hex_decode :: "string \<Rightarrow> string option" where
  "hex_decode [] = Some []"
| "hex_decode [a] = None"
| "hex_decode (a # b # rest) =
     (case (hex_value a, hex_value b, hex_decode rest) of
        (Some x, Some y, Some bs) \<Rightarrow> Some (char_of (x * 16 + y) # bs)
      | _ \<Rightarrow> None)"

text \<open>
  \<open>LoadSecretKey v\<close>, for the value \<open>v\<close> of the environment variable \<^verbatim>\<open>HCS_SECRET_KEY\<close> at
  the first call in the process (empty when the variable is not set): \<^verbatim>\<open>sync.Once\<close> keeps
  the result of that call for every later one. The message of the hex package, which Go
  appends to the second error, is left out.
\<close>

definition LoadSecretKey :: "string \<Rightarrow> error + string" where
  "LoadSecretKey v =
     (if v = [] then Inl (Error ''HCS_SECRET_KEY is not set'')
      else
        case hex_decode v of
          None \<Rightarrow> Inl (Error ''invalid HCS_SECRET_KEY hex encoding: '')
        | Some decoded \<Rightarrow>
            if length decoded \<noteq> 32 \<and> length decoded \<noteq> 64 then
              Inl (Error (''HCS_SECRET_KEY must be 32 or 64 bytes, got ''
                          @ fmt_d (int (length decoded)) @ '' bytes''))
            else Inr decoded)"

section \<open>The generator\<close>

record CognitiveFusion =
  Analytical :: float64
  FCreative :: float64
  Grounded :: float64
  Adaptive :: float64
  Expressive :: float64

record TempoSignals =
  TPace :: float64
  Variability :: float64
  Intensity :: float64
  Rhythm :: string

record FusionProfile =
  ElementSignature :: float_map
  FCognitiveFusion :: CognitiveFusion
  FTempoSignals :: TempoSignals
  UnifiedBalance :: float64
  HarmonicResonance :: float64
  FusionID :: string

record CombinedProfile =
  Western :: WesternProfile
  Chinese :: ChineseProfile
  Fusion :: FusionProfile

text \<open>
  The output. The declaration of \<^verbatim>\<open>OutputHCS\<close> in the sources has no fields for the U7 code
  and the two signatures, which \<^verbatim>\<open>GenerateWithOptions\<close> assigns and the tests read: they are
  taken from those uses. The two profiles are pointers.
\<close>

record OutputHCS =
  Input :: InputProfile
  CodeU3 :: string
  CodeU4 :: string
  CodeU5 :: string
  CodeU7 :: string
  QSig :: string
  B3Sig :: string
  Chip :: string
  OutChineseProfile :: "ChineseProfile option"
  OutCombinedProfile :: "CombinedProfile option"

record Generator =
  g_salt :: string

record GeneratorOptions =
  U3Only :: bool
  U4Only :: bool

text \<open>
  What a generation call takes from outside the functions modelled here: the hash
  functions, the time zone database (\<^verbatim>\<open>time.LoadLocation\<close>), the order in which the element
  map is ranged over, the value of \<^verbatim>\<open>HCS_SECRET_KEY\<close>, and three functions of the branch for
  a profile with birth information that are not modelled: \<^verbatim>\<open>BuildFusionProfile\<close> (the fusion
  engine beyond the element signature), \<^verbatim>\<open>EncodeU5\<close>, and the canonical members of a
  combined profile. The field of the generator is its salt.
\<close>

record collaborators =
  hash_functions :: hashes
  tz_database :: "string \<Rightarrow> Location option"
  range_order :: "string list"
  secret_key_env :: string
  build_fusion :: "WesternProfile \<Rightarrow> ChineseProfile \<Rightarrow> FusionProfile"
  encode_u5 :: "WesternProfile \<Rightarrow> ChineseProfile \<Rightarrow> FusionProfile \<Rightarrow> string \<Rightarrow> error + string"
  canonical_members :: "CombinedProfile \<Rightarrow> error + string"

text \<open>\<^verbatim>\<open>fmt.Errorf("prefix: %w", err)\<close>.\<close>

fun wrap_error :: "string \<Rightarrow> error \<Rightarrow> error" where
  "wrap_error prefix (Error msg) = Error (prefix @ msg)"
| "wrap_error prefix (Panic msg) = Panic msg"

definition wrapped :: "string \<Rightarrow> error + 'a \<Rightarrow> error + 'a" where
  "wrapped prefix r = (case r of Inl e \<Rightarrow> Inl (wrap_error prefix e) | Inr x \<Rightarrow> Inr x)"

text \<open>The verb \<^verbatim>\<open>%f\<close>: six digits after the point, the exact value rounded to nearest.\<close>

definition pad6 :: "string \<Rightarrow> string" where
  "pad6 ds = replicate (6 - length ds) (CHR ''0'') @ ds"

fun fmt_f :: "float64 \<Rightarrow> string" where
  "fmt_f (Fin r) =
     (let n = round_half_even (\<bar>r\<bar> * 1000000)
      in (if r < 0 then ''-'' else []) @ dec_digits (nat (n div 1000000)) @ ''.''
         @ pad6 (dec_digits (nat (n mod 1000000))))"
| "fmt_f PInf = ''+Inf''"
| "fmt_f NInf = ''-Inf''"
| "fmt_f NaN = ''NaN''"

definition validateRange :: "string \<Rightarrow> float64 \<Rightarrow> error option" where
  "validateRange field value0 =
     (if f64_lt value0 (Fin 0) \<or> f64_lt (Fin 1) value0 then
        Some (Error (field @ '' must be between 0 and 1, got '' @ fmt_f value0))
      else None)"

text \<open>The first error of a sequence of checks, \<open>None\<close> when all pass.\<close>

fun first_error :: "error option list \<Rightarrow> error option" where
  "first_error [] = None"
| "first_error (None # rest) = first_error rest"
| "first_error (Some e # rest) = Some e"

text \<open>
  \<open>validateInput\<close> writes through its pointer: it returns the error (\<open>None\<close> for \<^verbatim>\<open>nil\<close>)
  and the profile as the call leaves it.
\<close>

definition apply_defaults :: "InteractionPreferences \<Rightarrow> InteractionPreferences" where
  "apply_defaults i =
     \<lparr> Pace = (if Pace i = [] then ''balanced'' else Pace i),
       Structure = (if Structure i = [] then ''medium'' else Structure i),
       Tone = (if Tone i = [] then ''neutral'' else Tone i) \<rparr>"

definition validateInput :: "InputProfile \<Rightarrow> error option \<times> InputProfile" where
  "validateInput inp =
     (if DominantElement inp \<notin> {''Earth'', ''Air'', ''Water'', ''Fire''} then
        (Some (Error (''invalid dominant element: '' @ DominantElement inp)), inp)
      else
        case first_error
               [validateRange ''modal.cardinal'' (Cardinal (Modal inp)),
                validateRange ''modal.fixed'' (Fixed (Modal inp)),
                validateRange ''modal.mutable'' (Mutable (Modal inp)),
                validateRange ''cognition.fluid'' (Fluid (Cognition inp)),
                validateRange ''cognition.crystallized'' (Crystallized (Cognition inp)),
                validateRange ''cognition.verbal'' (Verbal (Cognition inp)),
                validateRange ''cognition.strategic'' (Strategic (Cognition inp)),
                validateRange ''cognition.creative'' (Creative (Cognition inp))] of
          Some err \<Rightarrow> (Some err, inp)
        | None \<Rightarrow>
            let inp1 = inp\<lparr>Interaction := apply_defaults (Interaction inp)\<rparr>
            in if Pace (Interaction inp1) \<notin> {''balanced'', ''fast'', ''slow''} then
                 (Some (Error (''invalid pace: '' @ Pace (Interaction inp1))), inp1)
               else if Structure (Interaction inp1) \<notin> {''low'', ''medium'', ''high''} then
                 (Some (Error (''invalid structure: '' @ Structure (Interaction inp1))), inp1)
               else if Tone (Interaction inp1) \<notin> {''warm'', ''neutral'', ''sharp'', ''precise''} then
                 (Some (Error (''invalid tone: '' @ Tone (Interaction inp1))), inp1)
               else
                 case BirthInfoPtr inp1 of
                   None \<Rightarrow> (None, inp1)
                 | Some birthInfo \<Rightarrow>
                     (case validateBirthInfo birthInfo of
                        None \<Rightarrow> (None, inp1)
                      | Some err \<Rightarrow> (Some (wrap_error ''invalid birth info: '' err), inp1)))"

text \<open>
  \<^verbatim>\<open>CanonicalProfileData\<close>: without a combined profile the JSON object has the one member
  \<^verbatim>\<open>normalized\<close>; the members of a combined profile come from \<open>canonical_members\<close>.
\<close>

definition CanonicalProfileData ::
    "collaborators \<Rightarrow> NormalizedProfile option \<Rightarrow> CombinedProfile option \<Rightarrow> error + string" where
  "CanonicalProfileData W normalized combined =
     (case combined of
        None \<Rightarrow> Inr (''{'' @ json_member ''normalized'' (json_NormalizedProfile_ptr normalized) @ ''}'')
      | Some c \<Rightarrow>
          and_then (wrapped ''failed to marshal canonical profile: '' (canonical_members W c))
            (\<lambda>members.
               Inr (''{'' @ json_member ''normalized'' (json_NormalizedProfile_ptr normalized)
                    @ '','' @ members @ ''}'')))"

text \<open>
  The three stages of \<^verbatim>\<open>GenerateWithOptions\<close> after the CHIP: the U3 and U4 codes, the
  Chinese profile with the U5 code, the signatures with the U7 code. An error of the second
  stage is a warning on standard output, which is not modelled; a panic ends the call.
\<close>

definition stage_codes ::
    "GeneratorOptions \<Rightarrow> InputProfile \<Rightarrow> NormalizedProfile \<Rightarrow> OutputHCS \<Rightarrow> error + OutputHCS" where
  "stage_codes opts inp normalized output =
     (let output1 = (if \<not> U4Only opts then output\<lparr>CodeU3 := EncodeU3 inp (Chip output)\<rparr> else output)
      in if \<not> U3Only opts then
           and_then (wrapped ''failed to generate U4 code: '' (EncodeU4 (Some normalized) (Chip output)))
             (\<lambda>u4Code. Inr (output1\<lparr>CodeU4 := u4Code\<rparr>))
         else Inr output1)"

definition stage_chinese ::
    "collaborators \<Rightarrow> Generator \<Rightarrow> InputProfile \<Rightarrow> OutputHCS \<Rightarrow> error + OutputHCS" where
  "stage_chinese W g inp output =
     (case BirthInfoPtr inp of
        None \<Rightarrow> Inr output
      | Some birthInfo \<Rightarrow>
          (case ComputeChineseProfile (tz_database W) (range_order W) birthInfo of
             Inl (Error msg) \<Rightarrow> Inr output
           | Inl (Panic msg) \<Rightarrow> Inl (Panic msg)
           | Inr chineseProfile \<Rightarrow>
               let westernProfile =
                     \<lparr> WDominantElement = DominantElement inp, WModal = Modal inp,
                       WCognition = Cognition inp, WInteraction = Interaction inp \<rparr>;
                   fusionProfile = build_fusion W westernProfile chineseProfile;
                   output1 = output
                     \<lparr> OutChineseProfile := Some chineseProfile,
                       OutCombinedProfile :=
                         Some \<lparr> Western = westernProfile, Chinese = chineseProfile,
                                Fusion = fusionProfile \<rparr> \<rparr>
               in case encode_u5 W westernProfile chineseProfile fusionProfile (g_salt g) of
                    Inl (Error msg) \<Rightarrow> Inr output1
                  | Inl (Panic msg) \<Rightarrow> Inl (Panic msg)
                  | Inr u5Code \<Rightarrow> Inr (output1\<lparr>CodeU5 := u5Code\<rparr>)))"

definition stage_signed ::
    "collaborators \<Rightarrow> Generator \<Rightarrow> NormalizedProfile \<Rightarrow> OutputHCS \<Rightarrow> error + OutputHCS" where
  "stage_signed W g normalized output =
     and_then (wrapped ''failed to build canonical profile: ''
                 (CanonicalProfileData W (Some normalized) (OutCombinedProfile output)))
       (\<lambda>canonical.
     and_then (wrapped ''failed to load secret key: '' (LoadSecretKey (secret_key_env W)))
       (\<lambda>secret.
     and_then (wrapped ''failed to compute quantum signatures: ''
                 (ComputeQuantumSignatures (hash_functions W) canonical secret (g_salt g)))
       (\<lambda>(qsigHex, b3Hex).
     and_then (wrapped ''failed to format HCS-U7 code: '' (FormatHCSU7 (Some normalized) qsigHex b3Hex))
       (\<lambda>u7. Inr (output\<lparr>CodeU7 := u7, QSig := qsigHex, B3Sig := b3Hex\<rparr>)))))"

text \<open>
  \<open>GenerateWithOptions W g inp opts\<close> returns the result and the caller's profile as the
  call leaves it; \<open>inp\<close> and \<open>opts\<close> are pointers.
\<close>

definition GenerateWithOptions ::
    "collaborators \<Rightarrow> Generator \<Rightarrow> InputProfile option \<Rightarrow> GeneratorOptions option
     \<Rightarrow> (error + OutputHCS) \<times> InputProfile option" where
  "GenerateWithOptions W g inp opts =
     (case inp of
        None \<Rightarrow> (Inl (Error ''input profile cannot be nil''), None)
      | Some in0 \<Rightarrow>
          (case validateInput in0 of
             (Some err, in1) \<Rightarrow> (Inl (wrap_error ''invalid input profile: '' err), Some in1)
           | (None, in1) \<Rightarrow>
               let opts1 = (case opts of None \<Rightarrow> \<lparr> U3Only = False, U4Only = False \<rparr> | Some given \<Rightarrow> given);
                   normalized = NormalizeProfile in1
               in (and_then (wrapped ''failed to generate CHIP: ''
                               (GenerateCHIP (hash_functions W) (g_salt g) (Some normalized)))
                     (\<lambda>chip.
                   and_then (stage_codes opts1 in1 normalized
                               \<lparr> Input = in1, CodeU3 = [], CodeU4 = [], CodeU5 = [], CodeU7 = [],
                                 QSig = [], B3Sig = [], Chip = chip, OutChineseProfile = None,
                                 OutCombinedProfile = None \<rparr>)
                     (\<lambda>output1.
                   and_then (stage_chinese W g in1 output1)
                     (\<lambda>output2. stage_signed W g normalized output2))),
                   Some in1)))"

definition Generate ::
    "collaborators \<Rightarrow> Generator \<Rightarrow> InputProfile option \<Rightarrow> (error + OutputHCS) \<times> InputProfile option" where
  "Generate W g inp = GenerateWithOptions W g inp None"

section \<open>Auxiliary notions of the proofs\<close>

text \<open>
  The elements of a pillar, the number of half units a list of pillars gives an element
  (2 for a stem, 1 for a branch), the map of exact counts, a map whose values are within
  \<open>d\<close> of given reals, and the real share the Western element gives each element.
\<close>

definition stemEl :: "Pillar \<Rightarrow> string" where
  "stemEl p = stem_Element (HeavenlyStems ! nat (StemIndex p))"

definition branchEl :: "Pillar \<Rightarrow> string" where
  "branchEl p = branch_Element (EarthlyBranches ! nat (BranchIndex p))"

fun half_count :: "Pillar list \<Rightarrow> string \<Rightarrow> nat" where
  "half_count [] e = 0"
| "half_count (p # ps) e =
     (if stemEl p = e then 2 else 0) + (if branchEl p = e then 1 else 0) + half_count ps e"

definition counts_map :: "(string \<Rightarrow> nat) \<Rightarrow> float_map" where
  "counts_map n = (\<lambda>e. if e \<in> set five_elements then Some (Fin (real (n e) / 2)) else None)"

definition approx_map :: "float_map \<Rightarrow> (string \<Rightarrow> real) \<Rightarrow> real \<Rightarrow> bool" where
  "approx_map m x d \<longleftrightarrow>
     dom m = set five_elements \<and>
     list_all (\<lambda>e. case m e of Some (Fin v) \<Rightarrow> \<bar>v - x e\<bar> \<le> d | _ \<Rightarrow> False) five_elements"

definition western_share :: "string \<Rightarrow> string \<Rightarrow> real" where
  "western_share W e =
     (if W = ''Earth'' then (if e = ''Earth'' then 4 / 10 else 0)
      else if W = ''Air'' then (if e = ''Wood'' \<or> e = ''Metal'' then 2 / 10 else 0)
      else if W = ''Water'' then (if e = ''Water'' then 4 / 10 else 0)
      else if W = ''Fire'' then (if e = ''Fire'' then 4 / 10 else 0)
      else 0)"

definition western_signature :: "string \<Rightarrow> float_map" where
  "western_signature W =
     (if W = ''Earth'' then map_add Map.empty ''Earth'' (rnd (4 / 10))
      else if W = ''Air'' then
        map_add (map_add Map.empty ''Wood'' (f64_mul (rnd (4 / 10)) (Fin (1 / 2))))
          ''Metal'' (f64_mul (rnd (4 / 10)) (Fin (1 / 2)))
      else if W = ''Water'' then map_add Map.empty ''Water'' (rnd (4 / 10))
      else if W = ''Fire'' then map_add Map.empty ''Fire'' (rnd (4 / 10))
      else Map.empty)"

text \<open>
  \<open>reaches_defaults inp\<close>: \<open>validateInput\<close> gets as far as its assignment of the default
  preferences, that is, the dominant element and the eight ratios pass.
\<close>

definition reaches_defaults :: "InputProfile \<Rightarrow> bool" where
  "reaches_defaults inp \<longleftrightarrow>
     DominantElement inp \<in> {''Earth'', ''Air'', ''Water'', ''Fire''} \<and>
     first_error
       [validateRange ''modal.cardinal'' (Cardinal (Modal inp)),
        validateRange ''modal.fixed'' (Fixed (Modal inp)),
        validateRange ''modal.mutable'' (Mutable (Modal inp)),
        validateRange ''cognition.fluid'' (Fluid (Cognition inp)),
        validateRange ''cognition.crystallized'' (Crystallized (Cognition inp)),
        validateRange ''cognition.verbal'' (Verbal (Cognition inp)),
        validateRange ''cognition.strategic'' (Strategic (Cognition inp)),
        validateRange ''cognition.creative'' (Creative (Cognition inp))] = None"

text \<open>
  \<open>hmac_outer_input H key msg\<close> is what the outer hash of HMAC is applied to, so that
  \<open>hmac_sha3_256 H key msg\<close> is the digest of it. Two inputs collide under \<open>f\<close> when they are
  different and \<open>f\<close> gives them the same value.
\<close>

definition hmac_outer_input :: "hashes \<Rightarrow> string \<Rightarrow> string \<Rightarrow> string" where
  "hmac_outer_input H key msg =
     map (xor_byte 0x5c) (hmac_key_block H key)
     @ digest_bytes (sha3_256 H (map (xor_byte 0x36) (hmac_key_block H key) @ msg))"

definition collide :: "(string \<Rightarrow> 'a) \<Rightarrow> string \<Rightarrow> string \<Rightarrow> bool" where
  "collide f x y \<longleftrightarrow> x \<noteq> y \<and> f x = f y"

text \<open>
  An example for the hash parameters, not a hash: the first byte of the input as the first
  byte of the digest, followed by zero bytes.
\<close>

definition first_byte_hash :: "string \<Rightarrow> digest" where
  "first_byte_hash x = (case x of [] \<Rightarrow> 0 | a # rest \<Rightarrow> push_bit 248 (word_of_nat (of_char a)))"

chapter \<open>Properties\<close>

section \<open>Evaluating doubles\<close>

lemma bitlen_numeral: "bitlen (numeral n) = bitlen (numeral n div 2) + 1"
  by (subst compute_bitlen) simp

lemma bitlen_one: "bitlen 1 = 1"
  by (subst compute_bitlen) simp

lemmas f64_eval =
  rnd_def ilog2_def round_half_even_def Let_def bitlen_numeral bitlen_one

text \<open>
  The error of one rounding: a real of magnitude below 8 rounds to a finite double at most
  \<open>1 / 2 ^ 51\<close> away.
\<close>

lemma round_half_even_err: "\<bar>real_of_int (round_half_even q) - q\<bar> \<le> 1 / 2"
  unfolding round_half_even_def Let_def
  by (auto; linarith)

lemma ilog2_lt8: assumes "0 < a" "a < 8" shows "ilog2 a \<le> 2"
proof (cases "1 \<le> a")
  case True
  have "\<lfloor>a\<rfloor> < 8" using assms by linarith
  then have "bitlen \<lfloor>a\<rfloor> \<le> 3"
    by (simp add: bitlen_le_iff_power)
  then show ?thesis using True by (simp add: ilog2_def)
next
  case False
  then show ?thesis using bitlen_nonneg [of "\<lceil>1 / a\<rceil> - 1"] by (simp add: ilog2_def)
qed

lemma rnd_abs_error:
  assumes "\<bar>r\<bar> < 8"
  shows "\<exists>v. rnd r = Fin v \<and> \<bar>v - r\<bar> \<le> 1 / 2 ^ 51"
proof (cases "r = 0")
  case True
  then show ?thesis by (simp add: rnd_def)
next
  case False
  define e where "e = max (ilog2 \<bar>r\<bar>) (- 1022) - 52"
  define m where "m = round_half_even (r / 2 powi e)"
  have e_le: "e \<le> - 50"
    using ilog2_lt8 [of "\<bar>r\<bar>"] False assms by (simp add: e_def)
  have p_pos: "0 < (2::real) powi e" by simp
  have p_le: "(2::real) powi e \<le> 2 powi (- 50)"
    using e_le by (intro power_int_increasing) auto
  have err: "\<bar>real_of_int m - r / 2 powi e\<bar> \<le> 1 / 2"
    unfolding m_def by (rule round_half_even_err)
  have "real_of_int m * 2 powi e - r = (real_of_int m - r / 2 powi e) * 2 powi e"
    using p_pos by (simp add: left_diff_distrib)
  then have "\<bar>real_of_int m * 2 powi e - r\<bar> = \<bar>real_of_int m - r / 2 powi e\<bar> * \<bar>2 powi e\<bar>"
    by (simp only: abs_mult)
  also have "\<dots> = \<bar>real_of_int m - r / 2 powi e\<bar> * 2 powi e"
    by simp
  also have "\<dots> \<le> (1 / 2) * 2 powi (- 50)"
    using err p_le p_pos by (intro mult_mono) auto
  also have "\<dots> = 1 / 2 ^ 51"
    by (simp add: power_int_minus)
  finally have bound: "\<bar>real_of_int m * 2 powi e - r\<bar> \<le> 1 / 2 ^ 51" .
  have "(1::real) / 2 ^ 51 \<le> 1" by simp
  with bound assms have "\<bar>real_of_int m * 2 powi e\<bar> < 9"
    by linarith
  then have "\<bar>real_of_int m\<bar> * 2 powi e < 9"
    using p_pos by (simp add: abs_mult)
  then have "real_of_int \<bar>m\<bar> < 9 * 2 powi (- e)"
    using p_pos by (simp add: power_int_minus field_simps)
  also have "\<dots> \<le> 2 ^ 4 * 2 ^ nat (- e)"
    using e_le by (simp add: power_int_def)
  also have "\<dots> = real_of_int (2 ^ nat (4 - e))"
  proof -
    have "nat (4 - e) = 4 + nat (- e)" using e_le by linarith
    then show ?thesis by (simp add: power_add)
  qed
  finally have "\<bar>m\<bar> < 2 ^ nat (4 - e)"
    by linarith
  then have "bitlen \<bar>m\<bar> \<le> 4 - e"
    using e_le by (simp add: bitlen_le_iff_power)
  then have no_ovf: "\<not> 1024 < bitlen \<bar>m\<bar> + e" by simp
  have "rnd r = Fin (real_of_int m * 2 powi e)"
    using False no_ovf by (simp add: rnd_def Let_def e_def [symmetric] m_def [symmetric])
  then show ?thesis using bound by blast
qed

lemma f64_add_small:
  assumes "\<bar>a + b\<bar> < 8"
  shows "\<exists>v. f64_add (Fin a) (Fin b) = Fin v \<and> \<bar>v - (a + b)\<bar> \<le> 1 / 2 ^ 51"
  using rnd_abs_error [OF assms] by simp

lemma f64_div_small:
  assumes "b \<noteq> 0" "\<bar>a / b\<bar> < 8"
  shows "\<exists>v. f64_div (Fin a) (Fin b) = Fin v \<and> \<bar>v - a / b\<bar> \<le> 1 / 2 ^ 51"
  using rnd_abs_error [OF assms(2)] assms(1) by simp

lemma f64_mul_small:
  assumes "\<bar>a * b\<bar> < 8"
  shows "\<exists>v. f64_mul (Fin a) (Fin b) = Fin v \<and> \<bar>v - a * b\<bar> \<le> 1 / 2 ^ 51"
  using rnd_abs_error [OF assms] by simp

lemma dec_digits_small: "n < 10 \<Longrightarrow> dec_digits n = [digit_char n]"
  by simp

lemma dec_digits_large: "\<not> n < 10 \<Longrightarrow> dec_digits n = dec_digits (n div 10) @ [digit_char (n mod 10)]"
  by simp

declare dec_digits.simps [simp del]

lemmas fmt_eval = fmt_02d_def fmt_d_def dec_digits_small dec_digits_large digit_char_def

section \<open>Normalizer and U3\<close>

text \<open>
  C2. The ratio normalization \<open>clampAndRound\<close> (clamp to [0,1], multiply by 100 in double
  precision, round halves away from zero, convert to \<^verbatim>\<open>int\<close>) maps the doubles nearest to
  0.314, 0.315, 1.0 and -0.5 to 31, 32, 100 and 0.
\<close>

theorem clampAndRound_examples:
  "clampAndRound (rnd (314 / 1000)) = 31 \<and> clampAndRound (rnd (315 / 1000)) = 32 \<and>
   clampAndRound (rnd 1) = 100 \<and> clampAndRound (rnd (- (5 / 10))) = 0"
  by (simp add: clampAndRound_def f64_eval)

text \<open>
  C1. \<open>EncodeU3\<close> on the profile with dominant element Air, modal ratios 0.31, 0.23, 0.46,
  cognition ratios 0.52, 0.13, 0.53, 0.15, 0.33, interaction balanced, medium, precise and
  the chip b04edb83f10e returns exactly the expected code. Each decimal constant is the
  double nearest to it, as the Go compiler converts it.
\<close>

theorem EncodeU3_example:
  "EncodeU3
     \<lparr> DominantElement = ''Air'',
       Modal = \<lparr> Cardinal = rnd (31 / 100), Fixed = rnd (23 / 100), Mutable = rnd (46 / 100) \<rparr>,
       Cognition = \<lparr> Fluid = rnd (52 / 100), Crystallized = rnd (13 / 100),
                     Verbal = rnd (53 / 100), Strategic = rnd (15 / 100),
                     Creative = rnd (33 / 100) \<rparr>,
       Interaction = \<lparr> Pace = ''balanced'', Structure = ''medium'', Tone = ''precise'' \<rparr>,
       BirthInfoPtr = None \<rparr>
     ''b04edb83f10e''
   = ''HCS-U3|E:A|MOD:c31f23m46|COG:F52C13V53S15Cr33|INT:PB=B,SM=M,TN=P|CHIP:b04edb83f10e''"
  by (simp add: EncodeU3_def clampAndRound_def f64_eval fmt_eval mapElementToLetter_def
      mapPaceToLetter_def mapStructureToLetter_def mapToneToLetter_def)

section \<open>Calendar engine\<close>

lemma go_rem_normalized:
  "0 < b \<Longrightarrow> (if go_rem a b < 0 then go_rem a b + b else go_rem a b) = a mod b"
proof (cases "0 \<le> a")
  case True
  assume b: "0 < b"
  then have "0 \<le> a mod b" by simp
  with True b show ?thesis by (simp add: go_rem_def sgn_if not_less)
next
  case False
  assume b: "0 < b"
  have m: "(- a) mod b = (if a mod b = 0 then 0 else b - a mod b)"
    by (rule zmod_zminus1_eq_if)
  have "0 \<le> a mod b" "a mod b < b" using b by simp_all
  with False b m show ?thesis by (simp add: go_rem_def sgn_if split: if_splits)
qed

lemma wrap64_id: "- (2 ^ 63) \<le> x \<Longrightarrow> x < 2 ^ 63 \<Longrightarrow> wrap64 x = x"
  by (simp add: wrap64_def)

lemmas table_eval = mkPillar_def index_at_def HeavenlyStems_def EarthlyBranches_def

text \<open>
  C5. \<open>ComputeYearPillar\<close> gives Jia-Zi for 1984 and Geng-Wu for 1990, and for every year
  whose difference to 1924 fits an \<^verbatim>\<open>int\<close> the stem index is (year - 1924) mod 10 and the
  branch index (year - 1924) mod 12, both non-negative (\<open>mod\<close> on \<^typ>\<open>int\<close> is the
  non-negative remainder).
\<close>

theorem ComputeYearPillar_cycle:
  "map_sum id PillarToString (ComputeYearPillar 1984) = Inr ''Jia-Zi'' \<and>
   map_sum id PillarToString (ComputeYearPillar 1990) = Inr ''Geng-Wu'' \<and>
   (\<forall>year. - (2 ^ 63) + 1924 \<le> year \<and> year < 2 ^ 63 \<longrightarrow>
      ComputeYearPillar year = mkPillar ((year - 1924) mod 10) ((year - 1924) mod 12))"
proof (intro conjI allI impI)
  show "map_sum id PillarToString (ComputeYearPillar 1984) = Inr ''Jia-Zi''"
    by (simp add: ComputeYearPillar_def wrap64_def go_rem_def table_eval PillarToString_def)
  show "map_sum id PillarToString (ComputeYearPillar 1990) = Inr ''Geng-Wu''"
    by (simp add: ComputeYearPillar_def wrap64_def go_rem_def table_eval PillarToString_def)
next
  fix year :: int
  assume "- (2 ^ 63) + 1924 \<le> year \<and> year < 2 ^ 63"
  then have "wrap64 (year - 1924) = year - 1924"
    by (intro wrap64_id) auto
  then show "ComputeYearPillar year = mkPillar ((year - 1924) mod 10) ((year - 1924) mod 12)"
    using go_rem_normalized [of 10 "year - 1924"] go_rem_normalized [of 12 "year - 1924"]
    by (simp add: ComputeYearPillar_def Let_def)
qed

theorem ComputeYearPillar_cycle_witness:
  "ComputeYearPillar 2024 = mkPillar 0 4"
  using ComputeYearPillar_cycle by simp

lemma bonus_step:
  assumes "0 \<le> s" "s \<le> 3" "1 / 100 \<le> c" "c \<le> 15 / 100"
  shows "\<exists>s'. (if b then f64_add (Fin s) (rnd c) else Fin s) = Fin s' \<and> s \<le> s' \<and> s' \<le> s + 16 / 100"
proof (cases b)
  case False
  then show ?thesis by simp
next
  case True
  have eps: "(1::real) / 2 ^ 51 \<le> 1 / 1000" by simp
  from assms have "\<bar>c\<bar> < 8" by simp
  then obtain c' where c': "rnd c = Fin c'" "\<bar>c' - c\<bar> \<le> 1 / 2 ^ 51"
    using rnd_abs_error by blast
  with assms eps have "\<bar>s + c'\<bar> < 8" by linarith
  then obtain s' where s': "f64_add (Fin s) (Fin c') = Fin s'" "\<bar>s' - (s + c')\<bar> \<le> 1 / 2 ^ 51"
    using f64_add_small by blast
  from c'(2) s'(2) assms eps have "s \<le> s' \<and> s' \<le> s + 16 / 100" by linarith
  with True c'(1) s'(1) show ?thesis by simp
qed

lemma valid_stem:
  "0 \<le> i \<Longrightarrow> i < 10 \<Longrightarrow> \<exists>stem. index_at HeavenlyStems i = Inr stem"
  by (simp add: index_at_def HeavenlyStems_def)

lemma valid_branch:
  "0 \<le> i \<Longrightarrow> i < 12 \<Longrightarrow> \<exists>branch. index_at EarthlyBranches i = Inr branch"
  by (simp add: index_at_def EarthlyBranches_def)

lemma strength_loop_bounds:
  assumes "list_all valid_pillar ps" "0 \<le> lo" "lo \<le> s" "s + 7 / 10 * real (length ps) \<le> 32 / 10"
  shows "\<exists>s'. strength_loop de i ps (Fin s) = Inr (Fin s') \<and> lo \<le> s' \<and> s' \<le> 32 / 10"
  using assms
proof (induction ps arbitrary: i s)
  case Nil
  then show ?case by simp
next
  case (Cons p ps)
  from Cons.prems(1) have vp: "valid_pillar p" and vps: "list_all valid_pillar ps" by simp_all
  from vp obtain stem where stem: "index_at HeavenlyStems (StemIndex p) = Inr stem"
    using valid_stem by (auto simp: valid_pillar_def)
  from vp obtain branch where branch: "index_at EarthlyBranches (BranchIndex p) = Inr branch"
    using valid_branch by (auto simp: valid_pillar_def)
  have len: "s + 7 / 10 + 7 / 10 * real (length ps) \<le> 32 / 10"
  proof -
    have "real (length (p # ps)) = 1 + real (length ps)" by simp
    moreover have "7 / 10 * (1 + real (length ps)) = 7 / 10 + 7 / 10 * real (length ps)"
      by (simp only: distrib_left mult_1_right)
    ultimately show ?thesis using Cons.prems(4) by (simp only: )
  qed
  have s0: "0 \<le> s" "s \<le> 25 / 10" using Cons.prems(2,3) len by linarith+
  show ?case
  proof (cases "i = 2")
    case True
    have "s + 7 / 10 * real (length ps) \<le> 32 / 10" using len by linarith
    from Cons.IH [OF vps Cons.prems(2,3) this, of "i + 1"] True stem branch
    show ?thesis by simp
  next
    case False
    obtain s1 where s1: "(if stem_Element stem = de then f64_add (Fin s) (rnd (15 / 100)) else Fin s) = Fin s1"
        "s \<le> s1" "s1 \<le> s + 16 / 100"
      using bonus_step [of s "15 / 100"] s0 by force
    obtain s2 where s2: "(if branch_Element branch = de then f64_add (Fin s1) (rnd (1 / 10)) else Fin s1) = Fin s2"
        "s1 \<le> s2" "s2 \<le> s1 + 16 / 100"
      using bonus_step [of s1 "1 / 10"] s0 s1 by force
    obtain s3 where s3: "(if isGeneratingElement (stem_Element stem) de then f64_add (Fin s2) (rnd (1 / 10)) else Fin s2) = Fin s3"
        "s2 \<le> s3" "s3 \<le> s2 + 16 / 100"
      using bonus_step [of s2 "1 / 10"] s0 s1 s2 by force
    obtain s4 where s4: "(if isGeneratingElement (branch_Element branch) de then f64_add (Fin s3) (rnd (5 / 100)) else Fin s3) = Fin s4"
        "s3 \<le> s4" "s4 \<le> s3 + 16 / 100"
      using bonus_step [of s3 "5 / 100"] s0 s1 s2 s3 by force
    have "lo \<le> s4" using Cons.prems(3) s1 s2 s3 s4 by linarith
    moreover have "s4 + 7 / 10 * real (length ps) \<le> 32 / 10"
      using len s1 s2 s3 s4 by linarith
    ultimately obtain s' where
      "strength_loop de (i + 1) ps (Fin s4) = Inr (Fin s')" "lo \<le> s'" "s' \<le> 32 / 10"
      using Cons.IH [OF vps Cons.prems(2)] by blast
    moreover have "strength_loop de i (p # ps) (Fin s) = strength_loop de (i + 1) ps (Fin s4)"
      using False
      by (simp only: strength_loop.simps stem branch sum.case if_False Let_def
          s1(1) s2(1) s3(1) s4(1))
    ultimately show ?thesis by simp
  qed
qed

lemma GetDayMasterStrength_value:
  assumes "length pillars = 4" and "list_all valid_pillar pillars" and "valid_pillar dayPillar"
  shows "\<exists>v base. GetDayMasterStrength pillars dayPillar = Inr (Fin v) \<and>
           rnd (3 / 10) = Fin base \<and> base \<le> v \<and> v \<le> 1 \<and>
           (\<forall>cp. GetDayMasterType (cp\<lparr>DayMasterStrength := Fin v\<rparr>) \<noteq> ''Weak'')"
proof -
  have eps: "(1::real) / 2 ^ 51 \<le> 1 / 1000" by simp
  obtain base where base: "rnd (3 / 10) = Fin base" "\<bar>base - 3 / 10\<bar> \<le> 1 / 2 ^ 51"
    using rnd_abs_error [of "3 / 10"] by auto
  from assms(3) obtain dayStem where dayStem: "index_at HeavenlyStems (StemIndex dayPillar) = Inr dayStem"
    using valid_stem by (auto simp: valid_pillar_def)
  have b: "29 / 100 \<le> base" "base \<le> 31 / 100"
    using base(2) eps by linarith+
  have "real (length pillars) = 4" using assms(1) by simp
  with b have "0 \<le> base" "base + 7 / 10 * real (length pillars) \<le> 32 / 10"
    by linarith+
  then obtain s where s: "strength_loop (stem_Element dayStem) 0 pillars (Fin base) = Inr (Fin s)"
      "base \<le> s"
    using strength_loop_bounds [OF assms(2), of base base] by blast
  define v where "v = (if 1 < s then 1 else s)"
  have pos: "0 < s" using s(2) b by linarith
  have res: "GetDayMasterStrength pillars dayPillar = Inr (Fin v)"
    using pos by (simp add: GetDayMasterStrength_def dayStem base(1) s(1) v_def)
  have v: "base \<le> v" "v \<le> 1"
    using s(2) b by (auto simp: v_def)
  have "GetDayMasterType (cp\<lparr>DayMasterStrength := Fin v\<rparr>) \<noteq> ''Weak''" for cp
    using v(1) by (simp add: GetDayMasterType_def base(1))
  with res base(1) v show ?thesis by blast
qed

text \<open>
  C10. For four pillars with stem indices in 0-9 and branch indices in 0-11 (and a day pillar
  with such indices) \<open>GetDayMasterStrength\<close> returns a finite double between the base, the
  double of the constant 0.3, and 1; so \<open>GetDayMasterType\<close> of a profile with that strength
  is never Weak.
\<close>

theorem GetDayMasterStrength_range:
  assumes "length pillars = 4" and "list_all valid_pillar pillars" and "valid_pillar dayPillar"
  shows "\<exists>v base. GetDayMasterStrength pillars dayPillar = Inr (Fin v) \<and>
           rnd (3 / 10) = Fin base \<and> base \<le> v \<and> v \<le> 1 \<and>
           (\<forall>cp. GetDayMasterType (cp\<lparr>DayMasterStrength := Fin v\<rparr>) \<noteq> ''Weak'')"
  using GetDayMasterStrength_value [OF assms] .

theorem GetDayMasterStrength_range_witness:
  "\<exists>v base.
     GetDayMasterStrength
       [\<lparr> Stem = ''Jia'', Branch = ''Zi'', StemIndex = 0, BranchIndex = 0 \<rparr>,
        \<lparr> Stem = ''Bing'', Branch = ''Wu'', StemIndex = 2, BranchIndex = 6 \<rparr>,
        \<lparr> Stem = ''Wu'', Branch = ''Chen'', StemIndex = 4, BranchIndex = 4 \<rparr>,
        \<lparr> Stem = ''Geng'', Branch = ''Shen'', StemIndex = 6, BranchIndex = 8 \<rparr>]
       \<lparr> Stem = ''Wu'', Branch = ''Chen'', StemIndex = 4, BranchIndex = 4 \<rparr> = Inr (Fin v) \<and>
     rnd (3 / 10) = Fin base \<and> base \<le> v \<and> v \<le> 1"
proof -
  have "\<exists>v base.
     GetDayMasterStrength
       [\<lparr> Stem = ''Jia'', Branch = ''Zi'', StemIndex = 0, BranchIndex = 0 \<rparr>,
        \<lparr> Stem = ''Bing'', Branch = ''Wu'', StemIndex = 2, BranchIndex = 6 \<rparr>,
        \<lparr> Stem = ''Wu'', Branch = ''Chen'', StemIndex = 4, BranchIndex = 4 \<rparr>,
        \<lparr> Stem = ''Geng'', Branch = ''Shen'', StemIndex = 6, BranchIndex = 8 \<rparr>]
       \<lparr> Stem = ''Wu'', Branch = ''Chen'', StemIndex = 4, BranchIndex = 4 \<rparr> = Inr (Fin v) \<and>
     rnd (3 / 10) = Fin base \<and> base \<le> v \<and> v \<le> 1 \<and>
     (\<forall>cp. GetDayMasterType (cp\<lparr>DayMasterStrength := Fin v\<rparr>) \<noteq> ''Weak'')"
    by (rule GetDayMasterStrength_range) (simp_all add: valid_pillar_def)
  then show ?thesis by blast
qed

section \<open>Element balance and element signature\<close>

lemma rnd_half_exact: "n \<le> 14 \<Longrightarrow> rnd (real n / 2) = Fin (real n / 2)"
proof -
  assume "n \<le> 14"
  then have "n \<in> {0, 1, 2, 3, 4, 5, 6, 7, 8, 9, 10, 11, 12, 13, 14}"
    by (simp only: insert_iff empty_iff) presburger
  then show ?thesis
    by (elim insertE emptyE) (simp_all add: f64_eval)
qed

lemma stems_in_five: "s \<in> set HeavenlyStems \<Longrightarrow> stem_Element s \<in> set five_elements"
  by (auto simp: HeavenlyStems_def five_elements_def)

lemma branches_in_five: "b \<in> set EarthlyBranches \<Longrightarrow> branch_Element b \<in> set five_elements"
  by (auto simp: EarthlyBranches_def five_elements_def)

lemma index_at_valid:
  "0 \<le> i \<Longrightarrow> i < int (length xs) \<Longrightarrow> index_at xs i = Inr (xs ! nat i)"
  by (simp add: index_at_def)

lemma valid_pillar_lookup:
  assumes "valid_pillar p"
  shows "index_at HeavenlyStems (StemIndex p) = Inr (HeavenlyStems ! nat (StemIndex p))"
    and "index_at EarthlyBranches (BranchIndex p) = Inr (EarthlyBranches ! nat (BranchIndex p))"
    and "stemEl p \<in> set five_elements" and "branchEl p \<in> set five_elements"
proof -
  from assms have s: "0 \<le> StemIndex p" "StemIndex p < int (length HeavenlyStems)"
    and b: "0 \<le> BranchIndex p" "BranchIndex p < int (length EarthlyBranches)"
    by (simp_all add: valid_pillar_def HeavenlyStems_def EarthlyBranches_def)
  show "index_at HeavenlyStems (StemIndex p) = Inr (HeavenlyStems ! nat (StemIndex p))"
    using s by (rule index_at_valid)
  show "index_at EarthlyBranches (BranchIndex p) = Inr (EarthlyBranches ! nat (BranchIndex p))"
    using b by (rule index_at_valid)
  have "HeavenlyStems ! nat (StemIndex p) \<in> set HeavenlyStems"
    using s by (intro nth_mem) linarith
  then show "stemEl p \<in> set five_elements"
    unfolding stemEl_def by (rule stems_in_five)
  have "EarthlyBranches ! nat (BranchIndex p) \<in> set EarthlyBranches"
    using b by (intro nth_mem) linarith
  then show "branchEl p \<in> set five_elements"
    unfolding branchEl_def by (rule branches_in_five)
qed

lemma map_add_counts:
  assumes "k \<in> set five_elements" "n k + c \<le> 14"
  shows "map_add (counts_map n) k (Fin (real c / 2)) = counts_map (n(k := n k + c))"
proof -
  have "real (n k) / 2 + real c / 2 = real (n k + c) / 2" by simp
  then have "f64_add (Fin (real (n k) / 2)) (Fin (real c / 2)) = Fin (real (n k + c) / 2)"
    using rnd_half_exact [OF assms(2)] by (simp only: f64_add.simps)
  then show ?thesis
    using assms(1) by (auto simp: map_add_def map_get_def counts_map_def fun_eq_iff)
qed

lemma half_count_sum:
  assumes "list_all valid_pillar ps"
  shows "half_count ps ''Wood'' + half_count ps ''Fire'' + half_count ps ''Earth''
         + half_count ps ''Metal'' + half_count ps ''Water'' = 3 * length ps"
  using assms
proof (induction ps)
  case Nil
  then show ?case by simp
next
  case (Cons p ps)
  then have "stemEl p \<in> set five_elements" "branchEl p \<in> set five_elements"
    using valid_pillar_lookup(3,4) by simp_all
  with Cons show ?case
    by (auto simp: five_elements_def)
qed

lemma half_count_le: "half_count ps e \<le> 3 * length ps"
  by (induction ps) auto

lemma count_elements_counts:
  assumes "list_all valid_pillar ps" "\<And>e. n e + half_count ps e \<le> 12"
  shows "count_elements ps (counts_map n) = Inr (counts_map (\<lambda>e. n e + half_count ps e))"
  using assms
proof (induction ps arbitrary: n)
  case Nil
  then show ?case by simp
next
  case (Cons p ps)
  from Cons.prems(1) have vp: "valid_pillar p" and vps: "list_all valid_pillar ps" by simp_all
  note lk = valid_pillar_lookup [OF vp]
  define n1 where "n1 = n(stemEl p := n (stemEl p) + 2)"
  define n2 where "n2 = n1(branchEl p := n1 (branchEl p) + 1)"
  have b: "n e + (if stemEl p = e then 2 else 0) + (if branchEl p = e then 1 else 0)
           + half_count ps e \<le> 12" for e
    using Cons.prems(2) [of e] by (simp add: add.assoc)
  have "n (stemEl p) + 2 \<le> 14" using b [of "stemEl p"] by simp
  then have e1: "map_add (counts_map n) (stemEl p) (Fin 1) = counts_map n1"
    using map_add_counts [OF lk(3), of n 2] by (simp add: n1_def)
  have "n1 (branchEl p) + 1 \<le> 14"
    using b [of "branchEl p"] by (auto simp: n1_def split: if_splits)
  then have e2: "map_add (counts_map n1) (branchEl p) (Fin (1 / 2)) = counts_map n2"
    using map_add_counts [OF lk(4), of n1 1] by (simp add: n2_def)
  have n2: "n2 e + half_count ps e = n e + half_count (p # ps) e" for e
    by (simp add: n2_def n1_def)
  then have "n2 e + half_count ps e \<le> 12" for e
    using Cons.prems(2) [of e] by simp
  from Cons.IH [OF vps this]
  have "count_elements ps (counts_map n2) = Inr (counts_map (\<lambda>e. n e + half_count (p # ps) e))"
    by (simp only: n2)
  moreover have "count_elements (p # ps) (counts_map n) = count_elements ps (counts_map n2)"
    using e1 e2
    by (simp add: lk(1,2) stemEl_def [symmetric] branchEl_def [symmetric] Let_def)
  ultimately show ?case by simp
qed

lemma elements_init_counts: "elements_init = counts_map (\<lambda>e. 0)"
  by (auto simp: elements_init_def counts_map_def five_elements_def fun_eq_iff)

lemma fold_total_counts:
  assumes "set ks \<subseteq> set five_elements" "a + sum_list (map n ks) \<le> 14"
  shows "fold (\<lambda>k t. f64_add t (map_get (counts_map n) k)) ks (Fin (real a / 2))
         = Fin (real (a + sum_list (map n ks)) / 2)"
  using assms
proof (induction ks arbitrary: a)
  case Nil
  then show ?case by simp
next
  case (Cons k ks)
  then have k: "k \<in> set five_elements" and ks: "set ks \<subseteq> set five_elements" by simp_all
  have le: "a + n k \<le> 14" "(a + n k) + sum_list (map n ks) \<le> 14"
    using Cons.prems(2) by simp_all
  have "real a / 2 + real (n k) / 2 = real (a + n k) / 2" by simp
  then have "f64_add (Fin (real a / 2)) (Fin (real (n k) / 2)) = Fin (real (a + n k) / 2)"
    using rnd_half_exact [OF le(1)] by (simp only: f64_add.simps)
  then have "f64_add (Fin (real a / 2)) (map_get (counts_map n) k) = Fin (real (a + n k) / 2)"
    using k by (simp add: map_get_def counts_map_def)
  with Cons.IH [OF ks le(2)] show ?case by (simp add: add.assoc)
qed

lemma sum_list_five:
  fixes n :: "string \<Rightarrow> 'a::comm_monoid_add"
  assumes "distinct order" "set order = set five_elements"
  shows "sum_list (map n order) = n ''Wood'' + n ''Fire'' + n ''Earth'' + n ''Metal'' + n ''Water''"
proof -
  have "sum_list (map n order) = sum n (set order)"
    using assms(1) by (rule sum_list_distinct_conv_sum_set)
  also have "\<dots> = sum n (set five_elements)" by (simp only: assms(2))
  also have "\<dots> = n ''Wood'' + n ''Fire'' + n ''Earth'' + n ''Metal'' + n ''Water''"
    by (simp add: five_elements_def add.assoc)
  finally show ?thesis .
qed

lemma CalculateElementBalance_value:
  assumes "length pillars = 4" "list_all valid_pillar pillars"
    "distinct order" "set order = set five_elements"
  shows "CalculateElementBalance pillars order
         = Inr (\<lambda>k. map_option (\<lambda>v. f64_div v (Fin 6)) (counts_map (half_count pillars) k))"
proof -
  have le: "half_count pillars e \<le> 12" for e
    using half_count_le [of pillars e] assms(1) by simp
  then have "count_elements pillars (counts_map (\<lambda>e. 0))
             = Inr (counts_map (\<lambda>e. 0 + half_count pillars e))"
    by (intro count_elements_counts assms(2)) simp
  then have c: "count_elements pillars elements_init = Inr (counts_map (half_count pillars))"
    by (simp add: elements_init_counts)
  have s: "sum_list (map (half_count pillars) order) = 12"
    using sum_list_five [OF assms(3,4), of "half_count pillars"] half_count_sum [OF assms(2)] assms(1)
    by simp
  have "fold (\<lambda>k t. f64_add t (map_get (counts_map (half_count pillars)) k)) order (Fin (real 0 / 2))
        = Fin (real (0 + sum_list (map (half_count pillars) order)) / 2)"
    using assms(4) s by (intro fold_total_counts) simp_all
  then have "fold (\<lambda>k t. f64_add t (map_get (counts_map (half_count pillars)) k)) order (Fin 0) = Fin 6"
    by (simp add: s)
  with c show ?thesis by (simp add: CalculateElementBalance_def)
qed

lemma approx_mapD:
  assumes "approx_map m x d" "e \<in> set five_elements"
  shows "\<exists>v. m e = Some (Fin v) \<and> \<bar>v - x e\<bar> \<le> d"
proof -
  from assms have "case m e of Some (Fin v) \<Rightarrow> \<bar>v - x e\<bar> \<le> d | _ \<Rightarrow> False"
    by (simp add: approx_map_def list_all_iff)
  then show ?thesis by (auto split: option.splits float64.splits)
qed

lemma approx_mapI:
  assumes "dom m = set five_elements"
    and "\<And>e. e \<in> set five_elements \<Longrightarrow> \<exists>v. m e = Some (Fin v) \<and> \<bar>v - x e\<bar> \<le> d"
  shows "approx_map m x d"
  using assms by (fastforce simp: approx_map_def list_all_iff)

lemma sums_to_one_approx:
  assumes "approx_map m x d" "d \<le> 1 / 1000"
    and "\<bar>x ''Wood'' + x ''Fire'' + x ''Earth'' + x ''Metal'' + x ''Water'' - 1\<bar> \<le> 1 / 200"
  shows "sums_to_one m"
proof -
  obtain v1 where v1: "m ''Wood'' = Some (Fin v1)" "\<bar>v1 - x ''Wood''\<bar> \<le> d"
    using approx_mapD [OF assms(1), of "''Wood''"] by (auto simp: five_elements_def)
  obtain v2 where v2: "m ''Fire'' = Some (Fin v2)" "\<bar>v2 - x ''Fire''\<bar> \<le> d"
    using approx_mapD [OF assms(1), of "''Fire''"] by (auto simp: five_elements_def)
  obtain v3 where v3: "m ''Earth'' = Some (Fin v3)" "\<bar>v3 - x ''Earth''\<bar> \<le> d"
    using approx_mapD [OF assms(1), of "''Earth''"] by (auto simp: five_elements_def)
  obtain v4 where v4: "m ''Metal'' = Some (Fin v4)" "\<bar>v4 - x ''Metal''\<bar> \<le> d"
    using approx_mapD [OF assms(1), of "''Metal''"] by (auto simp: five_elements_def)
  obtain v5 where v5: "m ''Water'' = Some (Fin v5)" "\<bar>v5 - x ''Water''\<bar> \<le> d"
    using approx_mapD [OF assms(1), of "''Water''"] by (auto simp: five_elements_def)
  have "real_sum (map (map_get m) five_elements) = Some (v1 + (v2 + (v3 + (v4 + (v5 + 0)))))"
    by (simp add: five_elements_def map_get_def v1(1) v2(1) v3(1) v4(1) v5(1))
  moreover have "\<bar>(v1 + (v2 + (v3 + (v4 + (v5 + 0))))) - 1\<bar> \<le> 1 / 100"
    using v1(2) v2(2) v3(2) v4(2) v5(2) assms(2,3) by linarith
  moreover have "dom m = set five_elements"
    using assms(1) by (simp add: approx_map_def)
  ultimately show ?thesis by (simp add: sums_to_one_def)
qed

lemma CalculateElementBalance_approx:
  assumes "length pillars = 4" "list_all valid_pillar pillars"
    "distinct order" "set order = set five_elements"
  shows "\<exists>balance. CalculateElementBalance pillars order = Inr balance \<and>
           approx_map balance (\<lambda>e. real (half_count pillars e) / 12) (1 / 2 ^ 51)"
proof -
  define balance where
    "balance = (\<lambda>k. map_option (\<lambda>v. f64_div v (Fin 6)) (counts_map (half_count pillars) k))"
  have res: "CalculateElementBalance pillars order = Inr balance"
    unfolding balance_def by (rule CalculateElementBalance_value [OF assms])
  have dom: "dom balance = set five_elements"
    by (auto simp: balance_def counts_map_def dom_def)
  have "\<exists>v. balance e = Some (Fin v) \<and> \<bar>v - real (half_count pillars e) / 12\<bar> \<le> 1 / 2 ^ 51"
    if "e \<in> set five_elements" for e
  proof -
    have "half_count pillars e \<le> 12"
      using half_count_le [of pillars e] assms(1) by simp
    then have "\<bar>real (half_count pillars e) / 2 / 6\<bar> < 8" by simp
    then obtain v where "f64_div (Fin (real (half_count pillars e) / 2)) (Fin 6) = Fin v"
        "\<bar>v - real (half_count pillars e) / 2 / 6\<bar> \<le> 1 / 2 ^ 51"
      using f64_div_small [of 6 "real (half_count pillars e) / 2"] by auto
    then show ?thesis using that by (simp add: balance_def counts_map_def)
  qed
  with dom have "approx_map balance (\<lambda>e. real (half_count pillars e) / 12) (1 / 2 ^ 51)"
    by (intro approx_mapI)
  with res show ?thesis by blast
qed

lemma fold_map_add_distinct:
  "distinct ks \<Longrightarrow>
   fold (\<lambda>k m. map_add m k (g k)) ks m0
   = (\<lambda>k. if k \<in> set ks then Some (f64_add (map_get m0 k) (g k)) else m0 k)"
proof (induction ks arbitrary: m0)
  case Nil
  then show ?case by simp
next
  case (Cons k ks)
  then have "k \<notin> set ks" "distinct ks" by simp_all
  with Cons.IH [of "map_add m0 k (g k)"] show ?case
    by (auto simp: map_add_def map_get_def fun_eq_iff)
qed

lemma western_signature_approx:
  assumes "W = ''Earth'' \<or> W = ''Air'' \<or> W = ''Water'' \<or> W = ''Fire''"
  shows "\<exists>a. map_get (western_signature W) e = Fin a \<and> \<bar>a - western_share W e\<bar> \<le> 3 / 2 ^ 51"
    and "dom (western_signature W) \<subseteq> set five_elements"
proof -
  obtain w where w: "rnd (4 / 10) = Fin w" "\<bar>w - 4 / 10\<bar> \<le> 1 / 2 ^ 51"
    using rnd_abs_error [of "4 / 10"] by auto
  have eps: "(1::real) / 2 ^ 51 \<le> 1 / 1000" by simp
  have "\<bar>w * (1 / 2)\<bar> < 8" using w(2) eps by linarith
  then obtain h where h: "f64_mul (Fin w) (Fin (1 / 2)) = Fin h" "\<bar>h - w * (1 / 2)\<bar> \<le> 1 / 2 ^ 51"
    using f64_mul_small by blast
  have "\<bar>0 + w\<bar> < 8" using w(2) eps by linarith
  then obtain w1 where w1: "f64_add (Fin 0) (Fin w) = Fin w1" "\<bar>w1 - (0 + w)\<bar> \<le> 1 / 2 ^ 51"
    using f64_add_small by blast
  have "\<bar>0 + h\<bar> < 8" using w(2) h(2) eps by linarith
  then obtain h1 where h1: "f64_add (Fin 0) (Fin h) = Fin h1" "\<bar>h1 - (0 + h)\<bar> \<le> 1 / 2 ^ 51"
    using f64_add_small by blast
  have bw: "\<bar>w1 - 4 / 10\<bar> \<le> 3 / 2 ^ 51" using w(2) w1(2) by linarith
  have bh: "\<bar>h1 - 2 / 10\<bar> \<le> 3 / 2 ^ 51" using w(2) h(2) h1(2) by linarith
  have z: "\<bar>0 - (0::real)\<bar> \<le> 3 / 2 ^ 51" by simp
  have earth: "western_signature ''Earth'' = [''Earth'' \<mapsto> Fin w1]"
    by (simp add: western_signature_def map_add_def map_get_def w(1) [simplified] w1(1) [simplified])
  have water: "western_signature ''Water'' = [''Water'' \<mapsto> Fin w1]"
    by (simp add: western_signature_def map_add_def map_get_def w(1) [simplified] w1(1) [simplified])
  have fire: "western_signature ''Fire'' = [''Fire'' \<mapsto> Fin w1]"
    by (simp add: western_signature_def map_add_def map_get_def w(1) [simplified] w1(1) [simplified])
  have air: "western_signature ''Air'' = [''Wood'' \<mapsto> Fin h1, ''Metal'' \<mapsto> Fin h1]"
    by (simp add: western_signature_def map_add_def map_get_def w(1) [simplified]
        h(1) [simplified] h1(1) [simplified])
  from assms show "\<exists>a. map_get (western_signature W) e = Fin a \<and> \<bar>a - western_share W e\<bar> \<le> 3 / 2 ^ 51"
  proof (elim disjE)
    assume "W = ''Earth''"
    then show ?thesis using bw z by (simp add: earth western_share_def map_get_def)
  next
    assume "W = ''Air''"
    then show ?thesis using bh z by (simp add: air western_share_def map_get_def)
  next
    assume "W = ''Water''"
    then show ?thesis using bw z by (simp add: water western_share_def map_get_def)
  next
    assume "W = ''Fire''"
    then show ?thesis using bw z by (simp add: fire western_share_def map_get_def)
  qed
  from assms show "dom (western_signature W) \<subseteq> set five_elements"
    by (elim disjE) (simp_all add: earth air water fire five_elements_def)
qed

lemma western_share_sum:
  assumes "W = ''Earth'' \<or> W = ''Air'' \<or> W = ''Water'' \<or> W = ''Fire''"
  shows "western_share W ''Wood'' + western_share W ''Fire'' + western_share W ''Earth''
         + western_share W ''Metal'' + western_share W ''Water'' = 4 / 10"
  using assms by (auto simp: western_share_def)

lemma western_share_range: "0 \<le> western_share W e \<and> western_share W e \<le> 4 / 10"
  by (simp add: western_share_def)

lemma prod_approx:
  fixes v c x d :: real
  assumes "\<bar>v - x\<bar> \<le> d" "\<bar>c - 6 / 10\<bar> \<le> 1 / 2 ^ 51" "0 \<le> x" "x \<le> 1" "d \<le> 1 / 1000"
  shows "\<bar>v * c - 6 / 10 * x\<bar> \<le> d + 1 / 2 ^ 51" and "\<bar>v * c\<bar> < 8"
proof -
  have eps: "(1::real) / 2 ^ 51 \<le> 1 / 1000" by simp
  have c1: "\<bar>c\<bar> \<le> 1" using assms(2) eps by linarith
  have x1: "\<bar>x\<bar> \<le> 1" using assms(3,4) by linarith
  have "\<bar>(v - x) * c\<bar> \<le> d * 1"
    unfolding abs_mult using assms(1) c1 by (intro mult_mono) auto
  moreover have "\<bar>x * (c - 6 / 10)\<bar> \<le> 1 * (1 / 2 ^ 51)"
    unfolding abs_mult using assms(2) x1 by (intro mult_mono) auto
  moreover have "v * c - 6 / 10 * x = (v - x) * c + x * (c - 6 / 10)"
    by (simp add: algebra_simps)
  ultimately show b: "\<bar>v * c - 6 / 10 * x\<bar> \<le> d + 1 / 2 ^ 51"
    by linarith
  from b assms(3,4,5) eps show "\<bar>v * c\<bar> < 8" by linarith
qed

lemma quot_approx:
  fixes s t g :: real
  assumes "\<bar>s\<bar> \<le> 101 / 100" "\<bar>t - 1\<bar> \<le> g" "g \<le> 1 / 100"
  shows "\<bar>s / t - s\<bar> \<le> 2 * g" and "\<bar>s / t\<bar> < 8"
proof -
  have t: "99 / 100 \<le> t" "0 < t" "\<bar>1 - t\<bar> \<le> g" using assms(2,3) by linarith+
  have g0: "0 \<le> g" using assms(2) by linarith
  have "s / t - s = s * (1 - t) / t"
    using t(2) by (simp add: field_simps)
  then have "\<bar>s / t - s\<bar> = (\<bar>s\<bar> * \<bar>1 - t\<bar>) / t"
    using t(2) by (simp add: abs_mult)
  also have "\<dots> \<le> (101 / 100 * g) / (99 / 100)"
  proof (rule frac_le)
    show "\<bar>s\<bar> * \<bar>1 - t\<bar> \<le> 101 / 100 * g"
      using assms(1) t(3) by (intro mult_mono) auto
  qed (use t in auto)
  also have "\<dots> \<le> 2 * g" using g0 by simp
  finally show b: "\<bar>s / t - s\<bar> \<le> 2 * g" .
  from b assms(1,3) show "\<bar>s / t\<bar> < 8" by linarith
qed

lemma signature2_approx:
  assumes B: "approx_map B x d" and d: "0 \<le> d" "d \<le> 1 / 1000"
    and x: "\<And>e. 0 \<le> x e \<and> x e \<le> 1"
    and W: "W = ''Earth'' \<or> W = ''Air'' \<or> W = ''Water'' \<or> W = ''Fire''"
    and ord: "distinct orderC" "set orderC = set five_elements"
  shows "approx_map
           (fold (\<lambda>element sig. map_add sig element (f64_mul (map_get B element) (rnd (6 / 10))))
              orderC (western_signature W))
           (\<lambda>e. western_share W e + 6 / 10 * x e) (d + 6 / 2 ^ 51)"
proof -
  let ?g = "\<lambda>element. f64_mul (map_get B element) (rnd (6 / 10))"
  let ?m = "fold (\<lambda>element sig. map_add sig element (?g element)) orderC (western_signature W)"
  have eps: "(1::real) / 2 ^ 51 \<le> 1 / 1000" by simp
  obtain c where c: "rnd (6 / 10) = Fin c" "\<bar>c - 6 / 10\<bar> \<le> 1 / 2 ^ 51"
    using rnd_abs_error [of "6 / 10"] by auto
  have m: "?m = (\<lambda>k. if k \<in> set five_elements
                        then Some (f64_add (map_get (western_signature W) k) (?g k))
                        else western_signature W k)"
    using fold_map_add_distinct [OF ord(1), of ?g "western_signature W"] by (simp only: ord(2))
  have "western_signature W k = None" if "k \<notin> set five_elements" for k
    using western_signature_approx(2) [OF W] that by blast
  then have dom: "dom ?m = set five_elements"
    unfolding m by (auto simp: dom_def)
  have "\<exists>s. ?m e = Some (Fin s) \<and> \<bar>s - (western_share W e + 6 / 10 * x e)\<bar> \<le> d + 6 / 2 ^ 51"
    if e: "e \<in> set five_elements" for e
  proof -
    obtain v where v: "B e = Some (Fin v)" "\<bar>v - x e\<bar> \<le> d"
      using approx_mapD [OF B e] by blast
    obtain a where a: "map_get (western_signature W) e = Fin a"
        "\<bar>a - western_share W e\<bar> \<le> 3 / 2 ^ 51"
      using western_signature_approx(1) [OF W] by blast
    note pa = prod_approx [OF v(2) c(2) _ _ d(2)]
    have pb: "\<bar>v * c - 6 / 10 * x e\<bar> \<le> d + 1 / 2 ^ 51" "\<bar>v * c\<bar> < 8"
      using pa x [of e] by blast+
    obtain p where p: "f64_mul (Fin v) (Fin c) = Fin p" "\<bar>p - v * c\<bar> \<le> 1 / 2 ^ 51"
      using f64_mul_small [OF pb(2)] by blast
    have "\<bar>a + p\<bar> < 8"
      using a(2) p(2) pb(1) western_share_range [of W e] x [of e] d eps by linarith
    then obtain s where s: "f64_add (Fin a) (Fin p) = Fin s" "\<bar>s - (a + p)\<bar> \<le> 1 / 2 ^ 51"
      using f64_add_small by blast
    have "\<bar>s - (western_share W e + 6 / 10 * x e)\<bar> \<le> d + 6 / 2 ^ 51"
      using s(2) a(2) p(2) pb(1) by linarith
    moreover have "map_get B e = Fin v" by (simp add: map_get_def v(1))
    then have "?m e = Some (Fin s)"
      unfolding m by (simp only: e if_True a(1) c(1) p(1) s(1))
    ultimately show ?thesis by blast
  qed
  with dom show ?thesis by (intro approx_mapI)
qed

lemma fold_sum_approx:
  assumes m: "approx_map m y dl" and dl: "0 \<le> dl" "dl \<le> 1 / 100"
    and y: "\<And>e. 0 \<le> y e \<and> y e \<le> 1"
    and ks: "set ks \<subseteq> set five_elements"
    and t: "\<bar>t - a\<bar> \<le> D" "0 \<le> D" "0 \<le> a"
    and len: "a + real (length ks) \<le> 5" "D + real (length ks) * (dl + 1 / 2 ^ 51) \<le> 1 / 2"
  shows "\<exists>t'. fold (\<lambda>k t. f64_add t (map_get m k)) ks (Fin t) = Fin t' \<and>
           \<bar>t' - (a + sum_list (map y ks))\<bar> \<le> D + real (length ks) * (dl + 1 / 2 ^ 51)"
  using ks t len
proof (induction ks arbitrary: t a D)
  case Nil
  then show ?case by simp
next
  case (Cons k ks)
  have eps: "0 \<le> (1::real) / 2 ^ 51" by simp
  have step: "0 \<le> dl + 1 / 2 ^ 51" using dl(1) eps by linarith
  have lenr: "real (length (k # ks)) = 1 + real (length ks)" by simp
  have mul: "real (length (k # ks)) * (dl + 1 / 2 ^ 51)
             = (dl + 1 / 2 ^ 51) + real (length ks) * (dl + 1 / 2 ^ 51)"
    by (simp only: lenr distrib_right mult_1)
  have rest0: "0 \<le> real (length ks) * (dl + 1 / 2 ^ 51)"
    using step by simp
  from Cons.prems(1) have k: "k \<in> set five_elements" and ks: "set ks \<subseteq> set five_elements"
    by simp_all
  obtain v where v: "m k = Some (Fin v)" "\<bar>v - y k\<bar> \<le> dl"
    using approx_mapD [OF m k] by blast
  have a5: "a + 1 + real (length ks) \<le> 5" using Cons.prems(5) lenr by linarith
  have D2: "D + (dl + 1 / 2 ^ 51) + real (length ks) * (dl + 1 / 2 ^ 51) \<le> 1 / 2"
    using Cons.prems(6) mul by linarith
  have "\<bar>t + v\<bar> < 8"
    using Cons.prems(2,3,4) v(2) y [of k] a5 D2 rest0 dl eps by linarith
  then obtain t1 where t1: "f64_add (Fin t) (Fin v) = Fin t1" "\<bar>t1 - (t + v)\<bar> \<le> 1 / 2 ^ 51"
    using f64_add_small by blast
  have p1: "\<bar>t1 - (a + y k)\<bar> \<le> D + (dl + 1 / 2 ^ 51)"
    using t1(2) v(2) Cons.prems(2) by linarith
  have p2: "0 \<le> D + (dl + 1 / 2 ^ 51)" using Cons.prems(3) step by linarith
  have p3: "0 \<le> a + y k" using Cons.prems(4) y [of k] by linarith
  have p4: "a + y k + real (length ks) \<le> 5" using a5 y [of k] by linarith
  have p5: "D + (dl + 1 / 2 ^ 51) + real (length ks) * (dl + 1 / 2 ^ 51) \<le> 1 / 2"
    using D2 .
  from Cons.IH [OF ks p1 p2 p3 p4 p5]
  obtain t' where t': "fold (\<lambda>k t. f64_add t (map_get m k)) ks (Fin t1) = Fin t'"
      "\<bar>t' - (a + y k + sum_list (map y ks))\<bar>
         \<le> D + (dl + 1 / 2 ^ 51) + real (length ks) * (dl + 1 / 2 ^ 51)"
    by blast
  have mk: "map_get m k = Fin v" by (simp add: map_get_def v(1))
  have "fold (\<lambda>k t. f64_add t (map_get m k)) (k # ks) (Fin t)
        = fold (\<lambda>k t. f64_add t (map_get m k)) ks (f64_add (Fin t) (map_get m k))"
    by simp
  also have "\<dots> = fold (\<lambda>k t. f64_add t (map_get m k)) ks (Fin t1)"
    by (simp only: mk t1(1))
  finally have "fold (\<lambda>k t. f64_add t (map_get m k)) (k # ks) (Fin t) = Fin t'"
    using t'(1) by simp
  moreover have "\<bar>t' - (a + sum_list (map y (k # ks)))\<bar>
      \<le> D + real (length (k # ks)) * (dl + 1 / 2 ^ 51)"
    using t'(2) by (simp only: mul list.map sum_list.Cons add.assoc)
  ultimately show ?case by blast
qed

lemma length_five:
  assumes "distinct ks" "set ks = set five_elements"
  shows "length ks = 5"
proof -
  have "length ks = card (set ks)" using assms(1) by (simp add: distinct_card)
  also have "\<dots> = card (set five_elements)" by (simp only: assms(2))
  also have "\<dots> = 5" by (simp add: five_elements_def)
  finally show ?thesis .
qed

lemma buildElementSignature_sums:
  assumes B: "approx_map (ElementBalance chinese) x d" and d: "0 \<le> d" "d \<le> 1 / 10 ^ 6"
    and x: "\<And>e. 0 \<le> x e \<and> x e \<le> 1"
    and xs: "x ''Wood'' + x ''Fire'' + x ''Earth'' + x ''Metal'' + x ''Water'' = 1"
    and W: "WDominantElement western = ''Earth'' \<or> WDominantElement western = ''Air'' \<or>
            WDominantElement western = ''Water'' \<or> WDominantElement western = ''Fire''"
    and ordC: "distinct orderC" "set orderC = set five_elements"
    and ordS: "distinct orderS" "set orderS = set five_elements"
  shows "sums_to_one (buildElementSignature western chinese orderC orderS)"
proof -
  define sig2 where "sig2 =
    fold (\<lambda>element sig.
            map_add sig element (f64_mul (map_get (ElementBalance chinese) element) (rnd (6 / 10))))
      orderC (western_signature (WDominantElement western))"
  define y where "y = (\<lambda>e. western_share (WDominantElement western) e + 6 / 10 * x e)"
  define u where "u = (1::real) / 2 ^ 51"
  define dl where "dl = d + 6 * u"
  define g where "g = 5 * (dl + u)"
  have eps: "0 \<le> u" "u \<le> 1 / 1000000" by (simp_all add: u_def)
  have d6: "d \<le> 1 / 1000000" using d(2) by simp
  have d3: "d \<le> 1 / 1000" using d6 by linarith
  have dl: "0 \<le> dl" "dl \<le> 1 / 100" "dl \<le> 7 / 1000000"
    unfolding dl_def using d(1) d6 eps by linarith+
  have g1: "0 \<le> g" unfolding g_def using dl(1) eps(1) by simp
  have g3: "g \<le> 40 / 1000000" unfolding g_def using dl(3) eps(2) by simp
  have g2: "g \<le> 1 / 100" using g3 by simp
  note g = g1 g2 g3
  have unfold: "buildElementSignature western chinese orderC orderS =
      (let total = fold (\<lambda>k t. f64_add t (map_get sig2 k)) orderS (Fin 0)
       in if f64_lt (Fin 0) total then (\<lambda>k. map_option (\<lambda>v. f64_div v total) (sig2 k)) else sig2)"
    by (simp only: buildElementSignature_def Let_def western_signature_def sig2_def)
  have a2: "approx_map sig2 y dl"
    unfolding sig2_def y_def dl_def u_def
    using signature2_approx [OF B d(1) d3 x W ordC] by simp
  have yr: "0 \<le> y e \<and> y e \<le> 1" for e
    using western_share_range [of "WDominantElement western" e] x [of e] by (simp add: y_def)
  have ysum: "y ''Wood'' + y ''Fire'' + y ''Earth'' + y ''Metal'' + y ''Water'' = 1"
    using western_share_sum [OF W] xs by (simp add: y_def)
  have len: "real (length orderS) = 5" using length_five [OF ordS] by simp
  have "\<exists>t'. fold (\<lambda>k t. f64_add t (map_get sig2 k)) orderS (Fin 0) = Fin t' \<and>
           \<bar>t' - (0 + sum_list (map y orderS))\<bar> \<le> 0 + real (length orderS) * (dl + u)"
    unfolding u_def
  proof (rule fold_sum_approx [OF a2 dl(1,2) yr])
    show "set orderS \<subseteq> set five_elements" using ordS(2) by simp
    show "0 + real (length orderS) \<le> 5" using len by simp
    show "0 + real (length orderS) * (dl + 1 / 2 ^ 51) \<le> 1 / 2"
      using g(2) unfolding g_def len u_def [symmetric] by linarith
  qed simp_all
  then obtain t' where t': "fold (\<lambda>k t. f64_add t (map_get sig2 k)) orderS (Fin 0) = Fin t'"
      "\<bar>t' - (0 + sum_list (map y orderS))\<bar> \<le> 0 + real (length orderS) * (dl + u)"
    by blast
  have "sum_list (map y orderS) = 1"
    using sum_list_five [OF ordS, of y] ysum by simp
  with t'(2) have tg: "\<bar>t' - 1\<bar> \<le> g" unfolding g_def len by linarith
  then have tpos: "0 < t'" using g(2) by linarith
  define R where "R = (\<lambda>k. map_option (\<lambda>v. f64_div v (Fin t')) (sig2 k))"
  have res: "buildElementSignature western chinese orderC orderS = R"
    using tpos by (simp add: unfold t'(1) R_def)
  have "dom sig2 = set five_elements" using a2 by (simp add: approx_map_def)
  then have domR: "dom R = set five_elements"
    by (auto simp: R_def dom_def)
  have "\<exists>r. R e = Some (Fin r) \<and> \<bar>r - y e\<bar> \<le> 1 / 1000" if e: "e \<in> set five_elements" for e
  proof -
    obtain s where s: "sig2 e = Some (Fin s)" "\<bar>s - y e\<bar> \<le> dl"
      using approx_mapD [OF a2 e] by blast
    have "\<bar>s\<bar> \<le> 101 / 100" using s(2) yr [of e] dl(2) by linarith
    note q = quot_approx [OF this tg g(2)]
    from tpos have "t' \<noteq> 0" by simp
    then obtain r where r: "f64_div (Fin s) (Fin t') = Fin r" "\<bar>r - s / t'\<bar> \<le> u"
      unfolding u_def using f64_div_small [OF _ q(2)] by blast
    have "\<bar>r - y e\<bar> \<le> 1 / 1000"
      using r(2) q(1) s(2) dl(3) g(3) eps(2) by linarith
    moreover have "R e = Some (Fin r)" by (simp only: R_def s(1) r(1) option.map)
    ultimately show ?thesis by blast
  qed
  with domR have "approx_map R y (1 / 1000)" by (intro approx_mapI)
  then have "sums_to_one R"
    by (rule sums_to_one_approx) (simp_all add: ysum)
  with res show ?thesis by simp
qed

text \<open>
  C6. For four pillars with stem indices in 0-9 and branch indices in 0-11, whatever the
  order in which the maps are ranged over, \<open>CalculateElementBalance\<close> returns a map over the
  five elements whose values sum to 1 within 0.01; and for a Western profile whose dominant
  element is Earth, Air, Water or Fire and a Chinese profile with that element balance, the
  map of \<open>buildElementSignature\<close> sums to 1 within 0.01 as well.
\<close>

theorem element_maps_sum_to_one:
  assumes "length pillars = 4" and "list_all valid_pillar pillars"
    and "distinct order" and "set order = set five_elements"
    and "WDominantElement western = ''Earth'' \<or> WDominantElement western = ''Air'' \<or>
         WDominantElement western = ''Water'' \<or> WDominantElement western = ''Fire''"
    and "distinct orderC" and "set orderC = set five_elements"
    and "distinct orderS" and "set orderS = set five_elements"
  shows "\<exists>balance. CalculateElementBalance pillars order = Inr balance \<and> sums_to_one balance \<and>
           (\<forall>chinese. ElementBalance chinese = balance \<longrightarrow>
              sums_to_one (buildElementSignature western chinese orderC orderS))"
proof -
  define x where "x = (\<lambda>e. real (half_count pillars e) / 12)"
  obtain balance where res: "CalculateElementBalance pillars order = Inr balance"
      and ap: "approx_map balance x (1 / 2 ^ 51)"
    unfolding x_def using CalculateElementBalance_approx [OF assms(1-4)] by blast
  have "real (half_count pillars ''Wood'' + half_count pillars ''Fire''
          + half_count pillars ''Earth'' + half_count pillars ''Metal''
          + half_count pillars ''Water'') = 12"
    using half_count_sum [OF assms(2)] assms(1) by simp
  then have xs: "x ''Wood'' + x ''Fire'' + x ''Earth'' + x ''Metal'' + x ''Water'' = 1"
    by (simp add: x_def)
  have xr: "0 \<le> x e \<and> x e \<le> 1" for e
    using half_count_le [of pillars e] assms(1) by (simp add: x_def)
  have one: "sums_to_one balance"
    using ap by (rule sums_to_one_approx) (simp_all add: xs)
  have "sums_to_one (buildElementSignature western chinese orderC orderS)"
    if "ElementBalance chinese = balance" for chinese
  proof (rule buildElementSignature_sums [OF _ _ _ xr xs assms(5-9)])
    show "approx_map (ElementBalance chinese) x (1 / 2 ^ 51)" using ap that by simp
  qed simp_all
  with res one show ?thesis by blast
qed

theorem element_maps_sum_to_one_witness:
  "\<exists>balance.
     CalculateElementBalance
       [\<lparr> Stem = ''Jia'', Branch = ''Zi'', StemIndex = 0, BranchIndex = 0 \<rparr>,
        \<lparr> Stem = ''Bing'', Branch = ''Wu'', StemIndex = 2, BranchIndex = 6 \<rparr>,
        \<lparr> Stem = ''Wu'', Branch = ''Chen'', StemIndex = 4, BranchIndex = 4 \<rparr>,
        \<lparr> Stem = ''Geng'', Branch = ''Shen'', StemIndex = 6, BranchIndex = 8 \<rparr>]
       [''Water'', ''Wood'', ''Metal'', ''Fire'', ''Earth''] = Inr balance \<and>
     sums_to_one balance \<and>
     sums_to_one
       (buildElementSignature
          \<lparr> WDominantElement = ''Air'',
            WModal = \<lparr> Cardinal = rnd (31 / 100), Fixed = rnd (23 / 100), Mutable = rnd (46 / 100) \<rparr>,
            WCognition = \<lparr> Fluid = rnd (52 / 100), Crystallized = rnd (13 / 100),
                           Verbal = rnd (53 / 100), Strategic = rnd (15 / 100),
                           Creative = rnd (33 / 100) \<rparr>,
            WInteraction = \<lparr> Pace = ''balanced'', Structure = ''medium'', Tone = ''precise'' \<rparr> \<rparr>
          \<lparr> YearPillar = ''Jia-Zi'', MonthPillar = ''Bing-Wu'', DayPillar = ''Wu-Chen'',
            HourPillar = ''Geng-Shen'', YinYangBalance = Fin 1, ElementBalance = balance,
            DayMaster = ''Wu'', DayMasterStrength = Fin (1 / 2) \<rparr>
          [''Earth'', ''Fire'', ''Metal'', ''Water'', ''Wood'']
          [''Metal'', ''Earth'', ''Wood'', ''Water'', ''Fire''])"
proof -
  let ?ps = "[\<lparr> Stem = ''Jia'', Branch = ''Zi'', StemIndex = 0, BranchIndex = 0 \<rparr>,
        \<lparr> Stem = ''Bing'', Branch = ''Wu'', StemIndex = 2, BranchIndex = 6 \<rparr>,
        \<lparr> Stem = ''Wu'', Branch = ''Chen'', StemIndex = 4, BranchIndex = 4 \<rparr>,
        \<lparr> Stem = ''Geng'', Branch = ''Shen'', StemIndex = 6, BranchIndex = 8 \<rparr>]"
  let ?w = "\<lparr> WDominantElement = ''Air'',
            WModal = \<lparr> Cardinal = rnd (31 / 100), Fixed = rnd (23 / 100), Mutable = rnd (46 / 100) \<rparr>,
            WCognition = \<lparr> Fluid = rnd (52 / 100), Crystallized = rnd (13 / 100),
                           Verbal = rnd (53 / 100), Strategic = rnd (15 / 100),
                           Creative = rnd (33 / 100) \<rparr>,
            WInteraction = \<lparr> Pace = ''balanced'', Structure = ''medium'', Tone = ''precise'' \<rparr> \<rparr>"
  have "\<exists>balance. CalculateElementBalance ?ps [''Water'', ''Wood'', ''Metal'', ''Fire'', ''Earth'']
            = Inr balance \<and> sums_to_one balance \<and>
           (\<forall>chinese. ElementBalance chinese = balance \<longrightarrow>
              sums_to_one (buildElementSignature ?w chinese
                 [''Earth'', ''Fire'', ''Metal'', ''Water'', ''Wood'']
                 [''Metal'', ''Earth'', ''Wood'', ''Water'', ''Fire'']))"
    by (rule element_maps_sum_to_one) (auto simp: valid_pillar_def five_elements_def)
  then show ?thesis by fastforce
qed

section \<open>The Chinese profile\<close>

lemma and_then_Inr: "r = Inr x \<Longrightarrow> and_then r f = f x"
  by (simp add: and_then_def)

lemma validateBirthInfo_None: "validateBirthInfo info = None \<longleftrightarrow> birth_in_range info"
  by (auto simp: validateBirthInfo_def birth_in_range_def)

lemma validateBirthInfo_Some:
  "\<not> birth_in_range info \<Longrightarrow> \<exists>msg. validateBirthInfo info = Some (Error msg)"
  by (auto simp: validateBirthInfo_def birth_in_range_def)

lemma normalized_index:
  assumes "0 < b"
  shows "0 \<le> (if go_rem a b < 0 then go_rem a b + b else go_rem a b)"
    and "(if go_rem a b < 0 then go_rem a b + b else go_rem a b) < b"
  using go_rem_normalized [OF assms, of a] assms by simp_all

lemma mkPillar_valid:
  assumes "0 \<le> si" "si < 10" "0 \<le> bi" "bi < 12"
  shows "\<exists>p. mkPillar si bi = Inr p \<and> valid_pillar p \<and> StemIndex p = si"
  using assms by (simp add: mkPillar_def index_at_def HeavenlyStems_def EarthlyBranches_def valid_pillar_def)

lemma ComputeYearPillar_valid: "\<exists>p. ComputeYearPillar year = Inr p \<and> valid_pillar p"
proof -
  have "\<exists>p. mkPillar (if go_rem (wrap64 (year - 1924)) 10 < 0 then go_rem (wrap64 (year - 1924)) 10 + 10
                       else go_rem (wrap64 (year - 1924)) 10)
                   (if go_rem (wrap64 (year - 1924)) 12 < 0 then go_rem (wrap64 (year - 1924)) 12 + 12
                       else go_rem (wrap64 (year - 1924)) 12) = Inr p \<and> valid_pillar p \<and>
             StemIndex p = (if go_rem (wrap64 (year - 1924)) 10 < 0 then go_rem (wrap64 (year - 1924)) 10 + 10
                       else go_rem (wrap64 (year - 1924)) 10)"
    by (intro mkPillar_valid normalized_index) simp_all
  then show ?thesis by (auto simp: ComputeYearPillar_def Let_def)
qed

lemma go_rem_nonneg: "0 \<le> a \<Longrightarrow> 0 < b \<Longrightarrow> 0 \<le> go_rem a b \<and> go_rem a b < b"
  by (simp add: go_rem_def sgn_if)

lemma MonthBranchMapping_range:
  assumes "1 \<le> month" "month \<le> 12"
  shows "\<exists>b. index_at MonthBranchMapping (wrap64 (month - 1)) = Inr b \<and> 0 \<le> b \<and> b < 12"
proof -
  have w: "wrap64 (month - 1) = month - 1" using assms by (intro wrap64_id) simp_all
  have "month \<in> {1, 2, 3, 4, 5, 6, 7, 8, 9, 10, 11, 12}"
    using assms by (simp only: insert_iff empty_iff) presburger
  then show ?thesis
    unfolding w by (elim insertE emptyE) (simp_all add: index_at_def MonthBranchMapping_def)
qed

lemma ComputeMonthPillar_valid:
  assumes "1 \<le> month" "month \<le> 12"
  shows "\<exists>p. ComputeMonthPillar year month day = Inr p \<and> valid_pillar p"
proof -
  obtain yp where yp: "ComputeYearPillar year = Inr yp" "valid_pillar yp"
    using ComputeYearPillar_valid by blast
  obtain b where b: "index_at MonthBranchMapping (wrap64 (month - 1)) = Inr b" "0 \<le> b" "b < 12"
    using MonthBranchMapping_range [OF assms] by blast
  have r: "0 \<le> StemIndex yp * 2 + month" "StemIndex yp * 2 + month < 2 ^ 63"
    using yp(2) assms by (simp_all add: valid_pillar_def)
  then have w: "wrap64 (StemIndex yp * 2 + month) = StemIndex yp * 2 + month"
    by (intro wrap64_id) simp_all
  have "0 \<le> go_rem (StemIndex yp * 2 + month) 10 \<and> go_rem (StemIndex yp * 2 + month) 10 < 10"
    using r(1) by (intro go_rem_nonneg) simp_all
  then obtain p where "mkPillar (go_rem (StemIndex yp * 2 + month) 10) b = Inr p" "valid_pillar p"
    using mkPillar_valid [of "go_rem (StemIndex yp * 2 + month) 10" b] b by blast
  then show ?thesis
    by (simp add: ComputeMonthPillar_def yp(1) b(1) w)
qed

lemma ComputeDayPillar_valid: "\<exists>p. ComputeDayPillar year month day = Inr p \<and> valid_pillar p"
proof -
  define n where "n = f64_to_int (f64_div (duration_Hours
       (time_Sub (Date year month day 0 0 0 UTC) (Date 1900 1 1 0 0 0 UTC))) (Fin 24))"
  have "\<exists>p. mkPillar (if go_rem n 10 < 0 then go_rem n 10 + 10 else go_rem n 10)
                   (if go_rem n 12 < 0 then go_rem n 12 + 12 else go_rem n 12) = Inr p \<and>
            valid_pillar p \<and>
            StemIndex p = (if go_rem n 10 < 0 then go_rem n 10 + 10 else go_rem n 10)"
    by (intro mkPillar_valid normalized_index) simp_all
  then show ?thesis by (auto simp: ComputeDayPillar_def Let_def n_def)
qed

lemma ComputeHourPillar_valid:
  assumes "valid_pillar dayPillar" "0 \<le> hour" "hour \<le> 23"
  shows "\<exists>p. ComputeHourPillar dayPillar hour = Inr p \<and> valid_pillar p"
proof -
  have w1: "wrap64 (hour + 1) = hour + 1" using assms by (intro wrap64_id) simp_all
  have q: "go_quot (hour + 1) 2 = (hour + 1) div 2" using assms by (simp add: go_quot_def sgn_if)
  have q0: "0 \<le> (hour + 1) div 2" using assms by simp
  define hb where "hb = go_rem ((hour + 1) div 2) 12"
  have hb: "0 \<le> hb \<and> hb < 12" unfolding hb_def using q0 by (intro go_rem_nonneg) simp_all
  define base where "base = go_rem (StemIndex dayPillar) 5 * 2"
  have "0 \<le> go_rem (StemIndex dayPillar) 5 \<and> go_rem (StemIndex dayPillar) 5 < 5"
    using assms(1) by (intro go_rem_nonneg) (simp_all add: valid_pillar_def)
  then have base: "0 \<le> base" "base < 10" by (simp_all add: base_def)
  then have w2: "wrap64 base = base" by (intro wrap64_id) simp_all
  have w3: "wrap64 (base + hb) = base + hb" using base hb by (intro wrap64_id) simp_all
  have "0 \<le> go_rem (base + hb) 10 \<and> go_rem (base + hb) 10 < 10"
    using base hb by (intro go_rem_nonneg) simp_all
  then obtain p where "mkPillar (go_rem (base + hb) 10) hb = Inr p" "valid_pillar p"
    using mkPillar_valid [of "go_rem (base + hb) 10" hb] hb by blast
  then show ?thesis
    by (simp add: ComputeHourPillar_def Let_def w1 q hb_def [symmetric] base_def [symmetric] w2 w3)
qed

lemma roll_month:
  "1 \<le> month \<Longrightarrow> month \<le> 12 \<Longrightarrow>
   1 \<le> fst (snd (roll year month day)) \<and> fst (snd (roll year month day)) \<le> 12"
proof (induction year month day rule: roll.induct)
  case (1 year month day)
  show ?case
  proof (cases "day < 1")
    case True
    note d = this
    show ?thesis
    proof (cases "month \<le> 1")
      case True
      have "roll year month day = roll (year - 1) 12 (day + days_in_month (year - 1) 12)"
        using d True by (subst roll.simps) simp
      with "1.IH"(1) [OF d True] show ?thesis by simp
    next
      case False
      have "roll year month day = roll year (month - 1) (day + days_in_month year (month - 1))"
        using d False by (subst roll.simps) simp
      with "1.IH"(2) [OF d False] False "1.prems" show ?thesis by simp
    qed
  next
    case False
    note d = this
    show ?thesis
    proof (cases "days_in_month year month < day")
      case True
      note e = this
      show ?thesis
      proof (cases "12 \<le> month")
        case True
        have "roll year month day = roll (year + 1) 1 (day - days_in_month year month)"
          using d e True by (subst roll.simps) simp
        with "1.IH"(3) [OF d e True] show ?thesis by simp
      next
        case False
        have "roll year month day = roll year (month + 1) (day - days_in_month year month)"
          using d e False by (subst roll.simps) simp
        with "1.IH"(4) [OF d e False] False "1.prems" show ?thesis by simp
      qed
    next
      case False
      have "roll year month day = (year, month, day)"
        using d False by (subst roll.simps) simp
      with "1.prems" show ?thesis by simp
    qed
  qed
qed


lemma wall_clock_range:
  "1 \<le> c_month (wall_clock t) \<and> c_month (wall_clock t) \<le> 12 \<and>
   0 \<le> c_hour (wall_clock t) \<and> c_hour (wall_clock t) \<le> 23"
proof -
  define s where "s = unix t + fst (location t (unix t))"
  define d where "d = 1 + (s div 60 div 60) div 24"
  have m: "1 \<le> fst (snd (roll 1970 1 d)) \<and> fst (snd (roll 1970 1 d)) \<le> 12"
    by (rule roll_month) simp_all
  have "wall_clock t =
      \<lparr> c_year = fst (roll 1970 1 d), c_month = fst (snd (roll 1970 1 d)),
        c_day = snd (snd (roll 1970 1 d)), c_hour = (s div 60 div 60) mod 24,
        c_minute = (s div 60) mod 60, c_second = s mod 60 \<rparr>"
    by (simp add: wall_clock_def normalize_date_def norm_field_def s_def [symmetric] d_def
        split: prod.splits)
  with m show ?thesis by simp
qed

lemma count_elements_ok:
  assumes "list_all valid_pillar ps" "length ps = 4"
  shows "\<exists>m. count_elements ps elements_init = Inr m"
proof -
  have "half_count ps e \<le> 12" for e
    using half_count_le [of ps e] assms(2) by simp
  then have "count_elements ps (counts_map (\<lambda>e. 0)) = Inr (counts_map (\<lambda>e. 0 + half_count ps e))"
    by (intro count_elements_counts assms(1)) simp
  then show ?thesis by (simp add: elements_init_counts)
qed

lemma CalculateElementBalance_ok:
  assumes "list_all valid_pillar ps" "length ps = 4"
  shows "\<exists>b. CalculateElementBalance ps order = Inr b"
  using count_elements_ok [OF assms] by (auto simp: CalculateElementBalance_def)

lemma yinyang_loop_ok:
  "list_all valid_pillar ps \<Longrightarrow> \<exists>r. yinyang_loop ps y t = Inr r"
proof (induction ps arbitrary: y t)
  case Nil
  then show ?case by simp
next
  case (Cons p ps)
  then have vp: "valid_pillar p" and vps: "list_all valid_pillar ps" by simp_all
  note lk = valid_pillar_lookup(1,2) [OF vp]
  show ?case
    using Cons.IH [OF vps] by (simp add: lk Let_def)
qed

lemma CalculateYinYangBalance_ok:
  assumes "list_all valid_pillar ps"
  shows "\<exists>b. CalculateYinYangBalance ps = Inr b"
  using yinyang_loop_ok [OF assms, of "Fin 0" "Fin 0"]
  by (auto simp: CalculateYinYangBalance_def)

lemma GetDayMaster_ok: "valid_pillar p \<Longrightarrow> \<exists>n. GetDayMaster p = Inr n"
  by (simp add: GetDayMaster_def valid_pillar_lookup(1))

lemma ComputeChineseProfile_ok:
  assumes "birth_in_range birthInfo"
  shows "\<exists>cp. ComputeChineseProfile LoadLocation order birthInfo = Inr cp"
proof -
  define loc where "loc =
    (if Timezone birthInfo \<noteq> [] \<and> Timezone birthInfo \<noteq> ''UTC'' then
       (case LoadLocation (Timezone birthInfo) of Some parsedLoc \<Rightarrow> parsedLoc | None \<Rightarrow> UTC)
     else UTC)"
  define birthTime where "birthTime =
    Date (Year birthInfo) (Month birthInfo) (Day birthInfo) (Hour birthInfo) (Minute birthInfo) 0 loc"
  define year where "year = c_year (wall_clock birthTime)"
  define month where "month = c_month (wall_clock birthTime)"
  define day where "day = c_day (wall_clock birthTime)"
  define hour where "hour = c_hour (wall_clock birthTime)"
  have v: "validateBirthInfo birthInfo = None"
    using assms by (simp add: validateBirthInfo_None)
  have r: "1 \<le> month" "month \<le> 12" "0 \<le> hour" "hour \<le> 23"
    using wall_clock_range [of birthTime] by (simp_all add: month_def hour_def)
  obtain yp where yp: "ComputeYearPillar year = Inr yp" "valid_pillar yp"
    using ComputeYearPillar_valid by blast
  obtain mp where mp: "ComputeMonthPillar year month day = Inr mp" "valid_pillar mp"
    using ComputeMonthPillar_valid [OF r(1,2)] by blast
  obtain dp where dp: "ComputeDayPillar year month day = Inr dp" "valid_pillar dp"
    using ComputeDayPillar_valid by blast
  obtain hp where hp: "ComputeHourPillar dp hour = Inr hp" "valid_pillar hp"
    using ComputeHourPillar_valid [OF dp(2) r(3,4)] by blast
  have ps: "list_all valid_pillar [yp, mp, dp, hp]" "length [yp, mp, dp, hp] = 4"
    using yp(2) mp(2) dp(2) hp(2) by simp_all
  obtain eb where eb: "CalculateElementBalance [yp, mp, dp, hp] order = Inr eb"
    using CalculateElementBalance_ok [OF ps] by blast
  obtain yy where yy: "CalculateYinYangBalance [yp, mp, dp, hp] = Inr yy"
    using CalculateYinYangBalance_ok [OF ps(1)] by blast
  obtain dm where dm: "GetDayMaster dp = Inr dm"
    using GetDayMaster_ok [OF dp(2)] by blast
  obtain st where st: "GetDayMasterStrength [yp, mp, dp, hp] dp = Inr st"
    using GetDayMasterStrength_value [OF ps(2,1) dp(2)] by blast
  have "ComputeChineseProfile LoadLocation order birthInfo =
      Inr \<lparr> YearPillar = PillarToString yp, MonthPillar = PillarToString mp,
            DayPillar = PillarToString dp, HourPillar = PillarToString hp,
            YinYangBalance = yy, ElementBalance = eb, DayMaster = dm,
            DayMasterStrength = st \<rparr>"
    unfolding ComputeChineseProfile_def v option.case Let_def
      loc_def [symmetric] birthTime_def [symmetric]
      year_def [symmetric] month_def [symmetric] day_def [symmetric] hour_def [symmetric]
    by (simp only: and_then_Inr [OF yp(1)] and_then_Inr [OF mp(1)] and_then_Inr [OF dp(1)]
        and_then_Inr [OF hp(1)] and_then_Inr [OF eb] and_then_Inr [OF yy] and_then_Inr [OF dm]
        and_then_Inr [OF st])
  then show ?thesis by blast
qed


lemma ComputeChineseProfile_fallback:
  assumes "LoadLocation (Timezone birthInfo) = None"
  shows "ComputeChineseProfile LoadLocation order birthInfo
         = ComputeChineseProfile LoadLocation order (birthInfo\<lparr>Timezone := ''UTC''\<rparr>)"
proof -
  have "validateBirthInfo (birthInfo\<lparr>Timezone := ''UTC''\<rparr>) = validateBirthInfo birthInfo"
    by (simp add: validateBirthInfo_def)
  then show ?thesis
    using assms by (simp add: ComputeChineseProfile_def Let_def split: option.split)
qed

lemma ComputeChineseProfile_invalid:
  assumes "\<not> birth_in_range birthInfo"
  shows "\<exists>msg. ComputeChineseProfile LoadLocation order birthInfo = Inl (Error msg)"
  using validateBirthInfo_Some [OF assms] by (auto simp: ComputeChineseProfile_def)

text \<open>
  C4. \<open>ComputeChineseProfile\<close> fails if and only if the year is outside 1900-2100, the month
  outside 1-12, the day outside 1-31, the hour outside 0-23 or the minute outside 0-59, and
  then it returns an error (it does not panic); when the five components are in range and
  the time zone cannot be loaded, it succeeds with the profile it computes for UTC.
\<close>

theorem ComputeChineseProfile_error_iff:
  "((\<exists>e. ComputeChineseProfile LoadLocation order birthInfo = Inl e) \<longleftrightarrow>
      \<not> birth_in_range birthInfo) \<and>
   (\<not> birth_in_range birthInfo \<longrightarrow>
      (\<exists>msg. ComputeChineseProfile LoadLocation order birthInfo = Inl (Error msg))) \<and>
   (birth_in_range birthInfo \<and> LoadLocation (Timezone birthInfo) = None \<longrightarrow>
      (\<exists>cp. ComputeChineseProfile LoadLocation order birthInfo = Inr cp \<and>
            ComputeChineseProfile LoadLocation order (birthInfo\<lparr>Timezone := ''UTC''\<rparr>) = Inr cp))"
proof (intro conjI impI)
  show "(\<exists>e. ComputeChineseProfile LoadLocation order birthInfo = Inl e) \<longleftrightarrow>
      \<not> birth_in_range birthInfo"
    using ComputeChineseProfile_ok [of birthInfo LoadLocation order]
      ComputeChineseProfile_invalid [of birthInfo LoadLocation order]
    by auto
next
  assume "\<not> birth_in_range birthInfo"
  then show "\<exists>msg. ComputeChineseProfile LoadLocation order birthInfo = Inl (Error msg)"
    by (rule ComputeChineseProfile_invalid)
next
  assume a: "birth_in_range birthInfo \<and> LoadLocation (Timezone birthInfo) = None"
  then obtain cp where "ComputeChineseProfile LoadLocation order birthInfo = Inr cp"
    using ComputeChineseProfile_ok by blast
  moreover from a have "ComputeChineseProfile LoadLocation order birthInfo
      = ComputeChineseProfile LoadLocation order (birthInfo\<lparr>Timezone := ''UTC''\<rparr>)"
    by (intro ComputeChineseProfile_fallback) simp
  ultimately show "\<exists>cp. ComputeChineseProfile LoadLocation order birthInfo = Inr cp \<and>
      ComputeChineseProfile LoadLocation order (birthInfo\<lparr>Timezone := ''UTC''\<rparr>) = Inr cp"
    by simp
qed

theorem ComputeChineseProfile_error_iff_witness:
  "(\<exists>cp. ComputeChineseProfile (\<lambda>name. None) five_elements
            \<lparr> Year = 1990, Month = 6, Day = 15, Hour = 14, Minute = 30,
              Timezone = ''Mars/Olympus'' \<rparr> = Inr cp \<and>
         ComputeChineseProfile (\<lambda>name. None) five_elements
            \<lparr> Year = 1990, Month = 6, Day = 15, Hour = 14, Minute = 30,
              Timezone = ''UTC'' \<rparr> = Inr cp) \<and>
   (\<exists>msg. ComputeChineseProfile (\<lambda>name. None) five_elements
            \<lparr> Year = 1990, Month = 13, Day = 15, Hour = 14, Minute = 30,
              Timezone = ''UTC'' \<rparr> = Inl (Error msg))"
proof -
  let ?ok = "\<lparr> Year = 1990, Month = 6, Day = 15, Hour = 14, Minute = 30,
              Timezone = ''Mars/Olympus'' \<rparr>"
  let ?bad = "\<lparr> Year = 1990, Month = 13, Day = 15, Hour = 14, Minute = 30,
              Timezone = ''UTC'' \<rparr>"
  have ok: "birth_in_range ?ok" and bad: "\<not> birth_in_range ?bad"
    by (simp_all add: birth_in_range_def)
  from ComputeChineseProfile_error_iff [of "\<lambda>name. None" five_elements ?ok] ok
  have "\<exists>cp. ComputeChineseProfile (\<lambda>name. None) five_elements ?ok = Inr cp \<and>
         ComputeChineseProfile (\<lambda>name. None) five_elements (?ok\<lparr>Timezone := ''UTC''\<rparr>) = Inr cp"
    by blast
  moreover from ComputeChineseProfile_error_iff [of "\<lambda>name. None" five_elements ?bad] bad
  have "\<exists>msg. ComputeChineseProfile (\<lambda>name. None) five_elements ?bad = Inl (Error msg)"
    by blast
  ultimately show ?thesis by simp
qed

section \<open>The generator: the caller's profile and the outputs\<close>

lemma hex_encode_length: "length (hex_encode bs) = 2 * length bs"
  by (induction bs) (simp_all add: hex_encode_def)

lemma digest_bytes_length: "length (digest_bytes w) = 32"
  by (simp add: digest_bytes_def)

lemma LoadSecretKey_length:
  "LoadSecretKey v = Inr secret \<Longrightarrow> length secret = 32 \<or> length secret = 64"
  by (auto simp: LoadSecretKey_def split: if_splits option.splits)


lemma validateInput_frame:
  "snd (validateInput inp) =
     (if reaches_defaults inp then inp\<lparr>Interaction := apply_defaults (Interaction inp)\<rparr> else inp)"
proof (cases "DominantElement inp \<in> {''Earth'', ''Air'', ''Water'', ''Fire''}")
  case False
  then have "\<not> reaches_defaults inp" by (simp only: reaches_defaults_def simp_thms)
  moreover have "snd (validateInput inp) = inp"
    unfolding validateInput_def by (subst if_P [OF False]) simp
  ultimately show ?thesis by simp
next
  case True
  note el = this
  define fe where "fe = first_error
       [validateRange ''modal.cardinal'' (Cardinal (Modal inp)),
        validateRange ''modal.fixed'' (Fixed (Modal inp)),
        validateRange ''modal.mutable'' (Mutable (Modal inp)),
        validateRange ''cognition.fluid'' (Fluid (Cognition inp)),
        validateRange ''cognition.crystallized'' (Crystallized (Cognition inp)),
        validateRange ''cognition.verbal'' (Verbal (Cognition inp)),
        validateRange ''cognition.strategic'' (Strategic (Cognition inp)),
        validateRange ''cognition.creative'' (Creative (Cognition inp))]"
  have nn: "\<not> DominantElement inp \<notin> {''Earth'', ''Air'', ''Water'', ''Fire''}"
    using el by blast
  have rd: "reaches_defaults inp \<longleftrightarrow> fe = None"
    using el by (simp only: reaches_defaults_def fe_def simp_thms)
  show ?thesis
  proof (cases fe)
    case (Some err)
    then have "snd (validateInput inp) = inp"
      unfolding validateInput_def fe_def [symmetric]
      by (subst if_not_P [OF nn]) simp
    with rd Some show ?thesis by simp
  next
    case None
    define inp1 where "inp1 = inp\<lparr>Interaction := apply_defaults (Interaction inp)\<rparr>"
    have "snd (validateInput inp) = inp1"
      unfolding validateInput_def fe_def [symmetric] None Let_def inp1_def [symmetric]
      by (subst if_not_P [OF nn]) (simp split: option.split)
    with rd None show ?thesis by (simp add: inp1_def)
  qed
qed


lemma GenerateWithOptions_frame:
  "snd (GenerateWithOptions W g (Some inp) opts) = Some (snd (validateInput inp))"
proof -
  obtain eo in1 where v: "validateInput inp = (eo, in1)" by (cases "validateInput inp")
  show ?thesis
    using v by (cases eo) (simp_all add: GenerateWithOptions_def Let_def)
qed

text \<open>
  Claim C8, amended: a generation call leaves the caller's profile as it was, except that
  once the dominant element and the eight ratios have passed validation each empty
  interaction preference is replaced by its default (\<^verbatim>\<open>balanced\<close>, \<^verbatim>\<open>medium\<close>, \<^verbatim>\<open>neutral\<close>),
  whether the call then succeeds or fails. The dominant element, the ratios and the birth
  information are never written, a preference that is not empty is never written, and a
  profile with three non-empty preferences is returned unchanged. A \<^verbatim>\<open>nil\<close> profile stays
  \<^verbatim>\<open>nil\<close>.
\<close>

theorem Generate_frame:
  "snd (Generate W g None) = None \<and>
   (\<exists>after. snd (Generate W g (Some inp)) = Some after \<and>
      after = (if reaches_defaults inp
               then inp\<lparr>Interaction := apply_defaults (Interaction inp)\<rparr> else inp) \<and>
      DominantElement after = DominantElement inp \<and> Modal after = Modal inp \<and>
      Cognition after = Cognition inp \<and> BirthInfoPtr after = BirthInfoPtr inp \<and>
      (Pace (Interaction inp) \<noteq> [] \<longrightarrow> Pace (Interaction after) = Pace (Interaction inp)) \<and>
      (Structure (Interaction inp) \<noteq> [] \<longrightarrow>
         Structure (Interaction after) = Structure (Interaction inp)) \<and>
      (Tone (Interaction inp) \<noteq> [] \<longrightarrow> Tone (Interaction after) = Tone (Interaction inp)) \<and>
      (Pace (Interaction inp) \<noteq> [] \<and> Structure (Interaction inp) \<noteq> [] \<and>
       Tone (Interaction inp) \<noteq> [] \<longrightarrow> after = inp))"
proof -
  have d: "Pace (Interaction inp) \<noteq> [] \<and> Structure (Interaction inp) \<noteq> [] \<and>
       Tone (Interaction inp) \<noteq> [] \<Longrightarrow> apply_defaults (Interaction inp) = Interaction inp"
    by (simp add: apply_defaults_def)
  have "snd (Generate W g None) = None"
    by (simp add: Generate_def GenerateWithOptions_def)
  moreover have "snd (Generate W g (Some inp)) =
      Some (if reaches_defaults inp
            then inp\<lparr>Interaction := apply_defaults (Interaction inp)\<rparr> else inp)"
    by (simp only: Generate_def GenerateWithOptions_frame validateInput_frame)
  ultimately show ?thesis
    using d by (auto simp: apply_defaults_def)
qed

text \<open>A profile with its three preferences set comes back as it was.\<close>

theorem Generate_frame_witness:
  "\<forall>W g. \<exists>after. snd (Generate W g
       (Some \<lparr> DominantElement = ''Air'',
          Modal = \<lparr> Cardinal = rnd (31 / 100), Fixed = rnd (23 / 100), Mutable = rnd (46 / 100) \<rparr>,
          Cognition = \<lparr> Fluid = rnd (52 / 100), Crystallized = rnd (13 / 100),
                        Verbal = rnd (53 / 100), Strategic = rnd (15 / 100),
                        Creative = rnd (33 / 100) \<rparr>,
          Interaction = \<lparr> Pace = ''balanced'', Structure = ''medium'', Tone = ''precise'' \<rparr>,
          BirthInfoPtr = None \<rparr>)) = Some after \<and>
     after = \<lparr> DominantElement = ''Air'',
          Modal = \<lparr> Cardinal = rnd (31 / 100), Fixed = rnd (23 / 100), Mutable = rnd (46 / 100) \<rparr>,
          Cognition = \<lparr> Fluid = rnd (52 / 100), Crystallized = rnd (13 / 100),
                        Verbal = rnd (53 / 100), Strategic = rnd (15 / 100),
                        Creative = rnd (33 / 100) \<rparr>,
          Interaction = \<lparr> Pace = ''balanced'', Structure = ''medium'', Tone = ''precise'' \<rparr>,
          BirthInfoPtr = None \<rparr>"
proof (intro allI)
  fix W :: collaborators and g :: Generator
  show "\<exists>after. snd (Generate W g
       (Some \<lparr> DominantElement = ''Air'',
          Modal = \<lparr> Cardinal = rnd (31 / 100), Fixed = rnd (23 / 100), Mutable = rnd (46 / 100) \<rparr>,
          Cognition = \<lparr> Fluid = rnd (52 / 100), Crystallized = rnd (13 / 100),
                        Verbal = rnd (53 / 100), Strategic = rnd (15 / 100),
                        Creative = rnd (33 / 100) \<rparr>,
          Interaction = \<lparr> Pace = ''balanced'', Structure = ''medium'', Tone = ''precise'' \<rparr>,
          BirthInfoPtr = None \<rparr>)) = Some after \<and>
     after = \<lparr> DominantElement = ''Air'',
          Modal = \<lparr> Cardinal = rnd (31 / 100), Fixed = rnd (23 / 100), Mutable = rnd (46 / 100) \<rparr>,
          Cognition = \<lparr> Fluid = rnd (52 / 100), Crystallized = rnd (13 / 100),
                        Verbal = rnd (53 / 100), Strategic = rnd (15 / 100),
                        Creative = rnd (33 / 100) \<rparr>,
          Interaction = \<lparr> Pace = ''balanced'', Structure = ''medium'', Tone = ''precise'' \<rparr>,
          BirthInfoPtr = None \<rparr>"
    using Generate_frame [of W g "\<lparr> DominantElement = ''Air'',
          Modal = \<lparr> Cardinal = rnd (31 / 100), Fixed = rnd (23 / 100), Mutable = rnd (46 / 100) \<rparr>,
          Cognition = \<lparr> Fluid = rnd (52 / 100), Crystallized = rnd (13 / 100),
                        Verbal = rnd (53 / 100), Strategic = rnd (15 / 100),
                        Creative = rnd (33 / 100) \<rparr>,
          Interaction = \<lparr> Pace = ''balanced'', Structure = ''medium'', Tone = ''precise'' \<rparr>,
          BirthInfoPtr = None \<rparr>"]
    by simp
qed

text \<open>
  Claim C8 as stated does not hold. For the profile below, valid but for its empty pace,
  the caller's profile after \<open>Generate\<close> has the pace \<^verbatim>\<open>balanced\<close>, whatever the generator
  and its collaborators are: \<open>validateInput\<close> assigns the default through the pointer.
\<close>

theorem Generate_writes_defaults:
  "\<forall>W g.
     snd (Generate W g
       (Some \<lparr> DominantElement = ''Air'',
          Modal = \<lparr> Cardinal = Fin (1 / 4), Fixed = Fin (1 / 4), Mutable = Fin (1 / 2) \<rparr>,
          Cognition = \<lparr> Fluid = Fin (1 / 2), Crystallized = Fin (1 / 8),
                        Verbal = Fin (1 / 2), Strategic = Fin (1 / 8),
                        Creative = Fin (1 / 4) \<rparr>,
          Interaction = \<lparr> Pace = [], Structure = ''medium'', Tone = ''precise'' \<rparr>,
          BirthInfoPtr = None \<rparr>)) =
     Some \<lparr> DominantElement = ''Air'',
          Modal = \<lparr> Cardinal = Fin (1 / 4), Fixed = Fin (1 / 4), Mutable = Fin (1 / 2) \<rparr>,
          Cognition = \<lparr> Fluid = Fin (1 / 2), Crystallized = Fin (1 / 8),
                        Verbal = Fin (1 / 2), Strategic = Fin (1 / 8),
                        Creative = Fin (1 / 4) \<rparr>,
          Interaction = \<lparr> Pace = ''balanced'', Structure = ''medium'', Tone = ''precise'' \<rparr>,
          BirthInfoPtr = None \<rparr> \<and>
     snd (Generate W g
       (Some \<lparr> DominantElement = ''Air'',
          Modal = \<lparr> Cardinal = Fin (1 / 4), Fixed = Fin (1 / 4), Mutable = Fin (1 / 2) \<rparr>,
          Cognition = \<lparr> Fluid = Fin (1 / 2), Crystallized = Fin (1 / 8),
                        Verbal = Fin (1 / 2), Strategic = Fin (1 / 8),
                        Creative = Fin (1 / 4) \<rparr>,
          Interaction = \<lparr> Pace = [], Structure = ''medium'', Tone = ''precise'' \<rparr>,
          BirthInfoPtr = None \<rparr>)) \<noteq>
     Some \<lparr> DominantElement = ''Air'',
          Modal = \<lparr> Cardinal = Fin (1 / 4), Fixed = Fin (1 / 4), Mutable = Fin (1 / 2) \<rparr>,
          Cognition = \<lparr> Fluid = Fin (1 / 2), Crystallized = Fin (1 / 8),
                        Verbal = Fin (1 / 2), Strategic = Fin (1 / 8),
                        Creative = Fin (1 / 4) \<rparr>,
          Interaction = \<lparr> Pace = [], Structure = ''medium'', Tone = ''precise'' \<rparr>,
          BirthInfoPtr = None \<rparr>"
  by (simp add: Generate_def GenerateWithOptions_frame validateInput_frame reaches_defaults_def
        validateRange_def apply_defaults_def)

lemma GenerateCHIP_Inr:
  "GenerateCHIP H salt n =
     Inr (take 12 (hex_encode (digest_bytes (sha256 H (salt @ json_NormalizedProfile_ptr n)))))"
  by (simp add: GenerateCHIP_def Let_def)

lemma wrapped_Inr: "wrapped prefix (Inr x) = Inr x"
  by (simp add: wrapped_def)

lemma stage_codes_default:
  "stage_codes \<lparr> U3Only = False, U4Only = False \<rparr> inp n out =
     Inr (out\<lparr>CodeU3 := EncodeU3 inp (Chip out),
              CodeU4 := ''HCS-U4|'' @ b64_encode (u4_json (Some n) (Chip out))\<rparr>)"
  by (simp add: stage_codes_def EncodeU4_def Let_def wrapped_Inr and_then_def)

lemma stage_chinese_None: "BirthInfoPtr inp = None \<Longrightarrow> stage_chinese W g inp out = Inr out"
  by (simp add: stage_chinese_def)

lemma ComputeQuantumSignatures_ok:
  assumes "secret \<noteq> []"
  shows "\<exists>q b. ComputeQuantumSignatures H c secret salt = Inr (q, b) \<and>
           length q = 64 \<and> length b = 64"
  using assms
  by (simp add: ComputeQuantumSignatures_def Let_def hex_encode_length digest_bytes_length
        hmac_sha3_256_def)

lemma FormatHCSU7_ok:
  assumes "length q = 64" "length b = 64"
  shows "\<exists>u7. FormatHCSU7 (Some n) q b = Inr u7 \<and> take 7 u7 = ''HCS-U7|''"
  using assms by (simp add: FormatHCSU7_def Let_def)

lemma stage_signed_ok:
  assumes "OutCombinedProfile out = None" "LoadSecretKey (secret_key_env W) = Inr secret"
  shows "\<exists>c q b u7. CanonicalProfileData W (Some n) None = Inr c \<and>
           ComputeQuantumSignatures (hash_functions W) c secret (g_salt g) = Inr (q, b) \<and>
           FormatHCSU7 (Some n) q b = Inr u7 \<and> take 7 u7 = ''HCS-U7|'' \<and>
           stage_signed W g n out = Inr (out\<lparr>CodeU7 := u7, QSig := q, B3Sig := b\<rparr>)"
proof -
  obtain c where c: "CanonicalProfileData W (Some n) None = Inr c"
    by (simp add: CanonicalProfileData_def)
  from LoadSecretKey_length [OF assms(2)] have "secret \<noteq> []" by auto
  from ComputeQuantumSignatures_ok [OF this]
  obtain q b where qb: "ComputeQuantumSignatures (hash_functions W) c secret (g_salt g) = Inr (q, b)"
    and l: "length q = 64" "length b = 64" by blast
  from FormatHCSU7_ok [OF l] obtain u7 where
    u: "FormatHCSU7 (Some n) q b = Inr u7" "take 7 u7 = ''HCS-U7|''" by blast
  have "stage_signed W g n out = Inr (out\<lparr>CodeU7 := u7, QSig := q, B3Sig := b\<rparr>)"
    by (simp add: stage_signed_def assms c qb u wrapped_Inr and_then_def)
  with c qb u show ?thesis by blast
qed

text \<open>A call without birth information, with a key that loads, goes through every stage.\<close>

lemma Generate_succeeds:
  assumes "fst (validateInput inp) = None"
    and "BirthInfoPtr inp = None"
    and "LoadSecretKey (secret_key_env W) = Inr secret"
  shows "\<exists>out. fst (Generate W g (Some inp)) = Inr out \<and>
           CodeU5 out = [] \<and> OutChineseProfile out = None \<and> OutCombinedProfile out = None \<and>
           CodeU3 out = EncodeU3 (snd (validateInput inp)) (Chip out) \<and>
           take 7 (CodeU3 out) = ''HCS-U3|'' \<and>
           EncodeU4 (Some (NormalizeProfile (snd (validateInput inp)))) (Chip out)
             = Inr (CodeU4 out) \<and>
           take 7 (CodeU4 out) = ''HCS-U4|'' \<and>
           FormatHCSU7 (Some (NormalizeProfile (snd (validateInput inp)))) (QSig out) (B3Sig out)
             = Inr (CodeU7 out) \<and>
           take 7 (CodeU7 out) = ''HCS-U7|''"
proof -
  define in1 where "in1 = snd (validateInput inp)"
  define n where "n = NormalizeProfile in1"
  have v: "validateInput inp = (None, in1)"
    using assms(1) by (simp add: in1_def prod_eq_iff)
  have b: "BirthInfoPtr in1 = None"
    using assms(2) by (simp add: in1_def validateInput_frame)
  obtain chip where chip: "GenerateCHIP (hash_functions W) (g_salt g) (Some n) = Inr chip"
    by (simp add: GenerateCHIP_Inr)
  define out0 where "out0 =
    \<lparr> Input = in1, CodeU3 = [], CodeU4 = [], CodeU5 = [], CodeU7 = [],
      QSig = [], B3Sig = [], Chip = chip, OutChineseProfile = None,
      OutCombinedProfile = None \<rparr>"
  define out1 where "out1 = out0\<lparr>CodeU3 := EncodeU3 in1 (Chip out0),
              CodeU4 := ''HCS-U4|'' @ b64_encode (u4_json (Some n) (Chip out0))\<rparr>"
  have c1: "OutCombinedProfile out1 = None" by (simp add: out1_def out0_def)
  from stage_signed_ok [OF c1 assms(3), of n g]
  obtain c q b u7 where
    u: "FormatHCSU7 (Some n) q b = Inr u7" "take 7 u7 = ''HCS-U7|''"
    and s: "stage_signed W g n out1 = Inr (out1\<lparr>CodeU7 := u7, QSig := q, B3Sig := b\<rparr>)"
    by blast
  have "fst (Generate W g (Some inp)) = Inr (out1\<lparr>CodeU7 := u7, QSig := q, B3Sig := b\<rparr>)"
    using s
    by (simp add: Generate_def GenerateWithOptions_def v Let_def chip wrapped_Inr and_then_def
          stage_codes_default stage_chinese_None [OF b] n_def [symmetric] out1_def out0_def)
  moreover have "take 7 (EncodeU3 in1 chip) = ''HCS-U3|''"
    by (simp add: EncodeU3_def Let_def)
  ultimately show ?thesis
    using u by (simp add: out1_def out0_def in1_def [symmetric] n_def [symmetric] EncodeU4_def Let_def)
qed


text \<open>
  Claim C7: for a profile that passes \<open>validateInput\<close> and has no birth information, and a
  secret key that loads, \<open>Generate\<close> returns an output without U5 code, without Chinese
  profile and without combined profile, whose U3, U4 and U7 codes are the results of
  \<open>EncodeU3\<close>, \<open>EncodeU4\<close> and \<open>FormatHCSU7\<close> on the profile and start with their prefixes.
\<close>

theorem Generate_without_birth_info:
  assumes "fst (validateInput inp) = None"
    and "BirthInfoPtr inp = None"
    and "LoadSecretKey (secret_key_env W) = Inr secret"
  shows "\<exists>out. fst (Generate W g (Some inp)) = Inr out \<and>
           CodeU5 out = [] \<and> OutChineseProfile out = None \<and> OutCombinedProfile out = None \<and>
           CodeU3 out = EncodeU3 (snd (validateInput inp)) (Chip out) \<and>
           take 7 (CodeU3 out) = ''HCS-U3|'' \<and>
           EncodeU4 (Some (NormalizeProfile (snd (validateInput inp)))) (Chip out)
             = Inr (CodeU4 out) \<and>
           take 7 (CodeU4 out) = ''HCS-U4|'' \<and>
           FormatHCSU7 (Some (NormalizeProfile (snd (validateInput inp)))) (QSig out) (B3Sig out)
             = Inr (CodeU7 out) \<and>
           take 7 (CodeU7 out) = ''HCS-U7|''"
  using Generate_succeeds [OF assms] .

text \<open>With the key of the test suite, for every generator and every other collaborator.\<close>

theorem Generate_without_birth_info_witness:
  "\<forall>W g. \<exists>out.
     fst (Generate
            (W\<lparr>secret_key_env :=
                 ''aaaaaaaaaaaaaaaaaaaaaaaaaaaaaaaaaaaaaaaaaaaaaaaaaaaaaaaaaaaaaaaa''\<rparr>) g
       (Some \<lparr> DominantElement = ''Air'',
          Modal = \<lparr> Cardinal = Fin (1 / 4), Fixed = Fin (1 / 4), Mutable = Fin (1 / 2) \<rparr>,
          Cognition = \<lparr> Fluid = Fin (1 / 2), Crystallized = Fin (1 / 8),
                        Verbal = Fin (1 / 2), Strategic = Fin (1 / 8),
                        Creative = Fin (1 / 4) \<rparr>,
          Interaction = \<lparr> Pace = ''balanced'', Structure = ''medium'', Tone = ''precise'' \<rparr>,
          BirthInfoPtr = None \<rparr>)) = Inr out \<and>
     CodeU5 out = [] \<and> OutChineseProfile out = None \<and> OutCombinedProfile out = None \<and>
     take 7 (CodeU3 out) = ''HCS-U3|'' \<and> take 7 (CodeU4 out) = ''HCS-U4|'' \<and>
     take 7 (CodeU7 out) = ''HCS-U7|''"
proof (intro allI)
  fix W :: collaborators and g :: Generator
  define P where "P =
     \<lparr> DominantElement = ''Air'',
          Modal = \<lparr> Cardinal = Fin (1 / 4), Fixed = Fin (1 / 4), Mutable = Fin (1 / 2) \<rparr>,
          Cognition = \<lparr> Fluid = Fin (1 / 2), Crystallized = Fin (1 / 8),
                        Verbal = Fin (1 / 2), Strategic = Fin (1 / 8),
                        Creative = Fin (1 / 4) \<rparr>,
          Interaction = \<lparr> Pace = ''balanced'', Structure = ''medium'', Tone = ''precise'' \<rparr>,
          BirthInfoPtr = None \<rparr>"
  define W1 where "W1 = W\<lparr>secret_key_env :=
                 ''aaaaaaaaaaaaaaaaaaaaaaaaaaaaaaaaaaaaaaaaaaaaaaaaaaaaaaaaaaaaaaaa''\<rparr>"
  have v: "fst (validateInput P) = None"
    by (simp add: P_def validateInput_def validateRange_def apply_defaults_def)
  have b: "BirthInfoPtr P = None" by (simp add: P_def)
  obtain secret where k: "LoadSecretKey (secret_key_env W1) = Inr secret"
    by (simp add: W1_def LoadSecretKey_def hex_value_def in_range_def)
  from Generate_without_birth_info [OF v b k, of g]
  show "\<exists>out. fst (Generate W1 g (Some P)) = Inr out \<and>
     CodeU5 out = [] \<and> OutChineseProfile out = None \<and> OutCombinedProfile out = None \<and>
     take 7 (CodeU3 out) = ''HCS-U3|'' \<and> take 7 (CodeU4 out) = ''HCS-U4|'' \<and>
     take 7 (CodeU7 out) = ''HCS-U7|''"
    by blast
qed

section \<open>The signatures and the secret\<close>

lemma hmac_key_block_padded:
  assumes "length k + m \<le> 136"
  shows "hmac_key_block H (k @ replicate m (CHR 0x00)) = hmac_key_block H k"
proof -
  have "replicate m (CHR 0x00) @ replicate (136 - (length k + m)) (CHR 0x00)
        = replicate (136 - length k) (CHR 0x00)"
    using assms by (simp add: replicate_add [symmetric])
  with assms show ?thesis by (simp add: hmac_key_block_def Let_def)
qed

lemma hmac_sha3_256_key_block:
  "hmac_key_block H k1 = hmac_key_block H k2 \<Longrightarrow> hmac_sha3_256 H k1 msg = hmac_sha3_256 H k2 msg"
  by (simp add: hmac_sha3_256_def)

lemma ComputeQuantumSignatures_key_block:
  assumes "k1 \<noteq> []" "k2 \<noteq> []" "hmac_key_block H k1 = hmac_key_block H k2"
  shows "ComputeQuantumSignatures H c k1 salt = ComputeQuantumSignatures H c k2 salt"
  using assms(1,2) hmac_sha3_256_key_block [OF assms(3)]
  by (simp add: ComputeQuantumSignatures_def)

lemma hex_digit_inj:
  assumes "hex_digit a = hex_digit b" "a < 16" "b < 16"
  shows "a = b"
proof -
  have d: "distinct ''0123456789abcdef''" by simp
  show ?thesis
    using assms nth_eq_iff_index_eq [OF d, of a b] by (simp add: hex_digit_def)
qed

lemma hex_encode_Cons:
  "hex_encode (b # bs) = hex_digit (of_char b div 16) # hex_digit (of_char b mod 16) # hex_encode bs"
  by (simp add: hex_encode_def)

lemma hex_encode_Nil: "hex_encode [] = []"
  by (simp add: hex_encode_def)

lemma byte_split:
  fixes a b :: char
  assumes "(of_char a :: nat) div 16 = of_char b div 16" "(of_char a :: nat) mod 16 = of_char b mod 16"
  shows "a = b"
proof -
  have "(of_char a :: nat) = of_char b"
    using assms by (metis div_mult_mod_eq)
  then show ?thesis by simp
qed

lemma hex_encode_inj: "hex_encode xs = hex_encode ys \<Longrightarrow> xs = ys"
proof (induction xs arbitrary: ys)
  case Nil
  then show ?case by (cases ys) (simp_all add: hex_encode_Nil hex_encode_Cons)
next
  case (Cons x xs)
  show ?case
  proof (cases ys)
    case Nil
    with Cons.prems show ?thesis by (simp add: hex_encode_Nil hex_encode_Cons)
  next
    case (Cons y ys')
    have lt: "\<And>c::char. (of_char c :: nat) div 16 < 16"
    proof -
      fix c :: char
      have "(of_char c :: nat) < 256" by simp
      then show "(of_char c :: nat) div 16 < 16" by (simp only: less_mult_imp_div_less [of _ 16 16, simplified])
    qed
    from Cons.prems Cons have
      h: "hex_digit (of_char x div 16) = hex_digit (of_char y div 16)"
         "hex_digit (of_char x mod 16) = hex_digit (of_char y mod 16)"
         "hex_encode xs = hex_encode ys'"
      by (simp_all add: hex_encode_Cons)
    have "(of_char x :: nat) div 16 = of_char y div 16"
      using hex_digit_inj [OF h(1)] lt by simp
    moreover have "(of_char x :: nat) mod 16 = of_char y mod 16"
      using hex_digit_inj [OF h(2)] by simp
    ultimately have "x = y" by (rule byte_split)
    with Cons.IH [OF h(3)] Cons show ?thesis by simp
  qed
qed

lemma stage_codes_Chip: "stage_codes opts inp n out = Inr out' \<Longrightarrow> Chip out' = Chip out"
  by (auto simp: stage_codes_def EncodeU4_def wrapped_def and_then_def Let_def split: if_splits)

lemma stage_chinese_Chip: "stage_chinese W g inp out = Inr out' \<Longrightarrow> Chip out' = Chip out"
  by (auto simp: stage_chinese_def Let_def split: option.splits sum.splits error.splits)

lemma stage_signed_Chip: "stage_signed W g n out = Inr out' \<Longrightarrow> Chip out' = Chip out"
  by (auto simp: stage_signed_def and_then_def wrapped_def split: sum.splits prod.splits)

lemma and_then_InrD: "and_then r f = Inr y \<Longrightarrow> \<exists>x. r = Inr x \<and> f x = Inr y"
  by (cases r) (simp_all add: and_then_def)

lemma GenerateWithOptions_Chip:
  assumes "fst (GenerateWithOptions W g (Some inp) opts) = Inr out"
  shows "GenerateCHIP (hash_functions W) (g_salt g)
           (Some (NormalizeProfile (snd (validateInput inp)))) = Inr (Chip out)"
proof -
  obtain eo in1 where v: "validateInput inp = (eo, in1)" by (cases "validateInput inp")
  show ?thesis
  proof (cases eo)
    case (Some e)
    with assms v show ?thesis by (simp add: GenerateWithOptions_def)
  next
    case None
    define n where "n = NormalizeProfile in1"
    from assms v None obtain chip out1 out2 opts1 where
      c: "wrapped ''failed to generate CHIP: '' (GenerateCHIP (hash_functions W) (g_salt g) (Some n)) = Inr chip"
      and s1: "stage_codes opts1 in1 n
                 \<lparr> Input = in1, CodeU3 = [], CodeU4 = [], CodeU5 = [], CodeU7 = [],
                   QSig = [], B3Sig = [], Chip = chip, OutChineseProfile = None,
                   OutCombinedProfile = None \<rparr> = Inr out1"
      and s2: "stage_chinese W g in1 out1 = Inr out2"
      and s3: "stage_signed W g n out2 = Inr out"
      by (auto simp: GenerateWithOptions_def Let_def n_def dest!: and_then_InrD)
    have "Chip out = chip"
      using stage_codes_Chip [OF s1] stage_chinese_Chip [OF s2] stage_signed_Chip [OF s3] by simp
    moreover have "GenerateCHIP (hash_functions W) (g_salt g) (Some n) = Inr chip"
      using c by (simp add: GenerateCHIP_Inr wrapped_Inr)
    ultimately show ?thesis by (simp add: v n_def)
  qed
qed


lemma replicate_32:
  "replicate 32 x = [x, x, x, x, x, x, x, x, x, x, x, x, x, x, x, x,
                     x, x, x, x, x, x, x, x, x, x, x, x, x, x, x, x]"
  by (simp add: eval_nat_numeral)

lemma char_of_aa: "char_of (170 :: nat) = CHR 0xAA" "char_of (0 :: nat) = CHR 0x00"
  by (simp_all add: char_of_def bit_0)

lemma LoadSecretKey_aa:
  "LoadSecretKey ''aaaaaaaaaaaaaaaaaaaaaaaaaaaaaaaaaaaaaaaaaaaaaaaaaaaaaaaaaaaaaaaa'' = Inr (replicate 32 (CHR 0xAA))"
  by (simp add: LoadSecretKey_def hex_value_def in_range_def replicate_32 char_of_aa)

lemma LoadSecretKey_aa00:
  "LoadSecretKey ''aaaaaaaaaaaaaaaaaaaaaaaaaaaaaaaaaaaaaaaaaaaaaaaaaaaaaaaaaaaaaaaa0000000000000000000000000000000000000000000000000000000000000000''
     = Inr (replicate 32 (CHR 0xAA) @ replicate 32 (CHR 0x00))"
  by (simp add: LoadSecretKey_def hex_value_def in_range_def replicate_32 char_of_aa)

text \<open>
  Claim C3 as stated does not hold: HMAC pads a key shorter than the block of the hash
  with zero bytes, so the 32-byte key of the test suite and the 64-byte key made of it and
  32 zero bytes, both accepted by \<open>LoadSecretKey\<close>, give the same derived key, hence the
  same signature, digest and U7 code, for every hash function, salt and profile.
\<close>

theorem secret_padding_collision:
  "\<forall>H canonical salt n.
     LoadSecretKey ''aaaaaaaaaaaaaaaaaaaaaaaaaaaaaaaaaaaaaaaaaaaaaaaaaaaaaaaaaaaaaaaa'' = Inr (replicate 32 (CHR 0xAA)) \<and>
     LoadSecretKey ''aaaaaaaaaaaaaaaaaaaaaaaaaaaaaaaaaaaaaaaaaaaaaaaaaaaaaaaaaaaaaaaa0000000000000000000000000000000000000000000000000000000000000000''
       = Inr (replicate 32 (CHR 0xAA) @ replicate 32 (CHR 0x00)) \<and>
     replicate 32 (CHR 0xAA) \<noteq> replicate 32 (CHR 0xAA) @ replicate 32 (CHR 0x00) \<and>
     ComputeQuantumSignatures H canonical (replicate 32 (CHR 0xAA)) salt
       = ComputeQuantumSignatures H canonical
           (replicate 32 (CHR 0xAA) @ replicate 32 (CHR 0x00)) salt \<and>
     and_then (ComputeQuantumSignatures H canonical (replicate 32 (CHR 0xAA)) salt)
        (\<lambda>(qsigHex, b3Hex). FormatHCSU7 n qsigHex b3Hex)
       = and_then (ComputeQuantumSignatures H canonical
                     (replicate 32 (CHR 0xAA) @ replicate 32 (CHR 0x00)) salt)
           (\<lambda>(qsigHex, b3Hex). FormatHCSU7 n qsigHex b3Hex)"
proof -
  have "ComputeQuantumSignatures H canonical (replicate 32 (CHR 0xAA)) salt
       = ComputeQuantumSignatures H canonical
           (replicate 32 (CHR 0xAA) @ replicate 32 (CHR 0x00)) salt" for H canonical salt
    by (rule ComputeQuantumSignatures_key_block [symmetric])
       (simp_all add: hmac_key_block_padded)
  then show ?thesis
    by (simp add: LoadSecretKey_aa LoadSecretKey_aa00)
qed


lemma digest_bytes_inj:
  assumes "digest_bytes x = digest_bytes y"
  shows "x = y"
proof (rule bit_word_eqI)
  fix k
  assume "k < LENGTH(256)"
  then have k: "k < 256" by simp
  define j where "j = k div 8"
  have j: "j < 32" using k by (simp add: j_def less_mult_imp_div_less)
  have i: "31 - j < 32" "31 - (31 - j) = j" using j by simp_all
  have "map (\<lambda>i. char_of (unat (drop_bit (8 * (31 - i)) x))) [0..<32] ! (31 - j)
      = map (\<lambda>i. char_of (unat (drop_bit (8 * (31 - i)) y))) [0..<32] ! (31 - j)"
    using assms by (simp only: digest_bytes_def)
  then have "char_of (unat (drop_bit (8 * j) x)) = (char_of (unat (drop_bit (8 * j) y)) :: char)"
    using i by simp
  then have "(of_char (char_of (unat (drop_bit (8 * j) x)) :: char) :: nat)
           = of_char (char_of (unat (drop_bit (8 * j) y)) :: char)"
    by (simp only:)
  then have "take_bit 8 (unat (drop_bit (8 * j) x)) = take_bit 8 (unat (drop_bit (8 * j) y))"
    by (simp add: take_bit_eq_mod)
  then have "bit (take_bit 8 (unat (drop_bit (8 * j) x))) (k mod 8)
           = bit (take_bit 8 (unat (drop_bit (8 * j) y))) (k mod 8)"
    by simp
  moreover have "8 * j + k mod 8 = k" by (simp add: j_def)
  ultimately show "bit x k = bit y k"
    by (simp add: bit_take_bit_iff bit_unsigned_iff bit_drop_bit_eq ac_simps)
qed

lemma FormatHCSU7_eq_iff:
  assumes "length q1 = 64" "length b1 = 64" "length q2 = 64" "length b2 = 64"
  shows "FormatHCSU7 (Some n) q1 b1 = FormatHCSU7 (Some n) q2 b2
         \<longleftrightarrow> take 24 q1 = take 24 q2 \<and> take 32 b1 = take 32 b2"
  using assms by (simp add: FormatHCSU7_def Let_def)

lemma ComputeQuantumSignatures_value:
  assumes "secret \<noteq> []"
  shows "ComputeQuantumSignatures H c secret salt =
           Inr (hex_encode (hmac_sha3_256 H (hmac_sha3_256 H secret salt) c),
                hex_encode (digest_bytes (blake3 H (hmac_sha3_256 H secret salt @ c))))"
  using assms by (simp add: ComputeQuantumSignatures_def Let_def)

lemma hmac_sha3_256_length: "length (hmac_sha3_256 H k m) = 32"
  by (simp add: hmac_sha3_256_def Let_def digest_bytes_length)

lemma hmac_sha3_256_outer:
  "hmac_sha3_256 H key msg = digest_bytes (sha3_256 H (hmac_outer_input H key msg))"
  by (simp add: hmac_sha3_256_def hmac_outer_input_def Let_def)

lemma hmac_key_block_length: "length (hmac_key_block H key) = 136"
  by (simp add: hmac_key_block_def Let_def digest_bytes_length)

lemma xor_byte_inj:
  assumes "xor_byte k a = xor_byte k b"
  shows "a = b"
proof -
  have "take_bit 8 ((of_char a :: nat) XOR k) = take_bit 8 ((of_char b :: nat) XOR k)"
    using assms by (simp add: xor_byte_def char_of_eq_iff take_bit_eq_mod)
  then have "take_bit 8 (of_char a :: nat) XOR take_bit 8 k = take_bit 8 (of_char b :: nat) XOR take_bit 8 k"
    by (simp only: take_bit_xor)
  then have "(take_bit 8 (of_char a :: nat) XOR take_bit 8 k) XOR take_bit 8 k
           = (take_bit 8 (of_char b :: nat) XOR take_bit 8 k) XOR take_bit 8 k"
    by (simp only:)
  then have "take_bit 8 (of_char a :: nat) = take_bit 8 (of_char b :: nat)"
    by (simp add: xor.assoc)
  then have "(of_char a :: nat) = of_char b"
    by (simp add: take_bit_eq_mod)
  then show ?thesis by simp
qed

lemma map_xor_byte_inj: "map (xor_byte k) xs = map (xor_byte k) ys \<Longrightarrow> xs = ys"
  by (rule map_injective) (auto simp: inj_on_def dest: xor_byte_inj)

lemma hmac_outer_input_differs:
  assumes "hmac_key_block H k1 \<noteq> hmac_key_block H k2"
  shows "hmac_outer_input H k1 m1 \<noteq> hmac_outer_input H k2 m2"
proof
  assume "hmac_outer_input H k1 m1 = hmac_outer_input H k2 m2"
  then have "map (xor_byte 0x5c) (hmac_key_block H k1) = map (xor_byte 0x5c) (hmac_key_block H k2)"
    by (simp add: hmac_outer_input_def hmac_key_block_length)
  with assms show False by (auto dest: map_xor_byte_inj)
qed

lemma hmac_key_block_short:
  "length k \<le> 136 \<Longrightarrow> hmac_key_block H k = k @ replicate (136 - length k) (CHR 0x00)"
  by (simp add: hmac_key_block_def Let_def)

lemma hmac_key_block_same_length:
  assumes "length k1 = length k2" "length k1 \<le> 136" "k1 \<noteq> k2"
  shows "hmac_key_block H k1 \<noteq> hmac_key_block H k2"
  using assms by (simp add: hmac_key_block_short)

lemma take_hex_encode: "take (2 * m) (hex_encode bs) = hex_encode (take m bs)"
proof (induction bs arbitrary: m)
  case Nil
  then show ?case by (simp add: hex_encode_Nil)
next
  case (Cons b bs)
  show ?case
  proof (cases m)
    case 0
    then show ?thesis by (simp add: hex_encode_Nil)
  next
    case (Suc m')
    with Cons.IH [of m'] show ?thesis by (simp add: hex_encode_Cons)
  qed
qed


lemma derived_keys_differ:
  assumes "hmac_key_block H k1 \<noteq> hmac_key_block H k2"
    and "\<not> collide (sha3_256 H) (hmac_outer_input H k1 m1) (hmac_outer_input H k2 m2)"
  shows "hmac_sha3_256 H k1 m1 \<noteq> hmac_sha3_256 H k2 m2"
proof
  assume "hmac_sha3_256 H k1 m1 = hmac_sha3_256 H k2 m2"
  then have "sha3_256 H (hmac_outer_input H k1 m1) = sha3_256 H (hmac_outer_input H k2 m2)"
    by (simp only: hmac_sha3_256_outer) (rule digest_bytes_inj)
  with hmac_outer_input_differs [OF assms(1), of m1 m2] assms(2)
  show False by (simp add: collide_def)
qed

lemma derived_key_block_differs:
  assumes "hmac_sha3_256 H k1 m1 \<noteq> hmac_sha3_256 H k2 m2"
  shows "hmac_key_block H (hmac_sha3_256 H k1 m1) \<noteq> hmac_key_block H (hmac_sha3_256 H k2 m2)"
  using assms by (intro hmac_key_block_same_length) (simp_all add: hmac_sha3_256_length)

lemma truncated_tags_differ:
  assumes "hmac_key_block H k1 \<noteq> hmac_key_block H k2"
    and "\<not> collide (\<lambda>x. take 12 (digest_bytes (sha3_256 H x)))
             (hmac_outer_input H k1 m1) (hmac_outer_input H k2 m2)"
  shows "take 24 (hex_encode (hmac_sha3_256 H k1 m1)) \<noteq> take 24 (hex_encode (hmac_sha3_256 H k2 m2))"
proof
  assume "take 24 (hex_encode (hmac_sha3_256 H k1 m1)) = take 24 (hex_encode (hmac_sha3_256 H k2 m2))"
  then have "hex_encode (take 12 (hmac_sha3_256 H k1 m1)) = hex_encode (take 12 (hmac_sha3_256 H k2 m2))"
    using take_hex_encode [of 12] by simp
  then have "take 12 (hmac_sha3_256 H k1 m1) = take 12 (hmac_sha3_256 H k2 m2)"
    by (rule hex_encode_inj)
  with hmac_outer_input_differs [OF assms(1), of m1 m2] assms(2)
  show False by (simp add: collide_def hmac_sha3_256_outer)
qed

lemma signatures_differ:
  assumes ne: "secretA \<noteq> []" "secretB \<noteq> []"
    and kb: "hmac_key_block H secretA \<noteq> hmac_key_block H secretB"
    and dk: "\<not> collide (sha3_256 H) (hmac_outer_input H secretA salt)
                (hmac_outer_input H secretB salt)"
    and sA: "ComputeQuantumSignatures H c secretA salt = Inr (qA, bA)"
    and sB: "ComputeQuantumSignatures H c secretB salt = Inr (qB, bB)"
    and uA: "FormatHCSU7 (Some n) qA bA = Inr uA"
    and uB: "FormatHCSU7 (Some n) qB bB = Inr uB"
  shows "(\<not> collide (sha3_256 H)
              (hmac_outer_input H (hmac_sha3_256 H secretA salt) c)
              (hmac_outer_input H (hmac_sha3_256 H secretB salt) c) \<longrightarrow> qA \<noteq> qB) \<and>
         (\<not> collide (blake3 H) (hmac_sha3_256 H secretA salt @ c)
              (hmac_sha3_256 H secretB salt @ c) \<longrightarrow> bA \<noteq> bB) \<and>
         (\<not> collide (\<lambda>x. take 12 (digest_bytes (sha3_256 H x)))
              (hmac_outer_input H (hmac_sha3_256 H secretA salt) c)
              (hmac_outer_input H (hmac_sha3_256 H secretB salt) c) \<or>
          \<not> collide (\<lambda>x. take 16 (digest_bytes (blake3 H x)))
              (hmac_sha3_256 H secretA salt @ c) (hmac_sha3_256 H secretB salt @ c)
          \<longrightarrow> uA \<noteq> uB)"
proof -
  define dA where "dA = hmac_sha3_256 H secretA salt"
  define dB where "dB = hmac_sha3_256 H secretB salt"
  have d: "dA \<noteq> dB"
    unfolding dA_def dB_def by (rule derived_keys_differ [OF kb dk])
  have kd: "hmac_key_block H dA \<noteq> hmac_key_block H dB"
    using d unfolding dA_def dB_def by (rule derived_key_block_differs)
  have len: "length dA = 32" "length dB = 32"
    by (simp_all add: dA_def dB_def hmac_sha3_256_length)
  have dc: "dA @ c \<noteq> dB @ c" using d by simp
  have qA: "qA = hex_encode (hmac_sha3_256 H dA c)"
    and bA: "bA = hex_encode (digest_bytes (blake3 H (dA @ c)))"
    using sA by (simp_all add: ComputeQuantumSignatures_value [OF ne(1)] dA_def)
  have qB: "qB = hex_encode (hmac_sha3_256 H dB c)"
    and bB: "bB = hex_encode (digest_bytes (blake3 H (dB @ c)))"
    using sB by (simp_all add: ComputeQuantumSignatures_value [OF ne(2)] dB_def)
  have l: "length qA = 64" "length bA = 64" "length qB = 64" "length bB = 64"
    by (simp_all add: qA bA qB bB hex_encode_length hmac_sha3_256_length digest_bytes_length)
  have u: "uA \<noteq> uB \<longleftrightarrow> take 24 qA \<noteq> take 24 qB \<or> take 32 bA \<noteq> take 32 bB"
    using FormatHCSU7_eq_iff [OF l, of n] uA uB by simp
  have 1: "qA \<noteq> qB"
    if "\<not> collide (sha3_256 H) (hmac_outer_input H dA c) (hmac_outer_input H dB c)"
    using derived_keys_differ [OF kd that] hex_encode_inj [of "hmac_sha3_256 H dA c" "hmac_sha3_256 H dB c"]
    by (auto simp: qA qB)
  have 2: "bA \<noteq> bB" if "\<not> collide (blake3 H) (dA @ c) (dB @ c)"
  proof
    assume "bA = bB"
    then have "blake3 H (dA @ c) = blake3 H (dB @ c)"
      by (auto simp: bA bB dest!: hex_encode_inj digest_bytes_inj)
    with that dc show False by (simp add: collide_def)
  qed
  have 3: "take 24 qA \<noteq> take 24 qB"
    if "\<not> collide (\<lambda>x. take 12 (digest_bytes (sha3_256 H x)))
           (hmac_outer_input H dA c) (hmac_outer_input H dB c)"
    using truncated_tags_differ [OF kd that] by (simp add: qA qB)
  have 4: "take 32 bA \<noteq> take 32 bB"
    if "\<not> collide (\<lambda>x. take 16 (digest_bytes (blake3 H x))) (dA @ c) (dB @ c)"
  proof
    assume "take 32 bA = take 32 bB"
    then have "hex_encode (take 16 (digest_bytes (blake3 H (dA @ c))))
             = hex_encode (take 16 (digest_bytes (blake3 H (dB @ c))))"
      using take_hex_encode [of 16] by (simp add: bA bB)
    then have "take 16 (digest_bytes (blake3 H (dA @ c))) = take 16 (digest_bytes (blake3 H (dB @ c)))"
      by (rule hex_encode_inj)
    with that dc show False by (simp add: collide_def)
  qed
  from 1 2 3 4 u show ?thesis
    unfolding dA_def dB_def by blast
qed


text \<open>
  Claim C3, amended. For a fixed generator and profile, two calls that differ in the secret
  return the same CHIP. The signature, the digest and the U7 code depend on a non-empty
  secret through its HMAC key block only (the secret, hashed when longer than 136 bytes,
  padded with zero bytes to 136): two secrets with the same key block give the same three
  values, and two different secrets of the same length, at most 136 bytes, have different
  key blocks. For two secrets with different key blocks the inputs of every hash
  application are different, so that, unless SHA3-256 collides on the two inputs of the
  outer hash of the key derivation, the signatures differ unless SHA3-256 collides on the
  two inputs of the outer hash of the signature, the digests differ unless BLAKE3 collides
  on its two inputs, and the U7 codes differ unless both the first 12 bytes of SHA3-256
  and the first 16 bytes of BLAKE3 collide on those inputs.
\<close>

theorem secret_sensitivity:
  assumes "secretA \<noteq> []" and "secretB \<noteq> []"
  shows "(fst (Generate (W\<lparr>secret_key_env := envA\<rparr>) g inp) = Inr outA \<and>
          fst (Generate (W\<lparr>secret_key_env := envB\<rparr>) g inp) = Inr outB
          \<longrightarrow> Chip outA = Chip outB) \<and>
         (length secretA = length secretB \<and> length secretA \<le> 136 \<and> secretA \<noteq> secretB
          \<longrightarrow> hmac_key_block H secretA \<noteq> hmac_key_block H secretB) \<and>
         (\<exists>qA bA uA qB bB uB.
            ComputeQuantumSignatures H c secretA salt = Inr (qA, bA) \<and>
            ComputeQuantumSignatures H c secretB salt = Inr (qB, bB) \<and>
            FormatHCSU7 (Some n) qA bA = Inr uA \<and> FormatHCSU7 (Some n) qB bB = Inr uB \<and>
            (hmac_key_block H secretA = hmac_key_block H secretB
               \<longrightarrow> qA = qB \<and> bA = bB \<and> uA = uB) \<and>
            (hmac_key_block H secretA \<noteq> hmac_key_block H secretB \<and>
             \<not> collide (sha3_256 H) (hmac_outer_input H secretA salt)
                  (hmac_outer_input H secretB salt)
               \<longrightarrow>
               (\<not> collide (sha3_256 H)
                    (hmac_outer_input H (hmac_sha3_256 H secretA salt) c)
                    (hmac_outer_input H (hmac_sha3_256 H secretB salt) c) \<longrightarrow> qA \<noteq> qB) \<and>
               (\<not> collide (blake3 H) (hmac_sha3_256 H secretA salt @ c)
                    (hmac_sha3_256 H secretB salt @ c) \<longrightarrow> bA \<noteq> bB) \<and>
               (\<not> collide (\<lambda>x. take 12 (digest_bytes (sha3_256 H x)))
                    (hmac_outer_input H (hmac_sha3_256 H secretA salt) c)
                    (hmac_outer_input H (hmac_sha3_256 H secretB salt) c) \<or>
                \<not> collide (\<lambda>x. take 16 (digest_bytes (blake3 H x)))
                    (hmac_sha3_256 H secretA salt @ c) (hmac_sha3_256 H secretB salt @ c)
                \<longrightarrow> uA \<noteq> uB)))"
proof (intro conjI impI)
  assume a: "fst (Generate (W\<lparr>secret_key_env := envA\<rparr>) g inp) = Inr outA \<and>
          fst (Generate (W\<lparr>secret_key_env := envB\<rparr>) g inp) = Inr outB"
  then obtain p where p: "inp = Some p"
    by (cases inp) (simp_all add: Generate_def GenerateWithOptions_def)
  from a have "GenerateCHIP (hash_functions W) (g_salt g)
           (Some (NormalizeProfile (snd (validateInput p)))) = Inr (Chip outA)"
    and "GenerateCHIP (hash_functions W) (g_salt g)
           (Some (NormalizeProfile (snd (validateInput p)))) = Inr (Chip outB)"
    using GenerateWithOptions_Chip [of "W\<lparr>secret_key_env := envA\<rparr>" g p None outA]
      GenerateWithOptions_Chip [of "W\<lparr>secret_key_env := envB\<rparr>" g p None outB]
    by (simp_all add: Generate_def p)
  then show "Chip outA = Chip outB" by simp
next
  assume "length secretA = length secretB \<and> length secretA \<le> 136 \<and> secretA \<noteq> secretB"
  then show "hmac_key_block H secretA \<noteq> hmac_key_block H secretB"
    by (intro hmac_key_block_same_length) simp_all
next
  from ComputeQuantumSignatures_ok [OF assms(1), of H c salt]
  obtain qA bA where sA: "ComputeQuantumSignatures H c secretA salt = Inr (qA, bA)"
    and lA: "length qA = 64" "length bA = 64" by blast
  from ComputeQuantumSignatures_ok [OF assms(2), of H c salt]
  obtain qB bB where sB: "ComputeQuantumSignatures H c secretB salt = Inr (qB, bB)"
    and lB: "length qB = 64" "length bB = 64" by blast
  from FormatHCSU7_ok [OF lA, of n] obtain uA where uA: "FormatHCSU7 (Some n) qA bA = Inr uA"
    by blast
  from FormatHCSU7_ok [OF lB, of n] obtain uB where uB: "FormatHCSU7 (Some n) qB bB = Inr uB"
    by blast
  have same: "qA = qB \<and> bA = bB \<and> uA = uB"
    if "hmac_key_block H secretA = hmac_key_block H secretB"
  proof -
    from ComputeQuantumSignatures_key_block [OF assms that, of c salt] sA sB
    have "qA = qB \<and> bA = bB" by simp
    with uA uB show ?thesis by simp
  qed
  note differ = signatures_differ [OF assms _ _ sA sB uA uB]
  from sA sB uA uB same differ
  show "\<exists>qA bA uA qB bB uB.
            ComputeQuantumSignatures H c secretA salt = Inr (qA, bA) \<and>
            ComputeQuantumSignatures H c secretB salt = Inr (qB, bB) \<and>
            FormatHCSU7 (Some n) qA bA = Inr uA \<and> FormatHCSU7 (Some n) qB bB = Inr uB \<and>
            (hmac_key_block H secretA = hmac_key_block H secretB
               \<longrightarrow> qA = qB \<and> bA = bB \<and> uA = uB) \<and>
            (hmac_key_block H secretA \<noteq> hmac_key_block H secretB \<and>
             \<not> collide (sha3_256 H) (hmac_outer_input H secretA salt)
                  (hmac_outer_input H secretB salt)
               \<longrightarrow>
               (\<not> collide (sha3_256 H)
                    (hmac_outer_input H (hmac_sha3_256 H secretA salt) c)
                    (hmac_outer_input H (hmac_sha3_256 H secretB salt) c) \<longrightarrow> qA \<noteq> qB) \<and>
               (\<not> collide (blake3 H) (hmac_sha3_256 H secretA salt @ c)
                    (hmac_sha3_256 H secretB salt @ c) \<longrightarrow> bA \<noteq> bB) \<and>
               (\<not> collide (\<lambda>x. take 12 (digest_bytes (sha3_256 H x)))
                    (hmac_outer_input H (hmac_sha3_256 H secretA salt) c)
                    (hmac_outer_input H (hmac_sha3_256 H secretB salt) c) \<or>
                \<not> collide (\<lambda>x. take 16 (digest_bytes (blake3 H x)))
                    (hmac_sha3_256 H secretA salt @ c) (hmac_sha3_256 H secretB salt @ c)
                \<longrightarrow> uA \<noteq> uB))"
    by (intro exI conjI impI) (assumption | blast)+
qed


lemma hd_digest_bytes: "hd (digest_bytes w) = char_of (unat (drop_bit 248 w))"
  by (simp add: digest_bytes_def upt_conv_Cons)

lemma top_byte:
  "drop_bit 248 (push_bit 248 (word_of_nat (of_char a)) :: 256 word) = word_of_nat (of_char a)"
proof (rule bit_word_eqI)
  fix k
  assume "k < LENGTH(256)"
  have "(of_char a :: nat) = take_bit 8 (of_char a :: nat)"
    by (simp add: take_bit_nat_eq_self)
  then have "bit (of_char a :: nat) k \<Longrightarrow> k < 8"
    by (metis bit_take_bit_iff)
  then show "bit (drop_bit 248 (push_bit 248 (word_of_nat (of_char a)) :: 256 word)) k
           = bit (word_of_nat (of_char a) :: 256 word) k"
    by (auto simp: bit_drop_bit_eq bit_push_bit_iff bit_of_nat_iff)
qed

lemma hd_first_byte_hash: "hd (digest_bytes (first_byte_hash (a # rest))) = a"
proof -
  have "(of_char a :: nat) < 2 ^ 256"
    by (rule less_trans [of _ 256]) simp_all
  then have "unat (word_of_nat (of_char a) :: 256 word) = of_char a"
    by (simp add: unat_of_nat take_bit_nat_eq_self)
  then show ?thesis
    by (simp add: hd_digest_bytes first_byte_hash_def top_byte)
qed


lemma first_byte_hash_differs:
  assumes "x \<noteq> []" "y \<noteq> []" "hd x \<noteq> hd y" "0 < m"
  shows "take m (digest_bytes (first_byte_hash x)) \<noteq> take m (digest_bytes (first_byte_hash y))"
proof
  assume e: "take m (digest_bytes (first_byte_hash x)) = take m (digest_bytes (first_byte_hash y))"
  obtain a xs b ys where xy: "x = a # xs" "y = b # ys"
    using assms(1,2) by (cases x; cases y) auto
  have "hd (take m (digest_bytes w)) = hd (digest_bytes w)" for w :: digest
    using assms(4) by (cases "digest_bytes w") (use digest_bytes_length [of w] in auto)
  with e have "hd (digest_bytes (first_byte_hash x)) = hd (digest_bytes (first_byte_hash y))"
    by metis
  with assms(3) show False by (simp add: xy hd_first_byte_hash)
qed

lemma first_byte_hash_no_collision:
  assumes "x \<noteq> []" "y \<noteq> []" "hd x \<noteq> hd y"
  shows "\<not> collide first_byte_hash x y"
    and "\<not> collide (\<lambda>x. take 12 (digest_bytes (first_byte_hash x))) x y"
    and "\<not> collide (\<lambda>x. take 16 (digest_bytes (first_byte_hash x))) x y"
  using first_byte_hash_differs [OF assms, of 12] first_byte_hash_differs [OF assms, of 16]
  by (auto simp: collide_def)

lemma hd_hmac_key_block:
  "k \<noteq> [] \<Longrightarrow> length k \<le> 136 \<Longrightarrow> hd (hmac_key_block H k) = hd k"
  by (simp add: hmac_key_block_short)

lemma hmac_outer_input_Cons:
  "\<exists>rest. hmac_outer_input H k m = xor_byte 0x5c (hd (hmac_key_block H k)) # rest"
proof -
  obtain a as where "hmac_key_block H k = a # as"
    using hmac_key_block_length [of H k] by (cases "hmac_key_block H k") auto
  then show ?thesis by (simp add: hmac_outer_input_def)
qed

lemma hd_hmac_first_byte_hash:
  assumes "sha3_256 H = first_byte_hash" "k \<noteq> []" "length k \<le> 136"
  shows "hd (hmac_sha3_256 H k m) = xor_byte 0x5c (hd k)"
proof -
  obtain rest where "hmac_outer_input H k m = xor_byte 0x5c (hd (hmac_key_block H k)) # rest"
    using hmac_outer_input_Cons by blast
  then show ?thesis
    using assms by (simp add: hmac_sha3_256_outer hd_first_byte_hash hd_hmac_key_block)
qed

text \<open>
  The two keys of the counterexample: same CHIP, same signature, digest and U7 code for
  every hash. The two keys of the test suite with \<open>first_byte_hash\<close> for the three hashes:
  different signatures, digests and U7 codes.
\<close>

theorem secret_sensitivity_witness:
  "(\<forall>W g H c salt n. \<exists>out1 out2 q b u.
     fst (Generate (W\<lparr>secret_key_env := ''aaaaaaaaaaaaaaaaaaaaaaaaaaaaaaaaaaaaaaaaaaaaaaaaaaaaaaaaaaaaaaaa''\<rparr>) g
       (Some \<lparr> DominantElement = ''Air'',
          Modal = \<lparr> Cardinal = Fin (1 / 4), Fixed = Fin (1 / 4), Mutable = Fin (1 / 2) \<rparr>,
          Cognition = \<lparr> Fluid = Fin (1 / 2), Crystallized = Fin (1 / 8),
                        Verbal = Fin (1 / 2), Strategic = Fin (1 / 8),
                        Creative = Fin (1 / 4) \<rparr>,
          Interaction = \<lparr> Pace = ''balanced'', Structure = ''medium'', Tone = ''precise'' \<rparr>,
          BirthInfoPtr = None \<rparr>)) = Inr out1 \<and>
     fst (Generate (W\<lparr>secret_key_env := ''aaaaaaaaaaaaaaaaaaaaaaaaaaaaaaaaaaaaaaaaaaaaaaaaaaaaaaaaaaaaaaaa0000000000000000000000000000000000000000000000000000000000000000''\<rparr>) g
       (Some \<lparr> DominantElement = ''Air'',
          Modal = \<lparr> Cardinal = Fin (1 / 4), Fixed = Fin (1 / 4), Mutable = Fin (1 / 2) \<rparr>,
          Cognition = \<lparr> Fluid = Fin (1 / 2), Crystallized = Fin (1 / 8),
                        Verbal = Fin (1 / 2), Strategic = Fin (1 / 8),
                        Creative = Fin (1 / 4) \<rparr>,
          Interaction = \<lparr> Pace = ''balanced'', Structure = ''medium'', Tone = ''precise'' \<rparr>,
          BirthInfoPtr = None \<rparr>)) = Inr out2 \<and>
     Chip out1 = Chip out2 \<and>
     ComputeQuantumSignatures H c (replicate 32 (CHR 0xAA)) salt = Inr (q, b) \<and>
     ComputeQuantumSignatures H c (replicate 32 (CHR 0xAA) @ replicate 32 (CHR 0x00)) salt
       = Inr (q, b) \<and>
     FormatHCSU7 (Some n) q b = Inr u) \<and>
   (\<forall>c salt n. \<exists>qA bA uA qB bB uB.
     ComputeQuantumSignatures 
        \<lparr> sha256 = first_byte_hash, sha3_256 = first_byte_hash, blake3 = first_byte_hash \<rparr> c (replicate 32 (CHR 0xAA)) salt = Inr (qA, bA) \<and>
     ComputeQuantumSignatures 
        \<lparr> sha256 = first_byte_hash, sha3_256 = first_byte_hash, blake3 = first_byte_hash \<rparr> c (replicate 32 (CHR 0xBB)) salt = Inr (qB, bB) \<and>
     FormatHCSU7 (Some n) qA bA = Inr uA \<and> FormatHCSU7 (Some n) qB bB = Inr uB \<and>
     qA \<noteq> qB \<and> bA \<noteq> bB \<and> uA \<noteq> uB)"
proof (intro conjI allI)
  fix W :: collaborators and g :: Generator and H :: hashes and c salt :: string
    and n :: NormalizedProfile
  define P where "P =
     \<lparr> DominantElement = ''Air'',
          Modal = \<lparr> Cardinal = Fin (1 / 4), Fixed = Fin (1 / 4), Mutable = Fin (1 / 2) \<rparr>,
          Cognition = \<lparr> Fluid = Fin (1 / 2), Crystallized = Fin (1 / 8),
                        Verbal = Fin (1 / 2), Strategic = Fin (1 / 8),
                        Creative = Fin (1 / 4) \<rparr>,
          Interaction = \<lparr> Pace = ''balanced'', Structure = ''medium'', Tone = ''precise'' \<rparr>,
          BirthInfoPtr = None \<rparr>"
  define k1 where "k1 = replicate 32 (CHR 0xAA)"
  define k2 where "k2 = replicate 32 (CHR 0xAA) @ replicate 32 (CHR 0x00)"
  define W1 where "W1 = W\<lparr>secret_key_env := ''aaaaaaaaaaaaaaaaaaaaaaaaaaaaaaaaaaaaaaaaaaaaaaaaaaaaaaaaaaaaaaaa''\<rparr>"
  define W2 where "W2 = W\<lparr>secret_key_env := ''aaaaaaaaaaaaaaaaaaaaaaaaaaaaaaaaaaaaaaaaaaaaaaaaaaaaaaaaaaaaaaaa0000000000000000000000000000000000000000000000000000000000000000''\<rparr>"
  have v: "fst (validateInput P) = None"
    by (simp add: P_def validateInput_def validateRange_def apply_defaults_def)
  have b: "BirthInfoPtr P = None" by (simp add: P_def)
  have l1: "LoadSecretKey (secret_key_env W1) = Inr k1"
    by (simp add: W1_def k1_def LoadSecretKey_aa)
  have l2: "LoadSecretKey (secret_key_env W2) = Inr k2"
    by (simp add: W2_def k2_def LoadSecretKey_aa00)
  from Generate_succeeds [OF v b l1, of g]
  obtain out1 where o1: "fst (Generate W1 g (Some P)) = Inr out1" by blast
  from Generate_succeeds [OF v b l2, of g]
  obtain out2 where o2: "fst (Generate W2 g (Some P)) = Inr out2" by blast
  have ne: "k1 \<noteq> []" "k2 \<noteq> []" by (simp_all add: k1_def k2_def)
  have kb: "hmac_key_block H k1 = hmac_key_block H k2"
    by (simp add: k1_def k2_def hmac_key_block_padded)
  from secret_sensitivity [OF ne, where W = W and g = g and inp = "Some P"
      and envA = "''aaaaaaaaaaaaaaaaaaaaaaaaaaaaaaaaaaaaaaaaaaaaaaaaaaaaaaaaaaaaaaaa''"
      and envB = "''aaaaaaaaaaaaaaaaaaaaaaaaaaaaaaaaaaaaaaaaaaaaaaaaaaaaaaaaaaaaaaaa0000000000000000000000000000000000000000000000000000000000000000''"
      and outA = out1 and outB = out2 and H = H and c = c and salt = salt and n = n]
    o1 o2 kb
  show "\<exists>out1 out2 q b u.
     fst (Generate W1 g (Some P)) = Inr out1 \<and>
     fst (Generate W2 g (Some P)) = Inr out2 \<and>
     Chip out1 = Chip out2 \<and>
     ComputeQuantumSignatures H c k1 salt = Inr (q, b) \<and>
     ComputeQuantumSignatures H c k2 salt = Inr (q, b) \<and>
     FormatHCSU7 (Some n) q b = Inr u"
    unfolding W1_def W2_def by blast
next
  fix c salt :: string and n :: NormalizedProfile
  define H where "H = 
        \<lparr> sha256 = first_byte_hash, sha3_256 = first_byte_hash, blake3 = first_byte_hash \<rparr>"
  define kA where "kA = replicate 32 (CHR 0xAA)"
  define kB where "kB = replicate 32 (CHR 0xBB)"
  define dA where "dA = hmac_sha3_256 H kA salt"
  define dB where "dB = hmac_sha3_256 H kB salt"
  have h: "sha3_256 H = first_byte_hash" "blake3 H = first_byte_hash" by (simp_all add: H_def)
  have k: "kA \<noteq> []" "kB \<noteq> []" "length kA \<le> 136" "length kB \<le> 136"
      "length kA = length kB" "kA \<noteq> kB" "hd kA = CHR 0xAA" "hd kB = CHR 0xBB"
    by (simp_all add: kA_def kB_def replicate_32)
  have x: "xor_byte 0x5c (CHR 0xAA) \<noteq> xor_byte 0x5c (CHR 0xBB)"
    by (auto dest: xor_byte_inj)
  have kb: "hmac_key_block H kA \<noteq> hmac_key_block H kB"
    using k by (intro hmac_key_block_same_length)
  have d: "dA \<noteq> []" "dB \<noteq> []" "length dA \<le> 136" "length dB \<le> 136"
    using hmac_sha3_256_length [of H kA salt] hmac_sha3_256_length [of H kB salt]
    by (auto simp: dA_def dB_def)
  have hd: "hd dA = xor_byte 0x5c (CHR 0xAA)" "hd dB = xor_byte 0x5c (CHR 0xBB)"
    using k by (simp_all add: dA_def dB_def hd_hmac_first_byte_hash [OF h(1)])
  obtain r1 r2 where o1: "hmac_outer_input H kA salt = xor_byte 0x5c (CHR 0xAA) # r1"
    and o2: "hmac_outer_input H kB salt = xor_byte 0x5c (CHR 0xBB) # r2"
    using hmac_outer_input_Cons [of H kA salt] hmac_outer_input_Cons [of H kB salt] k
    by (auto simp: hd_hmac_key_block)
  obtain r3 r4 where o3: "hmac_outer_input H dA c = xor_byte 0x5c (xor_byte 0x5c (CHR 0xAA)) # r3"
    and o4: "hmac_outer_input H dB c = xor_byte 0x5c (xor_byte 0x5c (CHR 0xBB)) # r4"
    using hmac_outer_input_Cons [of H dA c] hmac_outer_input_Cons [of H dB c] d hd
    by (auto simp: hd_hmac_key_block)
  have xx: "xor_byte 0x5c (xor_byte 0x5c (CHR 0xAA)) \<noteq> xor_byte 0x5c (xor_byte 0x5c (CHR 0xBB))"
    using x by (auto dest: xor_byte_inj)
  have c1: "\<not> collide (sha3_256 H) (hmac_outer_input H kA salt) (hmac_outer_input H kB salt)"
    using x by (simp add: h o1 o2 first_byte_hash_no_collision)
  have c2: "\<not> collide (sha3_256 H) (hmac_outer_input H dA c) (hmac_outer_input H dB c)"
    using xx by (simp add: h o3 o4 first_byte_hash_no_collision)
  have c3: "\<not> collide (blake3 H) (dA @ c) (dB @ c)"
    using x d hd by (simp add: h first_byte_hash_no_collision)
  have c4: "\<not> collide (\<lambda>x. take 12 (digest_bytes (sha3_256 H x)))
              (hmac_outer_input H dA c) (hmac_outer_input H dB c)"
    using xx by (simp add: h o3 o4 first_byte_hash_no_collision)
  from secret_sensitivity [OF k(1,2), where H = H and c = c and salt = salt and n = n]
    kb c1 c2 c3 c4
  show "\<exists>qA bA uA qB bB uB.
     ComputeQuantumSignatures H c kA salt = Inr (qA, bA) \<and>
     ComputeQuantumSignatures H c kB salt = Inr (qB, bB) \<and>
     FormatHCSU7 (Some n) qA bA = Inr uA \<and> FormatHCSU7 (Some n) qB bB = Inr uB \<and>
     qA \<noteq> qB \<and> bA \<noteq> bB \<and> uA \<noteq> uB"
    unfolding dA_def dB_def by blast
qed

end
